theory Spec2Isabelle
  imports Complex_Main "HOL-Library.Word"
begin

unbundle bit_operations_syntax

section \<open>JavaScript numbers and typed arrays\<close>

text \<open>
  The codec of \<^verbatim>\<open>src/utils/struct.js\<close> works on JavaScript numbers that hold
  integers, and on \<^verbatim>\<open>Uint8Array\<close> buffers. A number is an \<open>int\<close>; the bitwise
  operators first convert their operands with ToInt32 and give a signed 32-bit result;
  a store into a \<^verbatim>\<open>Uint8Array\<close> keeps the value modulo 256.
\<close>

type_synonym byte = "8 word"

definition ToInt32 :: "int \<Rightarrow> int" where
  "ToInt32 x = sint (word_of_int x :: 32 word)"

definition js_and :: "int \<Rightarrow> int \<Rightarrow> int" where
  "js_and x y = sint ((word_of_int x :: 32 word) AND word_of_int y)"

definition js_or :: "int \<Rightarrow> int \<Rightarrow> int" where
  "js_or x y = sint ((word_of_int x :: 32 word) OR word_of_int y)"

definition js_shl :: "int \<Rightarrow> nat \<Rightarrow> int" where
  "js_shl x n = sint (push_bit (n mod 32) (word_of_int x :: 32 word))"

definition js_sar :: "int \<Rightarrow> nat \<Rightarrow> int" where
  "js_sar x n = sint (signed_drop_bit (n mod 32) (word_of_int x :: 32 word))"

text \<open>\<^verbatim>\<open>!!(x & m)\<close>: a number is truthy when it is not zero.\<close>

definition truthy :: "int \<Rightarrow> bool" where
  "truthy x = (x \<noteq> 0)"

text \<open>
  \<^verbatim>\<open>bytes[i]\<close> on a \<^verbatim>\<open>Uint8Array\<close>. Beyond the end the read gives
  \<^verbatim>\<open>undefined\<close>, which every bitwise operator converts to 0.
\<close>

definition byte_at :: "byte list \<Rightarrow> nat \<Rightarrow> int" where
  "byte_at bytes i = (if i < length bytes then uint (bytes ! i) else 0)"

text \<open>\<^verbatim>\<open>new Uint8Array([...])\<close>: every element is stored modulo 256.\<close>

definition Uint8Array_from :: "int list \<Rightarrow> byte list" where
  "Uint8Array_from xs = map word_of_int xs"

section \<open>Operator codec\<close>

record operator =
  am :: bool
  vibrato :: bool
  sustaining :: bool
  ksr :: bool
  freqMult :: int
  keyScaleLevel :: int
  totalLevel :: int
  attack :: int
  decay :: int
  sustain :: int
  release :: int
  waveform :: int

definition decodeOperator :: "byte list \<Rightarrow> operator" where
  "decodeOperator bytes =
    (let avekf = byte_at bytes 0;
         ksl_l = byte_at bytes 1;
         atdec = byte_at bytes 2;
         susrel = byte_at bytes 3;
         waveform = byte_at bytes 4
     in \<lparr> am = truthy (js_and avekf 0x80),
          vibrato = truthy (js_and avekf 0x40),
          sustaining = truthy (js_and avekf 0x20),
          ksr = truthy (js_and avekf 0x10),
          freqMult = js_and avekf 0x0F,
          keyScaleLevel = js_and (js_sar ksl_l 6) 0x03,
          totalLevel = js_and ksl_l 0x3F,
          attack = js_and (js_sar atdec 4) 0x0F,
          decay = js_and atdec 0x0F,
          sustain = js_and (js_sar susrel 4) 0x0F,
          release = js_and susrel 0x0F,
          waveform = js_and waveform 0x07 \<rparr>)"

definition encodeOperator :: "operator \<Rightarrow> byte list" where
  "encodeOperator op =
    (let avekf =
           js_or (js_or (js_or (js_or
             (if am op then 0x80 else 0)
             (if vibrato op then 0x40 else 0))
             (if sustaining op then 0x20 else 0))
             (if ksr op then 0x10 else 0))
             (js_and (freqMult op) 0x0F);
         ksl_l = js_or (js_shl (js_and (keyScaleLevel op) 0x03) 6) (js_and (totalLevel op) 0x3F);
         atdec = js_or (js_shl (js_and (attack op) 0x0F) 4) (js_and (decay op) 0x0F);
         susrel = js_or (js_shl (js_and (sustain op) 0x0F) 4) (js_and (release op) 0x0F);
         waveform = js_and (waveform op) 0x07
     in Uint8Array_from [avekf, ksl_l, atdec, susrel, waveform])"

definition defaultOperator :: operator where
  "defaultOperator =
    \<lparr> am = False, vibrato = False, sustaining = True, ksr = False,
      freqMult = 1, keyScaleLevel = 0, totalLevel = 63,
      attack = 15, decay = 0, sustain = 0, release = 15, waveform = 0 \<rparr>"

text \<open>The documented ranges of the operator fields (the \<^verbatim>\<open>@typedef Operator\<close>).\<close>

definition operator_in_range :: "operator \<Rightarrow> bool" where
  "operator_in_range op \<longleftrightarrow>
     0 \<le> freqMult op \<and> freqMult op \<le> 15 \<and>
     0 \<le> keyScaleLevel op \<and> keyScaleLevel op \<le> 3 \<and>
     0 \<le> totalLevel op \<and> totalLevel op \<le> 63 \<and>
     0 \<le> attack op \<and> attack op \<le> 15 \<and>
     0 \<le> decay op \<and> decay op \<le> 15 \<and>
     0 \<le> sustain op \<and> sustain op \<le> 15 \<and>
     0 \<le> release op \<and> release op \<le> 15 \<and>
     0 \<le> waveform op \<and> waveform op \<le> 7"


section \<open>Instrument codec\<close>

text \<open>Errors raised by the JavaScript code or by the built-ins it calls.\<close>

datatype js_error = TypeError | RangeError | Error string

definition SIZEOF_ADL_OPERATOR :: nat where "SIZEOF_ADL_OPERATOR = 5"
definition SIZEOF_ADL_INSTRUMENT :: nat where "SIZEOF_ADL_INSTRUMENT = 40"
definition SIZEOF_ADL_BANK :: nat where "SIZEOF_ADL_BANK = 12"
definition SIZEOF_ADL_BANK_ID :: nat where "SIZEOF_ADL_BANK_ID = 4"
definition OPERATOR_OFFSET :: nat where "OPERATOR_OFFSET = 14"

text \<open>
  An instrument object as JavaScript sees it: every scalar property may be absent
  (\<open>None\<close> is \<^verbatim>\<open>undefined\<close>), the \<^verbatim>\<open>operators\<close> array may be absent, shorter
  than four, or hold \<^verbatim>\<open>undefined\<close> entries.
\<close>

record instrument =
  version :: "int option"
  noteOffset1 :: "int option"
  noteOffset2 :: "int option"
  velocityOffset :: "int option"
  secondVoiceDetune :: "int option"
  percussionKey :: "int option"
  is4op :: "bool option"
  isPseudo4op :: "bool option"
  isBlank :: "bool option"
  rhythmMode :: "int option"
  feedback1 :: "int option"
  connection1 :: "int option"
  feedback2 :: "int option"
  connection2 :: "int option"
  operators :: "operator option list option"
  delayOnMs :: "int option"
  delayOffMs :: "int option"

text \<open>\<^verbatim>\<open>x || 0\<close> on a number property: \<^verbatim>\<open>undefined\<close> and 0 both give 0.\<close>

definition or0 :: "int option \<Rightarrow> int" where
  "or0 x = (case x of None \<Rightarrow> 0 | Some v \<Rightarrow> if v = 0 then 0 else v)"

text \<open>\<^verbatim>\<open>if (inst.flag)\<close> on a boolean property.\<close>

definition is_set :: "bool option \<Rightarrow> bool" where
  "is_set x = (case x of None \<Rightarrow> False | Some b \<Rightarrow> b)"

subsection \<open>DataView accessors, little-endian\<close>

text \<open>
  \<^verbatim>\<open>target.set(source, offset)\<close> and the \<^verbatim>\<open>DataView\<close> setters overwrite a window
  of the buffer. The codec calls them on its own 40-byte buffer at constant offsets
  whose windows end at byte 38 at most, where the built-ins cannot raise.
\<close>

definition bytes_set :: "byte list \<Rightarrow> nat \<Rightarrow> byte list \<Rightarrow> byte list" where
  "bytes_set src off buf = take off buf @ src @ drop (off + length src) buf"

definition slice :: "byte list \<Rightarrow> nat \<Rightarrow> nat \<Rightarrow> byte list" where
  "slice buf start stop = take (stop - start) (drop start buf)"

definition bytes_of_u16 :: "16 word \<Rightarrow> byte list" where
  "bytes_of_u16 w = [ucast w, ucast (drop_bit 8 w)]"

definition bytes_of_u32 :: "32 word \<Rightarrow> byte list" where
  "bytes_of_u32 w = [ucast w, ucast (drop_bit 8 w), ucast (drop_bit 16 w), ucast (drop_bit 24 w)]"

definition u16_at :: "byte list \<Rightarrow> nat \<Rightarrow> 16 word" where
  "u16_at buf off = ucast (buf ! off) OR push_bit 8 (ucast (buf ! (off + 1)))"

definition u32_at :: "byte list \<Rightarrow> nat \<Rightarrow> 32 word" where
  "u32_at buf off =
     ucast (buf ! off) OR push_bit 8 (ucast (buf ! (off + 1))) OR
     push_bit 16 (ucast (buf ! (off + 2))) OR push_bit 24 (ucast (buf ! (off + 3)))"

definition setInt32 :: "nat \<Rightarrow> int \<Rightarrow> byte list \<Rightarrow> byte list" where
  "setInt32 off v buf = bytes_set (bytes_of_u32 (word_of_int v)) off buf"

definition setInt16 :: "nat \<Rightarrow> int \<Rightarrow> byte list \<Rightarrow> byte list" where
  "setInt16 off v buf = bytes_set (bytes_of_u16 (word_of_int v)) off buf"

definition setUint16 :: "nat \<Rightarrow> int \<Rightarrow> byte list \<Rightarrow> byte list" where
  "setUint16 off v buf = bytes_set (bytes_of_u16 (word_of_int v)) off buf"

definition setInt8 :: "nat \<Rightarrow> int \<Rightarrow> byte list \<Rightarrow> byte list" where
  "setInt8 off v buf = bytes_set [word_of_int v] off buf"

text \<open>\<^verbatim>\<open>bytes[i] = v\<close> inside the buffer.\<close>

definition setUint8 :: "nat \<Rightarrow> int \<Rightarrow> byte list \<Rightarrow> byte list" where
  "setUint8 off v buf = bytes_set [word_of_int v] off buf"

definition getInt32 :: "byte list \<Rightarrow> nat \<Rightarrow> int" where
  "getInt32 buf off = sint (u32_at buf off)"

definition getInt16 :: "byte list \<Rightarrow> nat \<Rightarrow> int" where
  "getInt16 buf off = sint (u16_at buf off)"

definition getUint16 :: "byte list \<Rightarrow> nat \<Rightarrow> int" where
  "getUint16 buf off = uint (u16_at buf off)"

definition getInt8 :: "byte list \<Rightarrow> nat \<Rightarrow> int" where
  "getInt8 buf off = sint (buf ! off)"

subsection \<open>decodeInstrument, encodeInstrument\<close>

text \<open>
  \<^verbatim>\<open>new DataView(bytes.buffer, bytes.byteOffset, 40)\<close> raises a RangeError when the
  array has fewer than 40 bytes; the array is modelled as owning its buffer, as the
  copies made by \<^verbatim>\<open>HEAPU8.slice\<close> do.
\<close>

definition decodeInstrument :: "byte list \<Rightarrow> js_error + instrument" where
  "decodeInstrument bytes =
    (if length bytes < SIZEOF_ADL_INSTRUMENT then Inl RangeError
     else
      let version = getInt32 bytes 0;
          noteOffset1 = getInt16 bytes 4;
          noteOffset2 = getInt16 bytes 6;
          velocityOffset = getInt8 bytes 8;
          secondVoiceDetune = getInt8 bytes 9;
          percussionKey = byte_at bytes 10;
          instFlags = byte_at bytes 11;
          fbConn1 = byte_at bytes 12;
          fbConn2 = byte_at bytes 13;
          operators =
            [decodeOperator (slice bytes OPERATOR_OFFSET (OPERATOR_OFFSET + SIZEOF_ADL_OPERATOR)),
             decodeOperator (slice bytes (OPERATOR_OFFSET + SIZEOF_ADL_OPERATOR)
                                         (OPERATOR_OFFSET + 2 * SIZEOF_ADL_OPERATOR)),
             decodeOperator (slice bytes (OPERATOR_OFFSET + 2 * SIZEOF_ADL_OPERATOR)
                                         (OPERATOR_OFFSET + 3 * SIZEOF_ADL_OPERATOR)),
             decodeOperator (slice bytes (OPERATOR_OFFSET + 3 * SIZEOF_ADL_OPERATOR)
                                         (OPERATOR_OFFSET + 4 * SIZEOF_ADL_OPERATOR))];
          delayOnMs = getUint16 bytes 34;
          delayOffMs = getUint16 bytes 36
      in Inr \<lparr> version = Some version,
               noteOffset1 = Some noteOffset1,
               noteOffset2 = Some noteOffset2,
               velocityOffset = Some velocityOffset,
               secondVoiceDetune = Some secondVoiceDetune,
               percussionKey = Some percussionKey,
               is4op = Some (truthy (js_and instFlags 0x01)),
               isPseudo4op = Some (truthy (js_and instFlags 0x02)),
               isBlank = Some (truthy (js_and instFlags 0x04)),
               rhythmMode = Some (js_and (js_sar instFlags 3) 0x07),
               feedback1 = Some (js_and (js_sar fbConn1 1) 0x07),
               connection1 = Some (js_and fbConn1 0x01),
               feedback2 = Some (js_and (js_sar fbConn2 1) 0x07),
               connection2 = Some (js_and fbConn2 0x01),
               operators = Some (map Some operators),
               delayOnMs = Some delayOnMs,
               delayOffMs = Some delayOffMs \<rparr>)"

text \<open>\<^verbatim>\<open>inst.operators?.[i] || defaultOperator()\<close>\<close>

definition operator_slot :: "instrument \<Rightarrow> nat \<Rightarrow> operator" where
  "operator_slot inst i =
    (case operators inst of
       None \<Rightarrow> defaultOperator
     | Some ops \<Rightarrow>
         if i < length ops then (case ops ! i of None \<Rightarrow> defaultOperator | Some op \<Rightarrow> op)
         else defaultOperator)"

definition encodeInstrument :: "instrument \<Rightarrow> byte list" where
  "encodeInstrument inst =
    (let bytes = replicate SIZEOF_ADL_INSTRUMENT (0 :: byte);
         bytes = setInt32 0 (or0 (version inst)) bytes;
         bytes = setInt16 4 (or0 (noteOffset1 inst)) bytes;
         bytes = setInt16 6 (or0 (noteOffset2 inst)) bytes;
         bytes = setInt8 8 (or0 (velocityOffset inst)) bytes;
         bytes = setInt8 9 (or0 (secondVoiceDetune inst)) bytes;
         bytes = setUint8 10 (or0 (percussionKey inst)) bytes;
         flags = 0;
         flags = (if is_set (is4op inst) then js_or flags 0x01 else flags);
         flags = (if is_set (isPseudo4op inst) then js_or flags 0x02 else flags);
         flags = (if is_set (isBlank inst) then js_or flags 0x04 else flags);
         flags = js_or flags (js_shl (js_and (or0 (rhythmMode inst)) 0x07) 3);
         bytes = setUint8 11 flags bytes;
         bytes = setUint8 12 (js_or (js_shl (js_and (or0 (feedback1 inst)) 0x07) 1)
                                    (js_and (or0 (connection1 inst)) 0x01)) bytes;
         bytes = setUint8 13 (js_or (js_shl (js_and (or0 (feedback2 inst)) 0x07) 1)
                                    (js_and (or0 (connection2 inst)) 0x01)) bytes;
         bytes = fold (\<lambda>i bytes.
                    let opBytes = encodeOperator (operator_slot inst i)
                    in bytes_set opBytes (OPERATOR_OFFSET + i * SIZEOF_ADL_OPERATOR) bytes)
                  [0 ..< 4] bytes;
         bytes = setUint16 34 (or0 (delayOnMs inst)) bytes;
         bytes = setUint16 36 (or0 (delayOffMs inst)) bytes
     in bytes)"

definition defaultInstrument :: instrument where
  "defaultInstrument =
    \<lparr> version = Some 0, noteOffset1 = Some 0, noteOffset2 = Some 0,
      velocityOffset = Some 0, secondVoiceDetune = Some 0, percussionKey = Some 0,
      is4op = Some False, isPseudo4op = Some False, isBlank = Some True,
      rhythmMode = Some 0, feedback1 = Some 0, connection1 = Some 0,
      feedback2 = Some 0, connection2 = Some 0,
      operators = Some [Some defaultOperator, Some defaultOperator,
                        Some defaultOperator, Some defaultOperator],
      delayOnMs = Some 0, delayOffMs = Some 0 \<rparr>"

text \<open>The documented ranges of the instrument fields, all properties present.\<close>

definition in_range :: "int \<Rightarrow> int \<Rightarrow> int option \<Rightarrow> bool" where
  "in_range lo hi x = (case x of None \<Rightarrow> False | Some v \<Rightarrow> lo \<le> v \<and> v \<le> hi)"

definition operators_in_range :: "operator option list option \<Rightarrow> bool" where
  "operators_in_range x =
    (case x of
       None \<Rightarrow> False
     | Some ops \<Rightarrow> length ops = 4 \<and>
         list_all (\<lambda>e. case e of None \<Rightarrow> False | Some op \<Rightarrow> operator_in_range op) ops)"

definition instrument_in_range :: "instrument \<Rightarrow> bool" where
  "instrument_in_range inst \<longleftrightarrow>
     in_range (- (2 ^ 31)) (2 ^ 31 - 1) (version inst) \<and>
     in_range (- (2 ^ 15)) (2 ^ 15 - 1) (noteOffset1 inst) \<and>
     in_range (- (2 ^ 15)) (2 ^ 15 - 1) (noteOffset2 inst) \<and>
     in_range (- (2 ^ 7)) (2 ^ 7 - 1) (velocityOffset inst) \<and>
     in_range (- (2 ^ 7)) (2 ^ 7 - 1) (secondVoiceDetune inst) \<and>
     in_range 0 255 (percussionKey inst) \<and>
     is4op inst \<noteq> None \<and> isPseudo4op inst \<noteq> None \<and> isBlank inst \<noteq> None \<and>
     in_range 0 7 (rhythmMode inst) \<and>
     in_range 0 7 (feedback1 inst) \<and> in_range 0 1 (connection1 inst) \<and>
     in_range 0 7 (feedback2 inst) \<and> in_range 0 1 (connection2 inst) \<and>
     operators_in_range (operators inst) \<and>
     in_range 0 65535 (delayOnMs inst) \<and> in_range 0 65535 (delayOffMs inst)"

text \<open>
  \<^verbatim>\<open>inst.operators[i] = op\<close>: the assignment that places an operator in slot \<open>i\<close>
  (an array shorter than \<open>i\<close> is extended with holes).
\<close>

definition place_operator :: "instrument \<Rightarrow> nat \<Rightarrow> operator \<Rightarrow> instrument" where
  "place_operator inst i op =
    inst \<lparr> operators :=
      Some (case operators inst of
              None \<Rightarrow> replicate i None @ [Some op]
            | Some ops \<Rightarrow>
                if i < length ops then ops [i := Some op]
                else ops @ replicate (i - length ops) None @ [Some op]) \<rparr>"

definition slot_missing :: "instrument \<Rightarrow> nat \<Rightarrow> bool" where
  "slot_missing inst i =
    (case operators inst of
       None \<Rightarrow> True
     | Some ops \<Rightarrow> if i < length ops then ops ! i = None else True)"

text \<open>The flags byte that \<^verbatim>\<open>encodeInstrument\<close> builds, named for the proofs.\<close>

definition instrument_flags :: "instrument \<Rightarrow> int" where
  "instrument_flags inst =
    (let flags = 0;
         flags = (if is_set (is4op inst) then js_or flags 0x01 else flags);
         flags = (if is_set (isPseudo4op inst) then js_or flags 0x02 else flags);
         flags = (if is_set (isBlank inst) then js_or flags 0x04 else flags)
     in js_or flags (js_shl (js_and (or0 (rhythmMode inst)) 0x07) 3))"

section \<open>The WebAssembly module\<close>

text \<open>
  The synthesis engine is a WebAssembly module built by Emscripten; the JavaScript code
  only calls its exports and reads and writes its linear memory. The module is a
  parameter of the model: its state is the memory (\<^verbatim>\<open>HEAPU8\<close>, of which
  \<^verbatim>\<open>HEAP16\<close> and \<^verbatim>\<open>HEAP32\<close> are views) and a private engine state \<open>'e\<close>, and
  every export is a function on that state. An export is assumed to return (a trap of
  the engine is outside the model).
\<close>

type_synonym ptr = nat

datatype lifecycle_call =
    adl_init int
  | adl_close ptr
  | adl_reset ptr
  | adl_rt_resetState ptr
  | adl_panic ptr

datatype bank_call =
    adl_setBank ptr int
  | adl_openBankData ptr ptr nat
  | adl_getBanksCount
  | adl_getBankNames
  | adl_getBank ptr ptr int ptr
  | adl_getInstrument ptr ptr int ptr
  | adl_setInstrument ptr ptr int ptr

datatype config_call =
    adl_setNumChips ptr int
  | adl_getNumChips ptr
  | adl_getNumChipsObtained ptr
  | adl_setNumFourOpsChn ptr int
  | adl_getNumFourOpsChn ptr
  | adl_setScaleModulators ptr int
  | adl_setFullRangeBrightness ptr int
  | adl_setAutoArpeggio ptr int
  | adl_getAutoArpeggio ptr
  | adl_setChannelAllocMode ptr int
  | adl_getChannelAllocMode ptr
  | adl_setSoftPanEnabled ptr int
  | adl_setHVibrato ptr int
  | adl_setHTremolo ptr int
  | adl_setPercMode ptr int
  | adl_setVolumeRangeModel ptr int
  | adl_getVolumeRangeModel ptr
  | adl_setRunAtPcmRate ptr int
  | adl_switchEmulator ptr int
  | adl_chipEmulatorName ptr
  | adl_linkedLibraryVersion
  | adl_linkedVersion

datatype realtime_call =
    adl_rt_noteOn ptr int int int
  | adl_rt_noteOff ptr int int
  | adl_rt_noteAfterTouch ptr int int int
  | adl_rt_channelAfterTouch ptr int int
  | adl_rt_pitchBend ptr int int
  | adl_rt_pitchBendML ptr int int int
  | adl_rt_controllerChange ptr int int int
  | adl_rt_patchChange ptr int int
  | adl_rt_bankChange ptr int int
  | adl_rt_bankChangeMSB ptr int int
  | adl_rt_bankChangeLSB ptr int int

datatype playback_call =
    adl_generate ptr nat ptr
  | adl_play ptr nat ptr
  | adl_openData ptr ptr nat
  | adl_metaMusicTitle ptr
  | adl_metaMusicCopyright ptr
  | adl_positionTell ptr
  | adl_totalTimeLength ptr
  | adl_positionSeek ptr rat
  | adl_positionRewind ptr
  | adl_atEnd ptr
  | adl_setLoopEnabled ptr int
  | adl_setTempo ptr rat

datatype export_call =
    malloc nat
  | free ptr
  | Lifecycle lifecycle_call
  | Bank bank_call
  | Config config_call
  | Rt realtime_call
  | Playback playback_call

record 'e wasm =
  HEAPU8 :: "byte list"
  engine :: "'e"

text \<open>
  The exports: \<open>exports\<close> gives the integer result (status, count or pointer; 0 for a
  \<^verbatim>\<open>void\<close> export), \<open>exports_double\<close> the result of the two exports that return
  seconds as a double.
\<close>

record 'e module =
  exports :: "export_call \<Rightarrow> 'e wasm \<Rightarrow> int \<times> 'e wasm"
  exports_double :: "export_call \<Rightarrow> 'e wasm \<Rightarrow> rat \<times> 'e wasm"

text \<open>
  A loaded module together with the history of the exports called on it, oldest
  first, each with the integer it returned (0 is recorded for the two exports that
  return a double). The history is what "issues a reset" or "allocates" is stated on.
\<close>

record 'e machine =
  wasm :: "'e wasm"
  calls :: "(export_call \<times> int) list"

definition invoke :: "'e module \<Rightarrow> export_call \<Rightarrow> 'e machine \<Rightarrow> int \<times> 'e machine" where
  "invoke M c m =
    (let (r, w) = exports M c (wasm m)
     in (r, \<lparr> wasm = w, calls = calls m @ [(c, r)] \<rparr>))"

definition invoke_double :: "'e module \<Rightarrow> export_call \<Rightarrow> 'e machine \<Rightarrow> rat \<times> 'e machine" where
  "invoke_double M c m =
    (let (r, w) = exports_double M c (wasm m)
     in (r, \<lparr> wasm = w, calls = calls m @ [(c, 0)] \<rparr>))"

text \<open>A module whose exports all return 0 and leave the memory alone, for examples.\<close>

definition idle_module :: "unit module" where
  "idle_module = \<lparr> exports = (\<lambda>c w. (0, w)), exports_double = (\<lambda>c w. (0, w)) \<rparr>"

text \<open>
  The address that a number denotes when it is used as a pointer: its unsigned 32-bit
  value, which is what the engine receives when the number is passed back to an export.
  A negative result of an export stays a non-zero (truthy) number, and as an index it
  lies beyond the end of any memory of at most \<open>2 ^ 31\<close> bytes, where JavaScript reads
  \<^verbatim>\<open>undefined\<close>, ignores a store and refuses \<^verbatim>\<open>set\<close>.
\<close>

definition as_ptr :: "int \<Rightarrow> ptr" where
  "as_ptr r = nat (r mod 4294967296)"

subsection \<open>Views of the linear memory\<close>

text \<open>\<^verbatim>\<open>HEAPU8[i] = v\<close>: a store beyond the end of a typed array is ignored.\<close>

definition HEAPU8_store :: "nat \<Rightarrow> int \<Rightarrow> 'e machine \<Rightarrow> 'e machine" where
  "HEAPU8_store i v m =
    (if i < length (HEAPU8 (wasm m))
     then m \<lparr> wasm := (wasm m) \<lparr> HEAPU8 := (HEAPU8 (wasm m)) [i := word_of_int v] \<rparr> \<rparr>
     else m)"

text \<open>\<^verbatim>\<open>HEAPU8.set(bytes, ptr)\<close> raises a RangeError when the source does not fit.\<close>

definition HEAPU8_set :: "byte list \<Rightarrow> nat \<Rightarrow> 'e machine \<Rightarrow> js_error + 'e machine" where
  "HEAPU8_set bytes p m =
    (if p + length bytes \<le> length (HEAPU8 (wasm m))
     then Inr (m \<lparr> wasm := (wasm m) \<lparr> HEAPU8 := bytes_set bytes p (HEAPU8 (wasm m)) \<rparr> \<rparr>)
     else Inl RangeError)"

text \<open>\<^verbatim>\<open>HEAPU8.slice(start, stop)\<close> copies; the bounds are clamped to the array.\<close>

definition HEAPU8_slice :: "'e machine \<Rightarrow> nat \<Rightarrow> nat \<Rightarrow> byte list" where
  "HEAPU8_slice m start stop = slice (HEAPU8 (wasm m)) start stop"

text \<open>
  \<^verbatim>\<open>HEAP16[k]\<close>: the signed 16-bit little-endian value at byte address \<open>2 * k\<close>,
  \<^verbatim>\<open>undefined\<close> (\<open>None\<close>) beyond the end. \<^verbatim>\<open>HEAP32[k]\<close> likewise at \<open>4 * k\<close>.
\<close>

definition HEAP16 :: "byte list \<Rightarrow> nat \<Rightarrow> 16 word option" where
  "HEAP16 heap k = (if 2 * k + 1 < length heap then Some (u16_at heap (2 * k)) else None)"


definition HEAP32 :: "byte list \<Rightarrow> nat \<Rightarrow> 32 word option" where
  "HEAP32 heap k = (if 4 * k + 3 < length heap then Some (u32_at heap (4 * k)) else None)"

text \<open>Emscripten's \<^verbatim>\<open>getValue(ptr, 'i16')\<close> and \<^verbatim>\<open>getValue(ptr, 'i32')\<close>.\<close>

definition getValue_i16 :: "'e machine \<Rightarrow> ptr \<Rightarrow> int option" where
  "getValue_i16 m p = map_option sint (HEAP16 (HEAPU8 (wasm m)) (p div 2))"

definition getValue_i32 :: "'e machine \<Rightarrow> ptr \<Rightarrow> int option" where
  "getValue_i32 m p = map_option sint (HEAP32 (HEAPU8 (wasm m)) (p div 4))"

text \<open>
  Emscripten's \<^verbatim>\<open>UTF8ToString(ptr)\<close>: the bytes from \<open>ptr\<close> up to the first zero
  byte, one character per byte.
\<close>

definition UTF8ToString :: "'e machine \<Rightarrow> ptr \<Rightarrow> string" where
  "UTF8ToString m p =
     map (\<lambda>b. char_of (unat b)) (takeWhile (\<lambda>b. b \<noteq> 0) (drop p (HEAPU8 (wasm m))))"

text \<open>
  A sample of a \<^verbatim>\<open>Float32Array\<close>. Every value the code stores is a 16-bit integer
  divided by \<open>2 ^ 15\<close>, which single precision represents exactly, so a sample is a
  rational; \<^verbatim>\<open>undefined / 32768\<close> is NaN.
\<close>

datatype f32 = F32 rat | NaN


text \<open>The message of a caught exception (\<^verbatim>\<open>error.message\<close>).\<close>

definition error_message :: "js_error \<Rightarrow> string" where
  "error_message e =
    (case e of TypeError \<Rightarrow> ''TypeError'' | RangeError \<Rightarrow> ''RangeError'' | Error s \<Rightarrow> s)"

text \<open>Bank identifier: \<^verbatim>\<open>{percussive, msb, lsb}\<close>, each property possibly absent.\<close>

record bank_id =
  percussive :: "int option"
  msb :: "int option"
  lsb :: "int option"

text \<open>\<^verbatim>\<open>x ? 1 : 0\<close> on a property that holds a boolean or a number, or is absent.\<close>

definition is_truthy :: "int option \<Rightarrow> bool" where
  "is_truthy x = (case x of None \<Rightarrow> False | Some v \<Rightarrow> v \<noteq> 0)"

section \<open>AdlMidiCore: the low-level session\<close>

record 'e core =
  module :: "'e machine"
  player :: ptr
  sampleRate :: int
  audioBuffer :: "f32 list option"
  audioBufferPtr :: "int option"


definition ensurePlayer :: "'e core \<Rightarrow> js_error option" where
  "ensurePlayer c =
    (if player c = 0 then Some (Error ''Synthesizer not initialized - call init() first'')
     else None)"

definition core_invoke :: "'e module \<Rightarrow> export_call \<Rightarrow> 'e core \<Rightarrow> int \<times> 'e core" where
  "core_invoke M x c = (let (r, m) = invoke M x (module c) in (r, c \<lparr> module := m \<rparr>))"

definition core_init :: "'e module \<Rightarrow> int \<Rightarrow> 'e core \<Rightarrow> (js_error + bool) \<times> 'e core" where
  "core_init M rate c =
    (let c = c \<lparr> sampleRate := rate \<rparr>;
         (h, c) = core_invoke M (Lifecycle (adl_init rate)) c;
         c = c \<lparr> player := as_ptr h \<rparr>
     in if player c = 0 then (Inl (Error ''Failed to initialize ADL MIDI player''), c)
        else (Inr True, c))"

definition resetFull :: "'e module \<Rightarrow> 'e core \<Rightarrow> (js_error + unit) \<times> 'e core" where
  "resetFull M c =
    (case ensurePlayer c of
       Some e \<Rightarrow> (Inl e, c)
     | None \<Rightarrow> (Inr (), snd (core_invoke M (Lifecycle (adl_reset (player c))) c)))"







text \<open>The three bytes of the bank identifier, as both classes write them.\<close>

definition write_bank_id :: "ptr \<Rightarrow> int \<Rightarrow> bank_id \<Rightarrow> 'e machine \<Rightarrow> 'e machine" where
  "write_bank_id p perc bankId m =
    HEAPU8_store (p + 2) (or0 (lsb bankId))
      (HEAPU8_store (p + 1) (or0 (msb bankId))
        (HEAPU8_store p perc m))"

definition core_getInstrument ::
    "'e module \<Rightarrow> bank_id option \<Rightarrow> int \<Rightarrow> 'e core \<Rightarrow> (js_error + instrument option) \<times> 'e core" where
  "core_getInstrument M bankId program c =
    (case ensurePlayer c of
       Some e \<Rightarrow> (Inl e, c)
     | None \<Rightarrow>
        let (r, c) = core_invoke M (malloc SIZEOF_ADL_BANK_ID) c;
            bankIdPtr = as_ptr r
        in case bankId of
             None \<Rightarrow> (Inl TypeError, c)
           | Some bid \<Rightarrow>
              let c = c \<lparr> module := write_bank_id bankIdPtr (or0 (percussive bid)) bid (module c) \<rparr>;
                  (r, c) = core_invoke M (malloc SIZEOF_ADL_BANK) c;
                  bankPtr = as_ptr r;
                  (bankResult, c) = core_invoke M (Bank (adl_getBank (player c) bankIdPtr 1 bankPtr)) c
              in if bankResult = 0 then
                   let (r, c) = core_invoke M (malloc SIZEOF_ADL_INSTRUMENT) c;
                       instPtr = as_ptr r;
                       (result, c) = core_invoke M (Bank (adl_getInstrument (player c) bankPtr program instPtr)) c
                   in if result = 0 then
                        let bytes = HEAPU8_slice (module c) instPtr (instPtr + SIZEOF_ADL_INSTRUMENT)
                        in case decodeInstrument bytes of
                             Inl e \<Rightarrow> (Inl e, c)
                           | Inr instrument \<Rightarrow>
                               let c = snd (core_invoke M (free instPtr) c);
                                   c = snd (core_invoke M (free bankIdPtr) c);
                                   c = snd (core_invoke M (free bankPtr) c)
                               in (Inr (Some instrument), c)
                      else
                        let c = snd (core_invoke M (free instPtr) c);
                            c = snd (core_invoke M (free bankIdPtr) c);
                            c = snd (core_invoke M (free bankPtr) c)
                        in (Inr None, c)
                 else
                   let c = snd (core_invoke M (free bankIdPtr) c);
                       c = snd (core_invoke M (free bankPtr) c)
                   in (Inr None, c))"

definition core_setInstrument ::
    "'e module \<Rightarrow> bank_id option \<Rightarrow> int \<Rightarrow> instrument option \<Rightarrow> 'e core \<Rightarrow> (js_error + bool) \<times> 'e core" where
  "core_setInstrument M bankId program inst c =
    (case ensurePlayer c of
       Some e \<Rightarrow> (Inl e, c)
     | None \<Rightarrow>
        let (r, c) = core_invoke M (malloc SIZEOF_ADL_BANK_ID) c;
            bankIdPtr = as_ptr r
        in case bankId of
             None \<Rightarrow> (Inl TypeError, c)
           | Some bid \<Rightarrow>
              let c = c \<lparr> module := write_bank_id bankIdPtr (or0 (percussive bid)) bid (module c) \<rparr>;
                  (r, c) = core_invoke M (malloc SIZEOF_ADL_BANK) c;
                  bankPtr = as_ptr r;
                  (bankResult, c) = core_invoke M (Bank (adl_getBank (player c) bankIdPtr 1 bankPtr)) c
              in if bankResult = 0 then
                   (case inst of
                      None \<Rightarrow> (Inl TypeError, c)
                    | Some instrument \<Rightarrow>
                       let bytes = encodeInstrument instrument;
                           (r, c) = core_invoke M (malloc SIZEOF_ADL_INSTRUMENT) c;
                           instPtr = as_ptr r
                       in case HEAPU8_set bytes instPtr (module c) of
                            Inl e \<Rightarrow> (Inl e, c)
                          | Inr m \<Rightarrow>
                             let c = c \<lparr> module := m \<rparr>;
                                 (result, c) = core_invoke M (Bank (adl_setInstrument (player c) bankPtr program instPtr)) c;
                                 success = (result = 0);
                                 c = snd (core_invoke M (free instPtr) c);
                                 c = snd (core_invoke M (free bankIdPtr) c);
                                 c = snd (core_invoke M (free bankPtr) c)
                             in (Inr success, c))
                 else
                   let c = snd (core_invoke M (free bankIdPtr) c);
                       c = snd (core_invoke M (free bankPtr) c)
                   in (Inr False, c))"

section \<open>AdlMidiProcessor: the rendering side\<close>

datatype play_mode = Realtime | File

record settings =
  numChips :: "int option"
  numFourOpChannels :: "int option"
  bank :: "int option"
  softPan :: "bool option"
  deepVibrato :: "bool option"
  deepTremolo :: "bool option"

record processor_options =
  opt_sampleRate :: "int option"
  opt_settings :: "settings option"

text \<open>Messages from the control side, one constructor per \<^verbatim>\<open>msg.type\<close>.\<close>

datatype msg =
    Ping
  | NoteOn int int int
  | NoteOff int int
  | PitchBend int int int
  | ControlChange int int int
  | ProgramChange int int
  | NoteAfterTouch int int int
  | ChannelAfterTouch int int
  | BankChange int int
  | BankChangeMSB int int
  | BankChangeLSB int int
  | ResetState
  | Panic
  | Configure settings
  | LoadBank "byte list"
  | SetBank int
  | GetInstrument "bank_id option" int
  | SetInstrument "bank_id option" int "instrument option"
  | SetNumChips int
  | SetNumFourOpChannels int
  | GetNumFourOpChannels
  | SetScaleModulators bool
  | SetFullRangeBrightness bool
  | SetAutoArpeggio bool
  | GetAutoArpeggio
  | SetChannelAllocMode int
  | GetChannelAllocMode
  | SetVolumeModel int
  | SetPercMode bool
  | SetVibrato bool
  | SetTremolo bool
  | SetRunAtPcmRate bool
  | SwitchEmulator int
  | GetEmulatorName
  | GetLibraryVersion
  | GetVersion
  | GetNumChips
  | GetNumChipsObtained
  | GetVolumeModel
  | GetEmbeddedBanks
  | LoadMidi "byte list"
  | GetMusicTitle
  | GetMusicCopyright
  | Play
  | Stop
  | Seek rat
  | SetLoop bool
  | SetTempo rat
  | GetState
  | Reset
  | Other string

text \<open>Messages posted to the control side.\<close>

datatype reply =
    Ready
  | ErrorMsg string
  | Pong bool
  | Configured
  | BankLoaded bool "string option"
  | BankSet bool int
  | InstrumentLoaded bool "instrument option" "string option"
  | InstrumentSet bool "string option"
  | NumFourOpChannels int
  | AutoArpeggio bool
  | ChannelAllocMode int
  | EmulatorSwitched bool int
  | EmulatorName string
  | LibraryVersion string
  | Version "(int option \<times> int option \<times> int option) option"
  | NumChips int
  | NumChipsObtained int
  | VolumeModel int
  | EmbeddedBanks "(nat \<times> string) list"
  | MidiLoaded bool "rat option" "string option"
  | MusicTitle string
  | MusicCopyright string
  | State rat rat bool play_mode
  | PlaybackEnded
  | ProcessingError string

record 'e processor =
  adl :: "'e machine option"
  midi :: ptr
  bufferPtr :: ptr
  bufferSize :: nat
  ready :: bool
  playMode :: play_mode
  proc_sampleRate :: int
  proc_settings :: settings
  port :: "reply list"

definition SAMPLE_RATE :: int where "SAMPLE_RATE = 44100"
definition CHANNELS :: nat where "CHANNELS = 2"
definition BYTES_PER_SAMPLE :: nat where "BYTES_PER_SAMPLE = 2"

definition default_settings :: settings where
  "default_settings =
    \<lparr> numChips = Some 4, numFourOpChannels = Some (- 1), bank = Some 72,
      softPan = Some True, deepVibrato = Some False, deepTremolo = Some False \<rparr>"

text \<open>\<^verbatim>\<open>{...a, ...b}\<close> and \<^verbatim>\<open>Object.assign(a, b)\<close>: the properties of \<open>b\<close> win.\<close>

definition assign_settings :: "settings \<Rightarrow> settings \<Rightarrow> settings" where
  "assign_settings a b =
    \<lparr> numChips = (case numChips b of None \<Rightarrow> numChips a | Some v \<Rightarrow> Some v),
      numFourOpChannels = (case numFourOpChannels b of None \<Rightarrow> numFourOpChannels a | Some v \<Rightarrow> Some v),
      bank = (case bank b of None \<Rightarrow> bank a | Some v \<Rightarrow> Some v),
      softPan = (case softPan b of None \<Rightarrow> softPan a | Some v \<Rightarrow> Some v),
      deepVibrato = (case deepVibrato b of None \<Rightarrow> deepVibrato a | Some v \<Rightarrow> Some v),
      deepTremolo = (case deepTremolo b of None \<Rightarrow> deepTremolo a | Some v \<Rightarrow> Some v) \<rparr>"

text \<open>
  The constructor, up to the point where it starts \<^verbatim>\<open>initWasm\<close> and installs
  \<^verbatim>\<open>handleMessage\<close> on the port.
\<close>

definition AdlMidiProcessor :: "processor_options \<Rightarrow> 'e processor" where
  "AdlMidiProcessor options =
    \<lparr> adl = None, midi = 0, bufferPtr = 0, bufferSize = 0, ready = False,
      playMode = Realtime,
      proc_sampleRate = (case opt_sampleRate options of
                           None \<Rightarrow> SAMPLE_RATE
                         | Some r \<Rightarrow> if r = 0 then SAMPLE_RATE else r),
      proc_settings = (case opt_settings options of
                         None \<Rightarrow> default_settings
                       | Some s \<Rightarrow> assign_settings default_settings s),
      port = [] \<rparr>"

text \<open>The exports called so far, and what the engine answers to \<^verbatim>\<open>adl_atEnd\<close>.\<close>

definition history :: "'e processor \<Rightarrow> (export_call \<times> int) list" where
  "history p = (case adl p of None \<Rightarrow> [] | Some m \<Rightarrow> calls m)"

definition engine_at_end :: "'e module \<Rightarrow> ptr \<Rightarrow> 'e wasm \<Rightarrow> bool" where
  "engine_at_end M h w \<longleftrightarrow> fst (exports M (Playback (adl_atEnd h)) w) \<noteq> 0"

definition postMessage :: "reply \<Rightarrow> 'e processor \<Rightarrow> 'e processor" where
  "postMessage r p = p \<lparr> port := port p @ [r] \<rparr>"

text \<open>
  A call of an export through \<^verbatim>\<open>this.adl\<close>. Where \<^verbatim>\<open>this.adl\<close> is null the
  JavaScript raises a TypeError instead; the callers below test for that first.
\<close>

definition proc_invoke :: "'e module \<Rightarrow> export_call \<Rightarrow> 'e processor \<Rightarrow> int \<times> 'e processor" where
  "proc_invoke M x p =
    (case adl p of
       None \<Rightarrow> (0, p)
     | Some m \<Rightarrow> let (r, m') = invoke M x m in (r, p \<lparr> adl := Some m' \<rparr>))"

definition proc_invoke_double :: "'e module \<Rightarrow> export_call \<Rightarrow> 'e processor \<Rightarrow> rat \<times> 'e processor" where
  "proc_invoke_double M x p =
    (case adl p of
       None \<Rightarrow> (0, p)
     | Some m \<Rightarrow> let (r, m') = invoke_double M x m in (r, p \<lparr> adl := Some m' \<rparr>))"

definition proc_do :: "'e module \<Rightarrow> export_call \<Rightarrow> 'e processor \<Rightarrow> 'e processor" where
  "proc_do M x p = snd (proc_invoke M x p)"

definition bool_arg :: "bool \<Rightarrow> int" where
  "bool_arg b = (if b then 1 else 0)"

definition applySettings :: "'e module \<Rightarrow> settings \<Rightarrow> 'e processor \<Rightarrow> 'e processor" where
  "applySettings M s p =
    (if midi p = 0 then p
     else
      let p = (case numChips s of None \<Rightarrow> p | Some v \<Rightarrow> proc_do M (Config (adl_setNumChips (midi p) v)) p);
          p = (case numFourOpChannels s of None \<Rightarrow> p
               | Some v \<Rightarrow> proc_do M (Config (adl_setNumFourOpsChn (midi p) v)) p);
          p = (case bank s of None \<Rightarrow> p | Some v \<Rightarrow> proc_do M (Bank (adl_setBank (midi p) v)) p);
          p = (case softPan s of None \<Rightarrow> p
               | Some v \<Rightarrow> proc_do M (Config (adl_setSoftPanEnabled (midi p) (bool_arg v))) p);
          p = (case deepVibrato s of None \<Rightarrow> p
               | Some v \<Rightarrow> proc_do M (Config (adl_setHVibrato (midi p) (bool_arg v))) p);
          p = (case deepTremolo s of None \<Rightarrow> p
               | Some v \<Rightarrow> proc_do M (Config (adl_setHTremolo (midi p) (bool_arg v))) p)
      in p)"

text \<open>
  \<^verbatim>\<open>initWasm\<close>: \<open>created\<close> is the outcome of instantiating the module
  (\<^verbatim>\<open>await createADLMIDI(...)\<close>), a fresh memory and engine or an exception.
\<close>

definition initWasm :: "'e module \<Rightarrow> js_error + 'e wasm \<Rightarrow> 'e processor \<Rightarrow> 'e processor" where
  "initWasm M created p =
    (case created of
       Inl e \<Rightarrow> postMessage (ErrorMsg (error_message e)) p
     | Inr w \<Rightarrow>
        let p = p \<lparr> adl := Some \<lparr> wasm = w, calls = [] \<rparr> \<rparr>;
            (h, p) = proc_invoke M (Lifecycle (adl_init (proc_sampleRate p))) p;
            p = p \<lparr> midi := as_ptr h \<rparr>
        in if midi p = 0
           then postMessage (ErrorMsg ''Failed to initialize ADL MIDI player'') p
           else
            let p = applySettings M (proc_settings p) p;
                FRAMES = 128;
                p = p \<lparr> bufferSize := FRAMES * CHANNELS * BYTES_PER_SAMPLE \<rparr>;
                (b, p) = proc_invoke M (malloc (bufferSize p)) p;
                p = p \<lparr> bufferPtr := as_ptr b \<rparr>;
                p = p \<lparr> ready := True \<rparr>
            in postMessage Ready p)"

subsection \<open>Instrument access\<close>

record instrument_result =
  success :: bool
  result_instrument :: "instrument option"
  result_error :: "string option"

definition failure :: "string \<Rightarrow> instrument_result" where
  "failure e = \<lparr> success = False, result_instrument = None, result_error = Some e \<rparr>"

definition with_machine :: "('e machine \<Rightarrow> 'e machine) \<Rightarrow> 'e processor \<Rightarrow> 'e processor" where
  "with_machine f p = (case adl p of None \<Rightarrow> p | Some m \<Rightarrow> p \<lparr> adl := Some (f m) \<rparr>)"

definition proc_getInstrument ::
    "'e module \<Rightarrow> bank_id option \<Rightarrow> int \<Rightarrow> 'e processor \<Rightarrow> instrument_result \<times> 'e processor" where
  "proc_getInstrument M bankId programNumber p =
    (if adl p = None then (failure (error_message TypeError), p)
     else
      let (r, p) = proc_invoke M (malloc 4) p;
          bankIdPtr = as_ptr r
      in case bankId of
           None \<Rightarrow> (failure (error_message TypeError), p)
         | Some bid \<Rightarrow>
            let p = with_machine
                      (write_bank_id bankIdPtr (if is_truthy (percussive bid) then 1 else 0) bid) p;
                (r, p) = proc_invoke M (malloc SIZEOF_ADL_BANK) p;
                bankPtr = as_ptr r;
                (bankResult, p) = proc_invoke M (Bank (adl_getBank (midi p) bankIdPtr 1 bankPtr)) p
            in if bankResult \<noteq> 0 then
                 let p = proc_do M (free bankIdPtr) p;
                     p = proc_do M (free bankPtr) p
                 in (failure ''Failed to get bank'', p)
               else
                 let (r, p) = proc_invoke M (malloc SIZEOF_ADL_INSTRUMENT) p;
                     instPtr = as_ptr r;
                     (instResult, p) = proc_invoke M (Bank (adl_getInstrument (midi p) bankPtr programNumber instPtr)) p;
                     decoded = (if instResult = 0
                                then (case adl p of
                                        None \<Rightarrow> Inl TypeError
                                      | Some m \<Rightarrow> map_sum id Some
                                          (decodeInstrument
                                            (HEAPU8_slice m instPtr (instPtr + SIZEOF_ADL_INSTRUMENT))))
                                else Inr None)
                 in case decoded of
                      Inl e \<Rightarrow> (failure (error_message e), p)
                    | Inr instrument \<Rightarrow>
                       let p = proc_do M (free bankIdPtr) p;
                           p = proc_do M (free bankPtr) p;
                           p = proc_do M (free instPtr) p
                       in case instrument of
                            Some i \<Rightarrow> (\<lparr> success = True, result_instrument = Some i,
                                          result_error = None \<rparr>, p)
                          | None \<Rightarrow> (failure ''Failed to get instrument'', p))"

definition proc_setInstrument ::
    "'e module \<Rightarrow> bank_id option \<Rightarrow> int \<Rightarrow> instrument option \<Rightarrow> 'e processor
      \<Rightarrow> instrument_result \<times> 'e processor" where
  "proc_setInstrument M bankId programNumber inst p =
    (if adl p = None then (failure (error_message TypeError), p)
     else
      let (r, p) = proc_invoke M (malloc 4) p;
          bankIdPtr = as_ptr r
      in case bankId of
           None \<Rightarrow> (failure (error_message TypeError), p)
         | Some bid \<Rightarrow>
            let p = with_machine
                      (write_bank_id bankIdPtr (if is_truthy (percussive bid) then 1 else 0) bid) p;
                (r, p) = proc_invoke M (malloc SIZEOF_ADL_BANK) p;
                bankPtr = as_ptr r;
                (bankResult, p) = proc_invoke M (Bank (adl_getBank (midi p) bankIdPtr 1 bankPtr)) p
            in if bankResult \<noteq> 0 then
                 let p = proc_do M (free bankIdPtr) p;
                     p = proc_do M (free bankPtr) p
                 in (failure ''Failed to get/create bank'', p)
               else
                 let (r, p) = proc_invoke M (malloc SIZEOF_ADL_INSTRUMENT) p;
                     instPtr = as_ptr r
                 in case inst of
                      None \<Rightarrow> (failure (error_message TypeError), p)
                    | Some instrument \<Rightarrow>
                       (case adl p of
                          None \<Rightarrow> (failure (error_message TypeError), p)
                        | Some m \<Rightarrow>
                           (case HEAPU8_set (encodeInstrument instrument) instPtr m of
                              Inl e \<Rightarrow> (failure (error_message e), p)
                            | Inr m' \<Rightarrow>
                               let p = p \<lparr> adl := Some m' \<rparr>;
                                   (setResult, p) = proc_invoke M
                                      (Bank (adl_setInstrument (midi p) bankPtr programNumber instPtr)) p;
                                   p = (if setResult = 0 then proc_do M (Lifecycle (adl_reset (midi p))) p else p);
                                   p = proc_do M (free bankIdPtr) p;
                                   p = proc_do M (free bankPtr) p;
                                   p = proc_do M (free instPtr) p
                               in if setResult = 0
                                  then (\<lparr> success = True, result_instrument = None,
                                          result_error = None \<rparr>, p)
                                  else (failure ''Failed to set instrument'', p))))"

subsection \<open>Bank and MIDI loading\<close>

definition loadBank :: "'e module \<Rightarrow> byte list \<Rightarrow> 'e processor \<Rightarrow> 'e processor" where
  "loadBank M data p =
    (case adl p of
       None \<Rightarrow> postMessage (BankLoaded False (Some (error_message TypeError))) p
     | Some _ \<Rightarrow>
        let (r, p) = proc_invoke M (malloc (length data)) p;
            dataPtr = as_ptr r
        in case adl p of
             None \<Rightarrow> postMessage (BankLoaded False (Some (error_message TypeError))) p
           | Some m \<Rightarrow>
              (case HEAPU8_set data dataPtr m of
                 Inl e \<Rightarrow> postMessage (BankLoaded False (Some (error_message e))) p
               | Inr m' \<Rightarrow>
                  let p = p \<lparr> adl := Some m' \<rparr>;
                      (result, p) = proc_invoke M (Bank (adl_openBankData (midi p) dataPtr (length data))) p;
                      p = proc_do M (free dataPtr) p
                  in if result = 0 then postMessage (BankLoaded True None) p
                     else postMessage (BankLoaded False (Some ''Failed to load bank data'')) p))"

definition loadMidiData :: "'e module \<Rightarrow> byte list \<Rightarrow> 'e processor \<Rightarrow> 'e processor" where
  "loadMidiData M data p =
    (case adl p of
       None \<Rightarrow> postMessage (MidiLoaded False None (Some (error_message TypeError))) p
     | Some _ \<Rightarrow>
        let (r, p) = proc_invoke M (malloc (length data)) p;
            dataPtr = as_ptr r
        in case adl p of
             None \<Rightarrow> postMessage (MidiLoaded False None (Some (error_message TypeError))) p
           | Some m \<Rightarrow>
              (case HEAPU8_set data dataPtr m of
                 Inl e \<Rightarrow> postMessage (MidiLoaded False None (Some (error_message e))) p
               | Inr m' \<Rightarrow>
                  let p = p \<lparr> adl := Some m' \<rparr>;
                      (result, p) = proc_invoke M (Playback (adl_openData (midi p) dataPtr (length data))) p;
                      p = proc_do M (free dataPtr) p
                  in if result = 0 then
                       let (duration, p) = proc_invoke_double M (Playback (adl_totalTimeLength (midi p))) p
                       in postMessage (MidiLoaded True (Some duration) None) p
                     else postMessage (MidiLoaded False None (Some ''Failed to parse MIDI data'')) p))"

text \<open>Decimal digits of a number, for the template string \<^verbatim>\<open>`Bank ${i}`\<close>.\<close>

function string_of_nat :: "nat \<Rightarrow> string" where
  "string_of_nat n =
    (if n < 10 then [char_of (48 + n)]
     else string_of_nat (n div 10) @ [char_of (48 + n mod 10)])"
  by pat_completeness auto
termination
  by (relation "measure id") auto

definition string_at :: "'e machine \<Rightarrow> ptr \<Rightarrow> string \<Rightarrow> string" where
  "string_at m p fallback = (if p = 0 then fallback else UTF8ToString m p)"

definition getEmbeddedBankList :: "'e module \<Rightarrow> 'e processor \<Rightarrow> (nat \<times> string) list \<times> 'e processor" where
  "getEmbeddedBankList M p =
    (let (count, p) = proc_invoke M (Bank adl_getBanksCount) p;
         (r, p) = proc_invoke M (Bank adl_getBankNames) p;
         namesPtr = as_ptr r;
         banks = (case adl p of
                    None \<Rightarrow> []
                  | Some m \<Rightarrow>
                     map (\<lambda>i. let strPtr = (case getValue_i32 m (namesPtr + i * 4) of
                                              None \<Rightarrow> 0 | Some v \<Rightarrow> v)
                               in (i, if strPtr = 0 then ''Bank '' @ string_of_nat i
                                      else UTF8ToString m (as_ptr strPtr)))
                         [0 ..< nat count])
     in (banks, p))"

subsection \<open>handleMessage\<close>

text \<open>
  The \<^verbatim>\<open>switch\<close> of \<^verbatim>\<open>handleMessage\<close>, one equation per case, for a processor
  whose \<^verbatim>\<open>this.adl\<close> is set. A tag with no case falls through and does nothing.
\<close>

fun dispatch :: "'e module \<Rightarrow> msg \<Rightarrow> 'e processor \<Rightarrow> 'e processor" where
  "dispatch M Ping p = postMessage (Pong (ready p)) p"
| "dispatch M (NoteOn channel note velocity) p =
     proc_do M (Rt (adl_rt_noteOn (midi p) channel note velocity)) p"
| "dispatch M (NoteOff channel note) p =
     proc_do M (Rt (adl_rt_noteOff (midi p) channel note)) p"
| "dispatch M (PitchBend channel m l) p =
     proc_do M (Rt (adl_rt_pitchBendML (midi p) channel m l)) p"
| "dispatch M (ControlChange channel controller v) p =
     proc_do M (Rt (adl_rt_controllerChange (midi p) channel controller v)) p"
| "dispatch M (ProgramChange channel program) p =
     proc_do M (Rt (adl_rt_patchChange (midi p) channel program)) p"
| "dispatch M (NoteAfterTouch channel note pressure) p =
     proc_do M (Rt (adl_rt_noteAfterTouch (midi p) channel note pressure)) p"
| "dispatch M (ChannelAfterTouch channel pressure) p =
     proc_do M (Rt (adl_rt_channelAfterTouch (midi p) channel pressure)) p"
| "dispatch M (BankChange channel b) p =
     proc_do M (Rt (adl_rt_bankChange (midi p) channel b)) p"
| "dispatch M (BankChangeMSB channel m) p =
     proc_do M (Rt (adl_rt_bankChangeMSB (midi p) channel m)) p"
| "dispatch M (BankChangeLSB channel l) p =
     proc_do M (Rt (adl_rt_bankChangeLSB (midi p) channel l)) p"
| "dispatch M ResetState p = proc_do M (Lifecycle (adl_rt_resetState (midi p))) p"
| "dispatch M Panic p = proc_do M (Lifecycle (adl_panic (midi p))) p"
| "dispatch M (Configure s) p =
     (let p = p \<lparr> proc_settings := assign_settings (proc_settings p) s \<rparr>;
          p = applySettings M s p
      in postMessage Configured p)"
| "dispatch M (LoadBank data) p = loadBank M data p"
| "dispatch M (SetBank b) p =
     (let (result, p) = proc_invoke M (Bank (adl_setBank (midi p) b)) p
      in postMessage (BankSet (result = 0) b) p)"
| "dispatch M (GetInstrument bankId programNumber) p =
     (let (getResult, p) = proc_getInstrument M bankId programNumber p
      in postMessage (InstrumentLoaded (success getResult) (result_instrument getResult)
                        (result_error getResult)) p)"
| "dispatch M (SetInstrument bankId programNumber inst) p =
     (let (setResult, p) = proc_setInstrument M bankId programNumber inst p
      in postMessage (InstrumentSet (success setResult) (result_error setResult)) p)"
| "dispatch M (SetNumChips chips) p = proc_do M (Config (adl_setNumChips (midi p) chips)) p"
| "dispatch M (SetNumFourOpChannels channels) p =
     proc_do M (Config (adl_setNumFourOpsChn (midi p) channels)) p"
| "dispatch M GetNumFourOpChannels p =
     (let (n, p) = proc_invoke M (Config (adl_getNumFourOpsChn (midi p))) p
      in postMessage (NumFourOpChannels n) p)"
| "dispatch M (SetScaleModulators enabled) p =
     proc_do M (Config (adl_setScaleModulators (midi p) (bool_arg enabled))) p"
| "dispatch M (SetFullRangeBrightness enabled) p =
     proc_do M (Config (adl_setFullRangeBrightness (midi p) (bool_arg enabled))) p"
| "dispatch M (SetAutoArpeggio enabled) p =
     proc_do M (Config (adl_setAutoArpeggio (midi p) (bool_arg enabled))) p"
| "dispatch M GetAutoArpeggio p =
     (let (n, p) = proc_invoke M (Config (adl_getAutoArpeggio (midi p))) p
      in postMessage (AutoArpeggio (n \<noteq> 0)) p)"
| "dispatch M (SetChannelAllocMode mode) p =
     proc_do M (Config (adl_setChannelAllocMode (midi p) mode)) p"
| "dispatch M GetChannelAllocMode p =
     (let (n, p) = proc_invoke M (Config (adl_getChannelAllocMode (midi p))) p
      in postMessage (ChannelAllocMode n) p)"
| "dispatch M (SetVolumeModel model) p =
     proc_do M (Config (adl_setVolumeRangeModel (midi p) model)) p"
| "dispatch M (SetPercMode enabled) p =
     proc_do M (Config (adl_setPercMode (midi p) (bool_arg enabled))) p"
| "dispatch M (SetVibrato enabled) p =
     proc_do M (Config (adl_setHVibrato (midi p) (bool_arg enabled))) p"
| "dispatch M (SetTremolo enabled) p =
     proc_do M (Config (adl_setHTremolo (midi p) (bool_arg enabled))) p"
| "dispatch M (SetRunAtPcmRate enabled) p =
     proc_do M (Config (adl_setRunAtPcmRate (midi p) (bool_arg enabled))) p"
| "dispatch M (SwitchEmulator emulator) p =
     (let (result, p) = proc_invoke M (Config (adl_switchEmulator (midi p) emulator)) p
      in postMessage (EmulatorSwitched (result = 0) emulator) p)"
| "dispatch M GetEmulatorName p =
     (let (namePtr, p) = proc_invoke M (Config (adl_chipEmulatorName (midi p))) p;
          name = (case adl p of None \<Rightarrow> ''Unknown''
                  | Some m \<Rightarrow> string_at m (as_ptr namePtr) ''Unknown'')
      in postMessage (EmulatorName name) p)"
| "dispatch M GetLibraryVersion p =
     (let (r, p) = proc_invoke M (Config adl_linkedLibraryVersion) p;
          v = (case adl p of None \<Rightarrow> ''Unknown''
               | Some m \<Rightarrow> string_at m (as_ptr r) ''Unknown'')
      in postMessage (LibraryVersion v) p)"
| "dispatch M GetVersion p =
     (let (r, p) = proc_invoke M (Config adl_linkedVersion) p;
          a = as_ptr r;
          v = (case adl p of None \<Rightarrow> None
               | Some m \<Rightarrow>
                  if a = 0 then None
                  else Some (getValue_i16 m a, getValue_i16 m (a + 2), getValue_i16 m (a + 4)))
      in postMessage (Version v) p)"
| "dispatch M GetNumChips p =
     (let (n, p) = proc_invoke M (Config (adl_getNumChips (midi p))) p
      in postMessage (NumChips n) p)"
| "dispatch M GetNumChipsObtained p =
     (let (n, p) = proc_invoke M (Config (adl_getNumChipsObtained (midi p))) p
      in postMessage (NumChipsObtained n) p)"
| "dispatch M GetVolumeModel p =
     (let (n, p) = proc_invoke M (Config (adl_getVolumeRangeModel (midi p))) p
      in postMessage (VolumeModel n) p)"
| "dispatch M GetEmbeddedBanks p =
     (let (banks, p) = getEmbeddedBankList M p
      in postMessage (EmbeddedBanks banks) p)"
| "dispatch M (LoadMidi data) p = loadMidiData M data p"
| "dispatch M GetMusicTitle p =
     (let (r, p) = proc_invoke M (Playback (adl_metaMusicTitle (midi p))) p;
          title = (case adl p of None \<Rightarrow> []
                   | Some m \<Rightarrow> string_at m (as_ptr r) [])
      in postMessage (MusicTitle title) p)"
| "dispatch M GetMusicCopyright p =
     (let (r, p) = proc_invoke M (Playback (adl_metaMusicCopyright (midi p))) p;
          copyright = (case adl p of None \<Rightarrow> []
                       | Some m \<Rightarrow> string_at m (as_ptr r) [])
      in postMessage (MusicCopyright copyright) p)"
| "dispatch M Play p =
     (let (atEnd, p) = proc_invoke M (Playback (adl_atEnd (midi p))) p;
          p = (if atEnd \<noteq> 0 then proc_do M (Playback (adl_positionRewind (midi p))) p else p)
      in p \<lparr> playMode := File \<rparr>)"
| "dispatch M Stop p =
     (let p = p \<lparr> playMode := Realtime \<rparr>;
          p = proc_do M (Playback (adl_positionRewind (midi p))) p
      in proc_do M (Lifecycle (adl_panic (midi p))) p)"
| "dispatch M (Seek position) p =
     proc_do M (Playback (adl_positionSeek (midi p) position)) p"
| "dispatch M (SetLoop enabled) p =
     proc_do M (Playback (adl_setLoopEnabled (midi p) (bool_arg enabled))) p"
| "dispatch M (SetTempo tempo) p =
     proc_do M (Playback (adl_setTempo (midi p) tempo)) p"
| "dispatch M GetState p =
     (let (position, p) = proc_invoke_double M (Playback (adl_positionTell (midi p))) p;
          (duration, p) = proc_invoke_double M (Playback (adl_totalTimeLength (midi p))) p;
          (atEnd, p) = proc_invoke M (Playback (adl_atEnd (midi p))) p
      in postMessage (State position duration (atEnd \<noteq> 0) (playMode p)) p)"
| "dispatch M Reset p =
     (let p = proc_do M (Lifecycle (adl_reset (midi p))) p
      in p \<lparr> playMode := Realtime \<rparr>)"
| "dispatch M (Other tag) p = p"

text \<open>
  The cases whose first step does not go through \<^verbatim>\<open>this.adl\<close>, or that catch
  what it raises: on a processor whose \<^verbatim>\<open>this.adl\<close> is null every other case raises
  a TypeError at once, which leaves \<^verbatim>\<open>handleMessage\<close> with the state as it is
  (\<^verbatim>\<open>stop\<close> has set the mode by then; \<^verbatim>\<open>configure\<close> has merged the settings and
  posts its reply only when \<^verbatim>\<open>applySettings\<close> returns without calling the module:
  when the handle is 0 or when no setting is given).
\<close>

fun survives_null_adl :: "msg \<Rightarrow> bool" where
  "survives_null_adl Ping = True"
| "survives_null_adl (LoadBank _) = True"
| "survives_null_adl (GetInstrument _ _) = True"
| "survives_null_adl (SetInstrument _ _ _) = True"
| "survives_null_adl (LoadMidi _) = True"
| "survives_null_adl (Other _) = True"
| "survives_null_adl _ = False"

definition null_adl_case :: "msg \<Rightarrow> 'e processor \<Rightarrow> 'e processor" where
  "null_adl_case m p =
    (case m of
       Stop \<Rightarrow> p \<lparr> playMode := Realtime \<rparr>
     | Configure s \<Rightarrow>
        (let p = p \<lparr> proc_settings := assign_settings (proc_settings p) s \<rparr>
         in if midi p = 0 \<or>
               (numChips s = None \<and> numFourOpChannels s = None \<and> bank s = None \<and>
                softPan s = None \<and> deepVibrato s = None \<and> deepTremolo s = None)
            then postMessage Configured p else p)
     | _ \<Rightarrow> p)"

definition handleMessage :: "'e module \<Rightarrow> msg \<Rightarrow> 'e processor \<Rightarrow> 'e processor" where
  "handleMessage M m p =
    (if \<not> ready p \<and> m \<noteq> Ping then p
     else if adl p = None \<and> \<not> survives_null_adl m then null_adl_case m p
     else dispatch M m p)"

subsection \<open>process\<close>

text \<open>
  \<^verbatim>\<open>new Int16Array(buffer, byteOffset, length)\<close> raises a RangeError when the offset is
  odd or the view does not fit the buffer.
\<close>

definition Int16Array_view :: "byte list \<Rightarrow> nat \<Rightarrow> nat \<Rightarrow> js_error + 16 word list" where
  "Int16Array_view heap byteOffset n =
    (if odd byteOffset \<or> length heap < byteOffset + 2 * n then Inl RangeError
     else Inr (map (\<lambda>k. u16_at heap (byteOffset + 2 * k)) [0 ..< n]))"

definition to_float :: "16 word \<Rightarrow> f32" where
  "to_float w = F32 (of_int (sint w) / 32768)"

text \<open>
  The output of one render quantum: \<open>outputs\<close> is the list of outputs, each a list of
  channels. With a single channel \<^verbatim>\<open>right\<close> is the same array as \<^verbatim>\<open>left\<close>, so
  the right sample, written last, is what the channel holds. \<^verbatim>\<open>process\<close> always
  returns \<^verbatim>\<open>true\<close>; the model returns the outputs and the state.
\<close>

definition fill_output :: "16 word list \<Rightarrow> f32 list list \<Rightarrow> f32 list list" where
  "fill_output heap16 output =
    (let left = output ! 0;
         frames = length left
     in if 2 \<le> length output then
          let right = output ! 1;
              left' = map (\<lambda>i. to_float (heap16 ! (i * 2))) [0 ..< frames];
              right' = map (\<lambda>i. if i < frames then to_float (heap16 ! (i * 2 + 1)) else right ! i)
                           [0 ..< length right]
          in output [0 := left', 1 := right']
        else output [0 := map (\<lambda>i. to_float (heap16 ! (i * 2 + 1))) [0 ..< frames]])"

definition process ::
    "'e module \<Rightarrow> f32 list list list \<Rightarrow> 'e processor \<Rightarrow> f32 list list list \<times> 'e processor" where
  "process M outputs p =
    (if \<not> ready p \<or> midi p = 0 \<or> adl p = None then (outputs, p)
     else case outputs of
       [] \<Rightarrow> (outputs, p)
     | output # rest \<Rightarrow>
        if output = [] then (outputs, p)
        else
         let left = output ! 0;
             frames = length left;
             sampleCount = frames * 2;
             p = (if playMode p = File then
                    let p = proc_do M (Playback (adl_play (midi p) sampleCount (bufferPtr p))) p;
                        (atEnd, p) = proc_invoke M (Playback (adl_atEnd (midi p))) p
                    in if atEnd \<noteq> 0 then
                         let p = proc_do M (Lifecycle (adl_panic (midi p))) p;
                             p = p \<lparr> playMode := Realtime \<rparr>
                         in postMessage PlaybackEnded p
                       else p
                  else proc_do M (Playback (adl_generate (midi p) sampleCount (bufferPtr p))) p)
         in case adl p of
              None \<Rightarrow> (outputs, postMessage (ProcessingError (error_message TypeError)) p)
            | Some m \<Rightarrow>
               (case Int16Array_view (HEAPU8 (wasm m)) (bufferPtr p) sampleCount of
                  Inl e \<Rightarrow> (outputs, postMessage (ProcessingError (error_message e)) p)
                | Inr heap16 \<Rightarrow> (fill_output heap16 output # rest, p)))"

section \<open>AdlMidi: the control side of the channel\<close>

text \<open>
  A message from the processor, with the properties the control side reads:
  \<^verbatim>\<open>msg.type\<close> and, on an error, \<^verbatim>\<open>msg.message\<close>.
\<close>

record in_msg =
  mtype :: string
  message :: "string option"

text \<open>
  What a handler can do when it is called. The handlers of the class settle a promise,
  cancel a timer and set the ready flag; a handler that calls a request method of the
  class registers another one-shot handler and sends a message. A handler is a closure:
  it is represented by a value \<open>'h\<close>, and a parameter \<open>beh\<close> of the model gives the
  commands a handler runs on a message.
\<close>

datatype 'h command =
    ClearTimeout nat
  | SetReady
  | Resolve nat
  | Reject nat string
  | OnceMessage string 'h
  | Send msg

datatype outcome = Resolved | Rejected string

text \<open>
  The closure \<^verbatim>\<open>wrappedHandler\<close> made by one call of \<^verbatim>\<open>#onceMessage\<close>: its
  identity \<open>rid\<close> (every call makes a new function object) and the \<^verbatim>\<open>type\<close> and
  \<^verbatim>\<open>handler\<close> it captures.
\<close>

record 'h wrapped =
  rid :: nat
  wtype :: string
  whandler :: 'h

text \<open>
  \<^verbatim>\<open>#messageHandlers\<close> is a \<^verbatim>\<open>Map\<close> from type to a \<^verbatim>\<open>Set\<close> of functions. A
  \<^verbatim>\<open>Set\<close> keeps its entries in insertion order; \<^verbatim>\<open>delete\<close> empties the entry
  (\<open>None\<close>) and \<^verbatim>\<open>forEach\<close> walks the entries by index, so it skips what was deleted
  and visits what is added while it runs. \<open>invoked\<close> is the history of the handler
  calls, \<open>posted\<close> the messages sent to the processor.
\<close>

record 'h client =
  is_ready :: bool
  messageHandlers :: "string \<Rightarrow> 'h wrapped option list option"
  node :: bool
  next_closure :: nat
  timers :: "nat \<Rightarrow> (nat \<times> 'h command list) option"
  next_timer :: nat
  promises :: "nat \<Rightarrow> outcome option"
  next_promise :: nat
  posted :: "msg list"
  invoked :: "(nat \<times> in_msg) list"

definition new_AdlMidi :: "'h client" where
  "new_AdlMidi =
    \<lparr> is_ready = False, messageHandlers = (\<lambda>_. None), node = False, next_closure = 0,
      timers = (\<lambda>_. None), next_timer = 0, promises = (\<lambda>_. None), next_promise = 0,
      posted = [], invoked = [] \<rparr>"

definition entries :: "'h client \<Rightarrow> string \<Rightarrow> 'h wrapped option list" where
  "entries st t = (case messageHandlers st t of None \<Rightarrow> [] | Some es \<Rightarrow> es)"

definition onceMessage :: "string \<Rightarrow> 'h \<Rightarrow> 'h client \<Rightarrow> 'h client" where
  "onceMessage t handler st =
    (let st = (if messageHandlers st t = None
               then st \<lparr> messageHandlers := (messageHandlers st) (t \<mapsto> []) \<rparr> else st);
         wrappedHandler = \<lparr> rid = next_closure st, wtype = t, whandler = handler \<rparr>;
         st = st \<lparr> next_closure := next_closure st + 1 \<rparr>
     in case messageHandlers st t of
          None \<Rightarrow> st
        | Some es \<Rightarrow> st \<lparr> messageHandlers := (messageHandlers st) (t \<mapsto> es @ [Some wrappedHandler]) \<rparr>)"

definition send :: "msg \<Rightarrow> 'h client \<Rightarrow> 'h client" where
  "send m st = (if node st then st \<lparr> posted := posted st @ [m] \<rparr> else st)"

text \<open>Settling a promise that is already settled does nothing.\<close>

definition settle :: "nat \<Rightarrow> outcome \<Rightarrow> 'h client \<Rightarrow> 'h client" where
  "settle p out st =
    (case promises st p of
       None \<Rightarrow> st \<lparr> promises := (promises st) (p \<mapsto> out) \<rparr>
     | Some _ \<Rightarrow> st)"

definition clearTimeout :: "nat \<Rightarrow> 'h client \<Rightarrow> 'h client" where
  "clearTimeout t st = st \<lparr> timers := (timers st) (t := None) \<rparr>"

definition setTimeout :: "'h command list \<Rightarrow> nat \<Rightarrow> 'h client \<Rightarrow> nat \<times> 'h client" where
  "setTimeout callback delay st =
    (next_timer st,
     st \<lparr> timers := (timers st) (next_timer st \<mapsto> (delay, callback)),
          next_timer := next_timer st + 1 \<rparr>)"

fun run_commands :: "'h command list \<Rightarrow> 'h client \<Rightarrow> 'h client" where
  "run_commands [] st = st"
| "run_commands (ClearTimeout t # cs) st = run_commands cs (clearTimeout t st)"
| "run_commands (SetReady # cs) st = run_commands cs (st \<lparr> is_ready := True \<rparr>)"
| "run_commands (Resolve p # cs) st = run_commands cs (settle p Resolved st)"
| "run_commands (Reject p e # cs) st = run_commands cs (settle p (Rejected e) st)"
| "run_commands (OnceMessage t h # cs) st = run_commands cs (onceMessage t h st)"
| "run_commands (Send m # cs) st = run_commands cs (send m st)"

text \<open>\<^verbatim>\<open>set.delete(f)\<close>\<close>

definition delete_entry :: "nat \<Rightarrow> 'h wrapped option list \<Rightarrow> 'h wrapped option list" where
  "delete_entry r es =
     map (\<lambda>e. case e of None \<Rightarrow> None | Some w \<Rightarrow> if rid w = r then None else Some w) es"

text \<open>
  The call \<^verbatim>\<open>wrappedHandler(msg)\<close>: the closure first deletes itself from the set of
  its type, then calls the handler.
\<close>

definition call_wrapped ::
    "('h \<Rightarrow> in_msg \<Rightarrow> 'h command list) \<Rightarrow> 'h wrapped \<Rightarrow> in_msg \<Rightarrow> 'h client \<Rightarrow> 'h client" where
  "call_wrapped beh w m st =
    (let st = (case messageHandlers st (wtype w) of
                 None \<Rightarrow> st
               | Some es \<Rightarrow>
                   st \<lparr> messageHandlers := (messageHandlers st) (wtype w \<mapsto> delete_entry (rid w) es) \<rparr>);
         st = st \<lparr> invoked := invoked st @ [(rid w, m)] \<rparr>
     in run_commands (beh (whandler w) m) st)"

text \<open>
  \<^verbatim>\<open>handlers.forEach(handler => handler(msg))\<close> from entry \<open>i\<close> on. A handler that
  registers a handler of the same type each time it runs keeps the loop going for
  ever; \<open>fuel\<close> bounds the number of handler calls of one loop, and the result is
  \<open>None\<close> when it runs out.
\<close>

function forEach ::
    "('h \<Rightarrow> in_msg \<Rightarrow> 'h command list) \<Rightarrow> nat \<Rightarrow> nat \<Rightarrow> in_msg \<Rightarrow> 'h client \<Rightarrow> 'h client option" where
  "forEach beh fuel i m st =
    (if length (entries st (mtype m)) \<le> i then Some st
     else case entries st (mtype m) ! i of
            None \<Rightarrow> forEach beh fuel (i + 1) m st
          | Some w \<Rightarrow>
              (case fuel of
                 0 \<Rightarrow> None
               | Suc fuel' \<Rightarrow> forEach beh fuel' (i + 1) m (call_wrapped beh w m st)))"
  by pat_completeness auto
termination
  by (relation "measures [\<lambda>(beh, fuel, i, m, st). fuel,
                          \<lambda>(beh, fuel, i, m, st). length (entries st (mtype m)) - i]") auto

definition AdlMidi_handleMessage ::
    "('h \<Rightarrow> in_msg \<Rightarrow> 'h command list) \<Rightarrow> nat \<Rightarrow> in_msg \<Rightarrow> 'h client \<Rightarrow> 'h client option" where
  "AdlMidi_handleMessage beh fuel m st =
    (case messageHandlers st (mtype m) of
       None \<Rightarrow> Some st
     | Some handlers \<Rightarrow> forEach beh fuel 0 m st)"

text \<open>A timer that was not cleared fires once and runs its callback.\<close>

definition timer_fires :: "nat \<Rightarrow> 'h client \<Rightarrow> 'h client" where
  "timer_fires t st =
    (case timers st t of
       None \<Rightarrow> st
     | Some (delay, callback) \<Rightarrow> run_commands callback (clearTimeout t st))"

subsection \<open>The initialization handshake\<close>

text \<open>The two closures that \<^verbatim>\<open>init\<close> registers, with the timer and promise they capture.\<close>

datatype handler = InitReady nat nat | InitError nat nat

fun behaviour :: "handler \<Rightarrow> in_msg \<Rightarrow> handler command list" where
  "behaviour (InitReady timeout p) m = [ClearTimeout timeout, SetReady, Resolve p]"
| "behaviour (InitError timeout p) m =
     [ClearTimeout timeout, Reject p (case message m of None \<Rightarrow> [] | Some s \<Rightarrow> s)]"

text \<open>
  The last statement of \<^verbatim>\<open>init\<close>: the promise whose executor starts the timer and
  registers the two handlers. The result is the promise and the timer.
\<close>

definition init_handshake :: "handler client \<Rightarrow> (nat \<times> nat) \<times> handler client" where
  "init_handshake st =
    (let p = next_promise st;
         st = st \<lparr> next_promise := p + 1 \<rparr>;
         (timeout, st) = setTimeout [Reject p ''Timeout waiting for WASM initialization''] 10000 st;
         st = onceMessage ''ready'' (InitReady timeout p) st;
         st = onceMessage ''error'' (InitError timeout p) st
     in ((p, timeout), st))"

text \<open>What can happen to the control side after that: a message arrives or a timer fires.\<close>

datatype event = Deliver in_msg | TimerFires nat

fun step ::
    "('h \<Rightarrow> in_msg \<Rightarrow> 'h command list) \<Rightarrow> nat \<Rightarrow> event \<Rightarrow> 'h client \<Rightarrow> 'h client option" where
  "step beh fuel (Deliver m) st = AdlMidi_handleMessage beh fuel m st"
| "step beh fuel (TimerFires t) st = Some (timer_fires t st)"

fun run_events ::
    "('h \<Rightarrow> in_msg \<Rightarrow> 'h command list) \<Rightarrow> nat \<Rightarrow> event list \<Rightarrow> 'h client \<Rightarrow> 'h client option" where
  "run_events beh fuel [] st = Some st"
| "run_events beh fuel (e # es) st =
     (case step beh fuel e st of None \<Rightarrow> None | Some st' \<Rightarrow> run_events beh fuel es st')"

section \<open>Vocabulary of the properties\<close>

subsection \<open>Reading the call history\<close>

text \<open>
  The calls an operation has added to the history, and the statuses a given kind of
  call returned among them.
\<close>

definition since :: "'a list \<Rightarrow> 'a list \<Rightarrow> 'a list" where
  "since before after = drop (length before) after"

fun is_reset :: "export_call \<Rightarrow> bool" where
  "is_reset (Lifecycle (adl_reset h)) = True"
| "is_reset c = False"

fun is_getBank :: "export_call \<Rightarrow> bool" where
  "is_getBank (Bank (adl_getBank h i create b)) = True"
| "is_getBank c = False"

fun is_getInstrument :: "export_call \<Rightarrow> bool" where
  "is_getInstrument (Bank (adl_getInstrument h b n i)) = True"
| "is_getInstrument c = False"

fun is_setInstrument :: "export_call \<Rightarrow> bool" where
  "is_setInstrument (Bank (adl_setInstrument h b n i)) = True"
| "is_setInstrument c = False"

definition statuses :: "(export_call \<Rightarrow> bool) \<Rightarrow> (export_call \<times> int) list \<Rightarrow> int list" where
  "statuses P h = map snd (filter (\<lambda>x. P (fst x)) h)"

subsection \<open>What a render call of AdlMidiCore returns\<close>


subsection \<open>A small engine to run the classes on\<close>

text \<open>
  An engine whose only state is the end-of-stream flag: \<^verbatim>\<open>adl_play\<close> reaches the end of
  the song at once, a rewind leaves it, \<^verbatim>\<open>adl_init\<close> answers the handle 1 and
  \<^verbatim>\<open>malloc\<close> the address 16. Every other export answers 0.
\<close>

fun demo_exports :: "export_call \<Rightarrow> bool wasm \<Rightarrow> int \<times> bool wasm" where
  "demo_exports (malloc n) w = (16, w)"
| "demo_exports (Lifecycle (adl_init r)) w = (1, w)"
| "demo_exports (Playback (adl_atEnd h)) w = (if engine w then 1 else 0, w)"
| "demo_exports (Playback (adl_play h n b)) w = (0, w \<lparr> engine := True \<rparr>)"
| "demo_exports (Playback (adl_positionRewind h)) w = (0, w \<lparr> engine := False \<rparr>)"
| "demo_exports c w = (0, w)"

definition demo_module :: "bool module" where
  "demo_module = \<lparr> exports = demo_exports, exports_double = (\<lambda>c w. (0, w)) \<rparr>"

text \<open>The same module with the status of one kind of call replaced.\<close>

definition answering :: "(export_call \<Rightarrow> bool) \<Rightarrow> int \<Rightarrow> 'e module \<Rightarrow> 'e module" where
  "answering P r M =
     M \<lparr> exports := (\<lambda>c w. if P c then (r, snd (exports M c w)) else exports M c w) \<rparr>"

definition demo_machine :: "bool machine" where
  "demo_machine =
     \<lparr> wasm = \<lparr> HEAPU8 = [0x00, 0x40, 0x00, 0xC0, 0xFF, 0x7F, 0x00, 0x80] @ replicate 56 0,
                engine = False \<rparr>,
       calls = [] \<rparr>"

text \<open>A processor after a successful \<^verbatim>\<open>initWasm\<close>, and an initialized \<^verbatim>\<open>AdlMidiCore\<close>.\<close>

definition demo_processor :: "bool processor" where
  "demo_processor =
     \<lparr> adl = Some demo_machine, midi = 1, bufferPtr = 16, bufferSize = 512, ready = True,
       playMode = Realtime, proc_sampleRate = 44100, proc_settings = default_settings,
       port = [] \<rparr>"

definition demo_core :: "bool core" where
  "demo_core =
     \<lparr> module = demo_machine, player = 1, sampleRate = 44100, audioBuffer = None,
       audioBufferPtr = None \<rparr>"

definition demo_bank :: bank_id where
  "demo_bank = \<lparr> percussive = Some 0, msb = Some 0, lsb = Some 0 \<rparr>"

subsection \<open>The registry of one-shot handlers\<close>

text \<open>
  The closures registered for a type, those that \<^verbatim>\<open>forEach\<close> would still call.
\<close>

definition registered :: "'h client \<Rightarrow> string \<Rightarrow> 'h wrapped list" where
  "registered st t = List.map_filter (\<lambda>e. e) (entries st t)"

definition live :: "'h client \<Rightarrow> string \<Rightarrow> 'h wrapped \<Rightarrow> bool" where
  "live st t w \<longleftrightarrow> Some w \<in> set (entries st t)"

text \<open>
  What holds of the registry at every moment: a registered closure was made by an
  earlier \<^verbatim>\<open>#onceMessage\<close>, sits in the set of its own type and has not been called;
  a called closure was made earlier, and was called once.
\<close>

definition registry_ok :: "'h client \<Rightarrow> bool" where
  "registry_ok st \<longleftrightarrow>
     (\<forall>t w. live st t w \<longrightarrow>
        rid w < next_closure st \<and> wtype w = t \<and> rid w \<notin> fst ` set (invoked st)) \<and>
     (\<forall>t t' w w'. live st t w \<longrightarrow> live st t' w' \<longrightarrow> rid w = rid w' \<longrightarrow> t = t') \<and>
     (\<forall>r \<in> fst ` set (invoked st). r < next_closure st) \<and>
     distinct (map fst (invoked st))"

text \<open>The state in which the body of a handler starts: its closure is gone and the call is logged.\<close>

definition unregistered :: "'h wrapped \<Rightarrow> in_msg \<Rightarrow> 'h client \<Rightarrow> 'h client" where
  "unregistered w m st =
    (case messageHandlers st (wtype w) of
       None \<Rightarrow> st
     | Some es \<Rightarrow> st \<lparr> messageHandlers := (messageHandlers st) (wtype w \<mapsto> delete_entry (rid w) es) \<rparr>)
    \<lparr> invoked := invoked st @ [(rid w, m)] \<rparr>"

text \<open>
  What happens to the control side over time: a method of the class runs (it registers
  handlers and sends), a message arrives, or a timer fires.
\<close>

datatype 'h action = Method "'h command list" | Event event

fun act ::
    "('h \<Rightarrow> in_msg \<Rightarrow> 'h command list) \<Rightarrow> nat \<Rightarrow> 'h action \<Rightarrow> 'h client \<Rightarrow> 'h client option" where
  "act beh fuel (Method cs) st = Some (run_commands cs st)"
| "act beh fuel (Event e) st = step beh fuel e st"

fun run_actions ::
    "('h \<Rightarrow> in_msg \<Rightarrow> 'h command list) \<Rightarrow> nat \<Rightarrow> 'h action list \<Rightarrow> 'h client \<Rightarrow> 'h client option" where
  "run_actions beh fuel [] st = Some st"
| "run_actions beh fuel (a # as) st =
     (case act beh fuel a st of None \<Rightarrow> None | Some st' \<Rightarrow> run_actions beh fuel as st')"

text \<open>
  Two handlers to run the registry on: the first registers the second for the same type and
  sends a ping, the second does nothing.
\<close>

fun chain :: "bool \<Rightarrow> in_msg \<Rightarrow> bool command list" where
  "chain True m = [OnceMessage (mtype m) False, Send Ping]"
| "chain False m = []"

subsection \<open>The outcome of the handshake, as the specification words it\<close>

definition timeout_message :: string where
  "timeout_message = ''Timeout waiting for WASM initialization''"

text \<open>
  The outcome an event decides when it is the first of its kind: \<open>ready\<close> resolves,
  \<open>error\<close> rejects with the message, the timer of the handshake rejects with the
  timeout message; any other event decides nothing.
\<close>

fun decides :: "event \<Rightarrow> outcome option" where
  "decides (Deliver m) =
     (if mtype m = ''ready'' then Some Resolved
      else if mtype m = ''error''
      then Some (Rejected (case message m of None \<Rightarrow> [] | Some s \<Rightarrow> s))
      else None)"
| "decides (TimerFires t) = (if t = 0 then Some (Rejected timeout_message) else None)"

fun first_outcome :: "event list \<Rightarrow> outcome option" where
  "first_outcome [] = None"
| "first_outcome (e # es) = (case decides e of None \<Rightarrow> first_outcome es | Some out \<Rightarrow> Some out)"

definition ready_closure :: "handler wrapped" where
  "ready_closure = \<lparr> rid = 0, wtype = ''ready'', whandler = InitReady 0 0 \<rparr>"

definition error_closure :: "handler wrapped" where
  "error_closure = \<lparr> rid = 1, wtype = ''error'', whandler = InitError 0 0 \<rparr>"

text \<open>The states the control side goes through after the handshake has started.\<close>

definition handshake_ok :: "handler client \<Rightarrow> bool" where
  "handshake_ok st \<longleftrightarrow>
     (\<forall>t. t \<noteq> ''ready'' \<longrightarrow> t \<noteq> ''error'' \<longrightarrow> messageHandlers st t = None) \<and>
     (messageHandlers st ''ready'' = Some [Some ready_closure] \<or>
      messageHandlers st ''ready'' = Some [None]) \<and>
     (messageHandlers st ''error'' = Some [Some error_closure] \<or>
      messageHandlers st ''error'' = Some [None]) \<and>
     (\<forall>t. t \<noteq> 0 \<longrightarrow> timers st t = None) \<and>
     (timers st 0 = None \<or> timers st 0 = Some (10000, [Reject 0 timeout_message])) \<and>
     (promises st 0 = None \<longleftrightarrow> timers st 0 \<noteq> None) \<and>
     (promises st 0 = None \<longrightarrow>
        messageHandlers st ''ready'' = Some [Some ready_closure] \<and>
        messageHandlers st ''error'' = Some [Some error_closure]) \<and>
     (is_ready st \<longleftrightarrow> messageHandlers st ''ready'' = Some [None])"

section \<open>Bitwise operators on bytes\<close>

text \<open>
  The operators of JavaScript agree with the bit operations of \<open>int\<close> up to the
  truncation to 32 signed bits, which is the identity on anything that fits a byte.
\<close>

lemma js_and_eq: "js_and x y = signed_take_bit 31 (x AND y)"
  unfolding js_and_def by (auto simp add: bit_eq_iff bit_simps)

lemma js_or_eq: "js_or x y = signed_take_bit 31 (x OR y)"
  unfolding js_or_def by (auto simp add: bit_eq_iff bit_simps)

lemma js_shl_eq: "n < 32 \<Longrightarrow> js_shl x n = signed_take_bit 31 (push_bit n x)"
  unfolding js_shl_def by (auto simp add: bit_eq_iff bit_simps)

lemma js_sar_eq: "n < 32 \<Longrightarrow> js_sar x n = drop_bit n (signed_take_bit 31 x)"
  unfolding js_sar_def by (simp add: sint_signed_drop_bit_eq sint_sbintrunc')

lemma mask_numerals:
  "(0x0F::int) = mask 4" "(0x3F::int) = mask 6" "(0x03::int) = mask 2" "(0x07::int) = mask 3"
  by (simp_all add: mask_eq_exp_minus_1)

lemma signed_take_bit_byte: "signed_take_bit 31 (take_bit 8 (x::int)) = take_bit 8 x"
  by (simp add: signed_take_bit_take_bit)

lemma signed_take_bit_byte_self: "take_bit 8 z = z \<Longrightarrow> signed_take_bit 31 (z::int) = z"
  using signed_take_bit_byte [of z] by simp

lemma js_and_byte: "js_and (take_bit 8 x) y = take_bit 8 (x AND y)"
proof -
  have "take_bit 8 x AND y = take_bit 8 (x AND y)"
    by (rule bit_eqI) (auto simp add: bit_simps)
  then show ?thesis unfolding js_and_eq by (simp only: signed_take_bit_byte)
qed

lemma js_and_byte_mask:
  "js_and (take_bit 8 x) 0x0F = take_bit 4 x"
  "js_and (take_bit 8 x) 0x3F = take_bit 6 x"
  "js_and (take_bit 8 x) 0x07 = take_bit 3 x"
  "js_and (take_bit 8 x) 0x03 = take_bit 2 x"
  unfolding js_and_eq mask_numerals
  by (simp_all add: signed_take_bit_take_bit flip: take_bit_eq_mask)

lemma truthy_bit:
  assumes "k < 8"
  shows "truthy (js_and (take_bit 8 E) (2 ^ k)) \<longleftrightarrow> bit E k"
proof -
  have "take_bit 8 (E AND 2 ^ k) = push_bit k (of_bool (bit E k))"
    using assms by (intro bit_eqI) (auto simp add: bit_simps)
  then show ?thesis
    unfolding truthy_def js_and_byte by simp
qed

lemmas truthy_flag =
  truthy_bit [of 7, simplified] truthy_bit [of 6, simplified]
  truthy_bit [of 5, simplified] truthy_bit [of 4, simplified]
  truthy_bit [of 2, simplified] truthy_bit [of 1, simplified]
  truthy_bit [of 0, simplified]

lemma js_sar_byte_mask:
  "js_and (js_sar (take_bit 8 E) 4) 0x0F = take_bit 4 (drop_bit 4 E)"
  "js_and (js_sar (take_bit 8 E) 6) 0x03 = take_bit 2 (drop_bit 6 E)"
  "js_and (js_sar (take_bit 8 E) 3) 0x07 = take_bit 3 (drop_bit 3 E)"
  unfolding js_and_eq js_sar_eq [of 4, simplified] js_sar_eq [of 6, simplified]
    js_sar_eq [of 3, simplified]
    mask_numerals signed_take_bit_byte
  by (rule bit_eqI; auto simp add: bit_simps)+

lemma js_and_mask:
  "js_and f 0x0F = take_bit 4 f" "js_and f 0x3F = take_bit 6 f"
  "js_and f 0x03 = take_bit 2 f" "js_and f 0x07 = take_bit 3 f"
  unfolding js_and_eq mask_numerals
  by (simp_all add: signed_take_bit_take_bit flip: take_bit_eq_mask)

lemma flag_bit:
  "(if b then 0x80 else 0) = push_bit 7 (of_bool b :: int)"
  "(if b then 0x40 else 0) = push_bit 6 (of_bool b :: int)"
  "(if b then 0x20 else 0) = push_bit 5 (of_bool b :: int)"
  "(if b then 0x10 else 0) = push_bit 4 (of_bool b :: int)"
  by simp_all

lemma js_or_byte:
  assumes "take_bit 8 x = x" "take_bit 8 y = y"
  shows "js_or x y = x OR y" "take_bit 8 (x OR y) = x OR y"
proof -
  show t: "take_bit 8 (x OR y) = x OR y" using assms by (simp add: take_bit_or)
  show "js_or x y = x OR y" unfolding js_or_eq by (rule signed_take_bit_byte_self [OF t])
qed

lemma byte_parts:
  "take_bit 8 (push_bit 7 (of_bool b :: int)) = push_bit 7 (of_bool b)"
  "take_bit 8 (push_bit 6 (of_bool b :: int)) = push_bit 6 (of_bool b)"
  "take_bit 8 (push_bit 5 (of_bool b :: int)) = push_bit 5 (of_bool b)"
  "take_bit 8 (push_bit 4 (of_bool b :: int)) = push_bit 4 (of_bool b)"
  "take_bit 8 (take_bit 4 (f::int)) = take_bit 4 f"
  "take_bit 8 (take_bit 6 (f::int)) = take_bit 6 f"
  "take_bit 8 (take_bit 3 (f::int)) = take_bit 3 f"
  "take_bit 8 (push_bit 4 (take_bit 4 (f::int))) = push_bit 4 (take_bit 4 f)"
  "take_bit 8 (push_bit 6 (take_bit 2 (f::int))) = push_bit 6 (take_bit 2 f)"
  by (rule bit_eqI; auto simp add: bit_simps)+

lemma js_shl_field:
  "js_shl (take_bit 4 h) 4 = push_bit 4 (take_bit 4 h)"
  "js_shl (take_bit 2 h) 6 = push_bit 6 (take_bit 2 h)"
proof -
  show "js_shl (take_bit 4 h) 4 = push_bit 4 (take_bit 4 h)"
    unfolding js_shl_eq [of 4, simplified] by (rule signed_take_bit_byte_self [OF byte_parts(8)])
  show "js_shl (take_bit 2 h) 6 = push_bit 6 (take_bit 2 h)"
    unfolding js_shl_eq [of 6, simplified] by (rule signed_take_bit_byte_self [OF byte_parts(9)])
qed

lemma uint_byte_of_int: "uint (word_of_int x :: 8 word) = take_bit 8 x"
  by (simp add: uint_word_of_int_eq)

lemma uint_byte: "uint (b :: 8 word) = take_bit 8 (uint b)"
  using uint_word_of_int_eq [of "uint b", where 'a=8] by simp

lemma take_bit_byte:
  fixes E :: int
  shows "bit (take_bit 8 E) 7 = bit E 7" "bit (take_bit 8 E) 6 = bit E 6"
    "bit (take_bit 8 E) 5 = bit E 5" "bit (take_bit 8 E) 4 = bit E 4"
    "take_bit 4 (take_bit 8 E) = take_bit 4 E" "take_bit 6 (take_bit 8 E) = take_bit 6 E"
    "take_bit 3 (take_bit 8 E) = take_bit 3 E"
    "take_bit 4 (drop_bit 4 (take_bit 8 E)) = take_bit 4 (drop_bit 4 E)"
    "take_bit 2 (drop_bit 6 (take_bit 8 E)) = take_bit 2 (drop_bit 6 E)"
  by (simp_all add: bit_simps, (rule bit_eqI; auto simp add: bit_simps)+)

section \<open>Operator codec: the two functions on bits\<close>

lemma encodeOperator_bits:
  "encodeOperator op =
    [word_of_int ((((push_bit 7 (of_bool (am op)) OR push_bit 6 (of_bool (vibrato op)))
        OR push_bit 5 (of_bool (sustaining op))) OR push_bit 4 (of_bool (ksr op)))
        OR take_bit 4 (freqMult op)),
     word_of_int (push_bit 6 (take_bit 2 (keyScaleLevel op)) OR take_bit 6 (totalLevel op)),
     word_of_int (push_bit 4 (take_bit 4 (attack op)) OR take_bit 4 (decay op)),
     word_of_int (push_bit 4 (take_bit 4 (sustain op)) OR take_bit 4 (release op)),
     word_of_int (take_bit 3 (waveform op))]"
  by (simp only: encodeOperator_def Let_def flag_bit js_and_mask js_shl_field js_or_byte byte_parts
        Uint8Array_from_def list.map)

lemma decode_byte:
  fixes b :: "8 word"
  shows "truthy (js_and (uint b) 0x80) = bit (uint b) 7"
    and "truthy (js_and (uint b) 0x40) = bit (uint b) 6"
    and "truthy (js_and (uint b) 0x20) = bit (uint b) 5"
    and "truthy (js_and (uint b) 0x10) = bit (uint b) 4"
    and "js_and (uint b) 0x0F = take_bit 4 (uint b)"
    and "js_and (uint b) 0x3F = take_bit 6 (uint b)"
    and "js_and (uint b) 0x07 = take_bit 3 (uint b)"
    and "js_and (js_sar (uint b) 4) 0x0F = take_bit 4 (drop_bit 4 (uint b))"
    and "js_and (js_sar (uint b) 6) 0x03 = take_bit 2 (drop_bit 6 (uint b))"
  by (subst uint_byte, simp only: truthy_flag js_and_byte_mask js_sar_byte_mask)+

lemma decodeOperator_bits:
  "decodeOperator [b0, b1, b2, b3, b4] =
    \<lparr> am = bit (uint b0) 7, vibrato = bit (uint b0) 6, sustaining = bit (uint b0) 5,
      ksr = bit (uint b0) 4, freqMult = take_bit 4 (uint b0),
      keyScaleLevel = take_bit 2 (drop_bit 6 (uint b1)), totalLevel = take_bit 6 (uint b1),
      attack = take_bit 4 (drop_bit 4 (uint b2)), decay = take_bit 4 (uint b2),
      sustain = take_bit 4 (drop_bit 4 (uint b3)), release = take_bit 4 (uint b3),
      waveform = take_bit 3 (uint b4) \<rparr>"
  by (simp add: decodeOperator_def byte_at_def Let_def decode_byte)

lemma round_fields:
  fixes f h l k t w :: int
  shows "take_bit 4 ((((push_bit 7 (of_bool a) OR push_bit 6 (of_bool v)) OR push_bit 5 (of_bool s))
        OR push_bit 4 (of_bool c)) OR take_bit 4 f) = take_bit 4 f"
    and "take_bit 4 (drop_bit 4 (push_bit 4 (take_bit 4 h) OR take_bit 4 l)) = take_bit 4 h"
    and "take_bit 4 (push_bit 4 (take_bit 4 h) OR take_bit 4 l) = take_bit 4 l"
    and "take_bit 2 (drop_bit 6 (push_bit 6 (take_bit 2 k) OR take_bit 6 t)) = take_bit 2 k"
    and "take_bit 6 (push_bit 6 (take_bit 2 k) OR take_bit 6 t) = take_bit 6 t"
    and "take_bit 3 (take_bit 3 w) = take_bit 3 w"
  by (rule bit_eqI; auto simp add: bit_simps)+

lemma round_flags:
  fixes f :: int and a v s c :: bool
  defines "E \<equiv> (((push_bit 7 (of_bool a) OR push_bit 6 (of_bool v)) OR push_bit 5 (of_bool s))
        OR push_bit 4 (of_bool c)) OR take_bit 4 f"
  shows "bit E 7 = a" "bit E 6 = v" "bit E 5 = s" "bit E 4 = c"
  unfolding E_def by (simp_all add: bit_simps)

lemma decode_encode_operator_masked:
  "decodeOperator (encodeOperator op) =
     \<lparr> am = am op, vibrato = vibrato op, sustaining = sustaining op, ksr = ksr op,
       freqMult = take_bit 4 (freqMult op), keyScaleLevel = take_bit 2 (keyScaleLevel op),
       totalLevel = take_bit 6 (totalLevel op), attack = take_bit 4 (attack op),
       decay = take_bit 4 (decay op), sustain = take_bit 4 (sustain op),
       release = take_bit 4 (release op), waveform = take_bit 3 (waveform op) \<rparr>"
  unfolding encodeOperator_bits decodeOperator_bits uint_byte_of_int
  by (simp only: take_bit_byte round_fields round_flags)

lemma decode_encode_operator:
  assumes "operator_in_range op"
  shows "decodeOperator (encodeOperator op) = op"
proof -
  have "take_bit 4 (freqMult op) = freqMult op" "take_bit 2 (keyScaleLevel op) = keyScaleLevel op"
    "take_bit 6 (totalLevel op) = totalLevel op" "take_bit 4 (attack op) = attack op"
    "take_bit 4 (decay op) = decay op" "take_bit 4 (sustain op) = sustain op"
    "take_bit 4 (release op) = release op" "take_bit 3 (waveform op) = waveform op"
    using assms by (simp_all add: operator_in_range_def take_bit_int_eq_self)
  then show ?thesis
    by (simp add: decode_encode_operator_masked)
qed

lemma reassemble_avekf:
  fixes b :: "8 word"
  shows "word_of_int ((((push_bit 7 (of_bool (bit (uint b) 7)) OR push_bit 6 (of_bool (bit (uint b) 6)))
          OR push_bit 5 (of_bool (bit (uint b) 5))) OR push_bit 4 (of_bool (bit (uint b) 4)))
          OR take_bit 4 (uint b)) = b"
proof (rule bit_word_eqI)
  fix n assume "n < LENGTH(8)"
  then consider "n < 4" | "n = 4" | "n = 5" | "n = 6" | "n = 7"
    by fastforce
  then show "bit (word_of_int ((((push_bit 7 (of_bool (bit (uint b) 7)) OR push_bit 6 (of_bool (bit (uint b) 6)))
          OR push_bit 5 (of_bool (bit (uint b) 5))) OR push_bit 4 (of_bool (bit (uint b) 4)))
          OR take_bit 4 (uint b)) :: 8 word) n = bit b n"
    by cases (simp_all add: bit_simps)
qed

lemma reassemble_byte:
  fixes b :: "8 word"
  shows "word_of_int (push_bit 4 (take_bit 4 (drop_bit 4 (uint b))) OR take_bit 4 (uint b)) = b"
    and "word_of_int (push_bit 6 (take_bit 2 (drop_bit 6 (uint b))) OR take_bit 6 (uint b)) = b"
    and "word_of_int (take_bit 3 (uint b)) = b AND 0x07"
proof -
  show "word_of_int (push_bit 4 (take_bit 4 (drop_bit 4 (uint b))) OR take_bit 4 (uint b)) = b"
    by (rule bit_word_eqI) (auto simp add: bit_simps)
  show "word_of_int (push_bit 6 (take_bit 2 (drop_bit 6 (uint b))) OR take_bit 6 (uint b)) = b"
    by (rule bit_word_eqI) (auto simp add: bit_simps)
  have m: "(0x07 :: 8 word) = mask 3" by (simp add: mask_eq_exp_minus_1)
  have "word_of_int (take_bit 3 (uint b)) = b AND mask 3"
    by (rule bit_word_eqI) (auto simp add: bit_simps)
  then show "word_of_int (take_bit 3 (uint b)) = b AND 0x07"
    by (simp only: m)
qed

lemma five_bytes:
  assumes "length (b :: byte list) = 5"
  obtains b0 b1 b2 b3 b4 where "b = [b0, b1, b2, b3, b4]"
  using assms by (auto simp add: length_Suc_conv eval_nat_numeral)

lemma encode_decode_operator:
  assumes "length b = 5"
  shows "encodeOperator (decodeOperator b) = [b ! 0, b ! 1, b ! 2, b ! 3, b ! 4 AND 0x07]"
proof -
  from assms obtain b0 b1 b2 b3 b4 where b: "b = [b0, b1, b2, b3, b4]"
    by (rule five_bytes)
  show ?thesis
    unfolding b decodeOperator_bits encodeOperator_bits
    by (simp add: reassemble_avekf reassemble_byte)
qed

lemma take_bit_bounds:
  fixes x :: int
  shows "0 \<le> take_bit 4 x" "take_bit 4 x \<le> 15" "0 \<le> take_bit 2 x" "take_bit 2 x \<le> 3"
    "0 \<le> take_bit 6 x" "take_bit 6 x \<le> 63" "0 \<le> take_bit 3 x" "take_bit 3 x \<le> 7"
  using take_bit_int_less_exp [of 4 x] take_bit_int_less_exp [of 2 x]
    take_bit_int_less_exp [of 6 x] take_bit_int_less_exp [of 3 x]
  by simp_all

lemma decodeOperator_in_range:
  assumes "length b = 5"
  shows "operator_in_range (decodeOperator b)"
proof -
  from assms obtain b0 b1 b2 b3 b4 where b: "b = [b0, b1, b2, b3, b4]"
    by (rule five_bytes)
  show ?thesis
    unfolding b decodeOperator_bits operator_in_range_def
    by (simp add: take_bit_bounds)
qed

text \<open>
  C1. For every operator whose fields are in their documented ranges,
  \<open>decodeOperator (encodeOperator op) = op\<close>; for every 5-byte buffer \<open>b\<close>,
  \<open>decodeOperator b\<close> is in range and \<open>encodeOperator (decodeOperator b)\<close> gives the
  register bits back, the five unused high bits of the waveform byte masked off. The two
  functions are mutual inverses between in-range operators and masked register blocks.
\<close>

theorem operator_codec_mutual_inverse:
  assumes "operator_in_range op" and "length b = 5"
  shows "decodeOperator (encodeOperator op) = op \<and>
         operator_in_range (decodeOperator b) \<and>
         encodeOperator (decodeOperator b) = [b ! 0, b ! 1, b ! 2, b ! 3, b ! 4 AND 0x07]"
  using assms
  by (simp only: decode_encode_operator decodeOperator_in_range encode_decode_operator)

theorem operator_codec_mutual_inverse_witness:
  "operator_in_range defaultOperator \<and> length [0xFF, 0x3F, 0xF0, 0x0F, 0xFF :: byte] = 5 \<and>
   decodeOperator (encodeOperator defaultOperator) = defaultOperator \<and>
   operator_in_range (decodeOperator [0xFF, 0x3F, 0xF0, 0x0F, 0xFF]) \<and>
   encodeOperator (decodeOperator [0xFF, 0x3F, 0xF0, 0x0F, 0xFF]) = [0xFF, 0x3F, 0xF0, 0x0F, 0x07]"
proof -
  have h1: "operator_in_range defaultOperator"
    by (simp add: operator_in_range_def defaultOperator_def)
  have h2: "length [0xFF, 0x3F, 0xF0, 0x0F, 0xFF :: byte] = 5"
    by simp
  show ?thesis
    using operator_codec_mutual_inverse [OF h1 h2] h1 by simp
qed

section \<open>Instrument codec: layout and round trip\<close>

lemma length_encodeOperator [simp]: "length (encodeOperator op) = 5"
  by (simp add: encodeOperator_def Uint8Array_from_def Let_def)

lemma upt4: "[0..<4] = [0, 1, 2, 3]"
  by (simp add: upt_rec)

lemma encodeInstrument_layout:
  "encodeInstrument inst =
     bytes_of_u32 (word_of_int (or0 (version inst))) @
     bytes_of_u16 (word_of_int (or0 (noteOffset1 inst))) @
     bytes_of_u16 (word_of_int (or0 (noteOffset2 inst))) @
     [word_of_int (or0 (velocityOffset inst)), word_of_int (or0 (secondVoiceDetune inst)),
      word_of_int (or0 (percussionKey inst)), word_of_int (instrument_flags inst),
      word_of_int (js_or (js_shl (js_and (or0 (feedback1 inst)) 0x07) 1) (js_and (or0 (connection1 inst)) 0x01)),
      word_of_int (js_or (js_shl (js_and (or0 (feedback2 inst)) 0x07) 1) (js_and (or0 (connection2 inst)) 0x01))] @
     encodeOperator (operator_slot inst 0) @ encodeOperator (operator_slot inst 1) @
     encodeOperator (operator_slot inst 2) @ encodeOperator (operator_slot inst 3) @
     bytes_of_u16 (word_of_int (or0 (delayOnMs inst))) @
     bytes_of_u16 (word_of_int (or0 (delayOffMs inst))) @ [0, 0]"
  unfolding encodeInstrument_def instrument_flags_def Let_def upt4
  by (simp add: SIZEOF_ADL_INSTRUMENT_def OPERATOR_OFFSET_def SIZEOF_ADL_OPERATOR_def
      setInt32_def setInt16_def setUint16_def setInt8_def setUint8_def bytes_set_def
      bytes_of_u32_def bytes_of_u16_def numeral_2_eq_2)

lemma operator_slot_place:
  assumes "slot_missing inst i"
  shows "operator_slot (place_operator inst i defaultOperator) j = operator_slot inst j"
  using assms
  by (auto simp add: operator_slot_def place_operator_def slot_missing_def nth_append
      nth_list_update split: option.splits if_splits)

lemma fb_conn_round:
  assumes "0 \<le> f" "f \<le> 7" "0 \<le> c" "c \<le> 1"
  defines "B \<equiv> uint (word_of_int (js_or (js_shl (js_and f 0x07) 1) (js_and c 0x01)) :: 8 word)"
  shows "js_and (js_sar B 1) 0x07 = f" "js_and B 0x01 = c"
proof -
  have "f \<in> {0, 1, 2, 3, 4, 5, 6, 7}" "c \<in> {0, 1}" using assms by auto
  then show "js_and (js_sar B 1) 0x07 = f" "js_and B 0x01 = c"
    unfolding B_def by (auto simp add: js_and_def js_or_def js_shl_def js_sar_def)
qed

lemma flags_round:
  fixes a p b :: bool
  assumes "0 \<le> r" "r \<le> 7"
  defines "B \<equiv> uint (word_of_int (js_or (let flags = 0;
         flags = (if a then js_or flags 0x01 else flags);
         flags = (if p then js_or flags 0x02 else flags);
         flags = (if b then js_or flags 0x04 else flags) in flags) (js_shl (js_and r 0x07) 3)) :: 8 word)"
  shows "truthy (js_and B 0x01) = a" "truthy (js_and B 0x02) = p" "truthy (js_and B 0x04) = b"
    "js_and (js_sar B 3) 0x07 = r"
proof -
  have "r \<in> {0, 1, 2, 3, 4, 5, 6, 7}" using assms by auto
  then show "truthy (js_and B 0x01) = a" "truthy (js_and B 0x02) = p" "truthy (js_and B 0x04) = b"
    "js_and (js_sar B 3) 0x07 = r"
    unfolding B_def by (auto simp add: js_and_def js_or_def js_shl_def js_sar_def truthy_def Let_def)
qed

lemma decodeInstrument_layout:
  assumes "length hv = 4" "length hn1 = 2" "length hn2 = 2"
    and "length o0 = 5" "length o1 = 5" "length o2 = 5" "length o3 = 5"
    and "length d1 = 2" "length d2 = 2"
  shows "decodeInstrument (hv @ hn1 @ hn2 @ [h8, h9, h10, h11, h12, h13] @
           o0 @ o1 @ o2 @ o3 @ d1 @ d2 @ [z0, z1]) =
    Inr \<lparr> version = Some (getInt32 hv 0),
          noteOffset1 = Some (getInt16 hn1 0),
          noteOffset2 = Some (getInt16 hn2 0),
          velocityOffset = Some (sint h8),
          secondVoiceDetune = Some (sint h9),
          percussionKey = Some (uint h10),
          is4op = Some (truthy (js_and (uint h11) 0x01)),
          isPseudo4op = Some (truthy (js_and (uint h11) 0x02)),
          isBlank = Some (truthy (js_and (uint h11) 0x04)),
          rhythmMode = Some (js_and (js_sar (uint h11) 3) 0x07),
          feedback1 = Some (js_and (js_sar (uint h12) 1) 0x07),
          connection1 = Some (js_and (uint h12) 0x01),
          feedback2 = Some (js_and (js_sar (uint h13) 1) 0x07),
          connection2 = Some (js_and (uint h13) 0x01),
          operators = Some [Some (decodeOperator o0), Some (decodeOperator o1),
                            Some (decodeOperator o2), Some (decodeOperator o3)],
          delayOnMs = Some (getUint16 d1 0),
          delayOffMs = Some (getUint16 d2 0) \<rparr>"
  using assms
  by (simp add: decodeInstrument_def SIZEOF_ADL_INSTRUMENT_def OPERATOR_OFFSET_def
      SIZEOF_ADL_OPERATOR_def Let_def getInt32_def getInt16_def getUint16_def getInt8_def
      u32_at_def u16_at_def byte_at_def slice_def nth_append)

lemma u32_round: "u32_at (bytes_of_u32 w) 0 = w"
proof (rule bit_word_eqI)
  fix n assume "n < LENGTH(32)"
  then consider "n < 8" | "8 \<le> n" "n < 16" | "16 \<le> n" "n < 24" | "24 \<le> n" "n < 32"
    by fastforce
  then show "bit (u32_at (bytes_of_u32 w) 0) n = bit w n"
    unfolding u32_at_def bytes_of_u32_def
    by cases (auto simp add: bit_simps)
qed

lemma u16_round: "u16_at (bytes_of_u16 w) 0 = w"
  unfolding u16_at_def bytes_of_u16_def
  by (rule bit_word_eqI) (auto simp add: bit_simps)

lemma getInt32_round:
  assumes "- (2 ^ 31) \<le> v" "v \<le> 2 ^ 31 - 1"
  shows "getInt32 (bytes_of_u32 (word_of_int v)) 0 = v"
  using assms unfolding getInt32_def u32_round
  by (simp add: sint_sbintrunc' signed_take_bit_int_eq_self)

lemma getInt16_round:
  assumes "- (2 ^ 15) \<le> v" "v \<le> 2 ^ 15 - 1"
  shows "getInt16 (bytes_of_u16 (word_of_int v)) 0 = v"
  using assms unfolding getInt16_def u16_round
  by (simp add: sint_sbintrunc' signed_take_bit_int_eq_self)

lemma getUint16_round:
  assumes "0 \<le> v" "v \<le> 65535"
  shows "getUint16 (bytes_of_u16 (word_of_int v)) 0 = v"
  using assms unfolding getUint16_def u16_round
  by (simp add: uint_word_of_int_eq take_bit_int_eq_self)

lemma int8_round:
  assumes "- (2 ^ 7) \<le> v" "v \<le> 2 ^ 7 - 1"
  shows "sint (word_of_int v :: 8 word) = v"
  using assms by (simp add: sint_sbintrunc' signed_take_bit_int_eq_self)

lemma uint8_round:
  assumes "0 \<le> v" "v \<le> 255"
  shows "uint (word_of_int v :: 8 word) = v"
  using assms by (simp add: uint_word_of_int_eq take_bit_int_eq_self)

lemma le_bytes32:
  "bytes_of_u32 (word_of_int v) =
     [word_of_int v, word_of_int (v div 2 ^ 8), word_of_int (v div 2 ^ 16), word_of_int (v div 2 ^ 24)]"
  unfolding bytes_of_u32_def drop_bit_eq_div [symmetric]
  by (auto intro!: bit_word_eqI simp add: bit_simps)

lemma le_bytes16:
  "bytes_of_u16 (word_of_int v) = [word_of_int v, word_of_int (v div 2 ^ 8)]"
  unfolding bytes_of_u16_def drop_bit_eq_div [symmetric]
  by (auto intro!: bit_word_eqI simp add: bit_simps)

lemma length_bytes_of [simp]:
  "length (bytes_of_u32 w) = 4" "length (bytes_of_u16 v) = 2"
  by (simp_all add: bytes_of_u32_def bytes_of_u16_def)

lemma in_rangeE:
  assumes "in_range lo hi x"
  obtains v where "x = Some v" "lo \<le> v" "v \<le> hi"
  using assms by (auto simp add: in_range_def split: option.splits)

lemma operators_in_rangeE:
  assumes "operators_in_range x"
  obtains a b c d where "x = Some [Some a, Some b, Some c, Some d]"
    "operator_in_range a" "operator_in_range b" "operator_in_range c" "operator_in_range d"
proof -
  from assms obtain ops where x: "x = Some ops" and len: "length ops = 4"
    and all: "list_all (\<lambda>e. case e of None \<Rightarrow> False | Some op \<Rightarrow> operator_in_range op) ops"
    by (auto simp add: operators_in_range_def split: option.splits)
  from len obtain e0 e1 e2 e3 where ops: "ops = [e0, e1, e2, e3]"
    by (auto simp add: length_Suc_conv eval_nat_numeral)
  from all show ?thesis
    unfolding ops using x ops that by (auto split: option.splits)
qed

lemma or0_Some [simp]: "or0 (Some v) = v"
  by (simp add: or0_def)

lemma decode_encode_instrument:
  assumes "instrument_in_range inst"
  shows "decodeInstrument (encodeInstrument inst) = Inr inst"
proof -
  from assms obtain v where v: "version inst = Some v" "- (2 ^ 31) \<le> v" "v \<le> 2 ^ 31 - 1"
    unfolding instrument_in_range_def by (elim conjE in_rangeE)
  from assms obtain n1 where n1: "noteOffset1 inst = Some n1" "- (2 ^ 15) \<le> n1" "n1 \<le> 2 ^ 15 - 1"
    unfolding instrument_in_range_def by (elim conjE in_rangeE)
  from assms obtain n2 where n2: "noteOffset2 inst = Some n2" "- (2 ^ 15) \<le> n2" "n2 \<le> 2 ^ 15 - 1"
    unfolding instrument_in_range_def by (elim conjE in_rangeE)
  from assms obtain vo where vo: "velocityOffset inst = Some vo" "- (2 ^ 7) \<le> vo" "vo \<le> 2 ^ 7 - 1"
    unfolding instrument_in_range_def by (elim conjE in_rangeE)
  from assms obtain sd where sd: "secondVoiceDetune inst = Some sd" "- (2 ^ 7) \<le> sd" "sd \<le> 2 ^ 7 - 1"
    unfolding instrument_in_range_def by (elim conjE in_rangeE)
  from assms obtain pk where pk: "percussionKey inst = Some pk" "0 \<le> pk" "pk \<le> 255"
    unfolding instrument_in_range_def by (elim conjE in_rangeE)
  from assms obtain f4 fp fb where fl: "is4op inst = Some f4" "isPseudo4op inst = Some fp"
      "isBlank inst = Some fb"
    unfolding instrument_in_range_def by auto
  from assms obtain rm where rm: "rhythmMode inst = Some rm" "0 \<le> rm" "rm \<le> 7"
    unfolding instrument_in_range_def by (elim conjE in_rangeE)
  from assms obtain fb1 where fb1: "feedback1 inst = Some fb1" "0 \<le> fb1" "fb1 \<le> 7"
    unfolding instrument_in_range_def by (elim conjE in_rangeE)
  from assms obtain c1 where c1: "connection1 inst = Some c1" "0 \<le> c1" "c1 \<le> 1"
    unfolding instrument_in_range_def by (elim conjE in_rangeE)
  from assms obtain fb2 where fb2: "feedback2 inst = Some fb2" "0 \<le> fb2" "fb2 \<le> 7"
    unfolding instrument_in_range_def by (elim conjE in_rangeE)
  from assms obtain c2 where c2: "connection2 inst = Some c2" "0 \<le> c2" "c2 \<le> 1"
    unfolding instrument_in_range_def by (elim conjE in_rangeE)
  from assms obtain don where don: "delayOnMs inst = Some don" "0 \<le> don" "don \<le> 65535"
    unfolding instrument_in_range_def by (elim conjE in_rangeE)
  from assms obtain doff where doff: "delayOffMs inst = Some doff" "0 \<le> doff" "doff \<le> 65535"
    unfolding instrument_in_range_def by (elim conjE in_rangeE)
  from assms obtain a b c d where ops: "operators inst = Some [Some a, Some b, Some c, Some d]"
    "operator_in_range a" "operator_in_range b" "operator_in_range c" "operator_in_range d"
    unfolding instrument_in_range_def by (elim conjE operators_in_rangeE)
  have slots: "operator_slot inst 0 = a" "operator_slot inst 1 = b"
    "operator_slot inst 2 = c" "operator_slot inst 3 = d"
    by (simp_all add: operator_slot_def ops)
  have flags: "instrument_flags inst = js_or (let flags = 0;
         flags = (if f4 then js_or flags 0x01 else flags);
         flags = (if fp then js_or flags 0x02 else flags);
         flags = (if fb then js_or flags 0x04 else flags) in flags) (js_shl (js_and rm 0x07) 3)"
    by (simp add: instrument_flags_def fl rm is_set_def Let_def)
  note scalars = getInt32_round [OF v(2,3)] getInt16_round [OF n1(2,3)] getInt16_round [OF n2(2,3)]
    int8_round [OF vo(2,3)] int8_round [OF sd(2,3)] uint8_round [OF pk(2,3)]
    getUint16_round [OF don(2,3)] getUint16_round [OF doff(2,3)]
    flags_round [OF rm(2,3), of f4 fp fb]
    fb_conn_round [OF fb1(2,3) c1(2,3)] fb_conn_round [OF fb2(2,3) c2(2,3)]
    decode_encode_operator [OF ops(2)] decode_encode_operator [OF ops(3)]
    decode_encode_operator [OF ops(4)] decode_encode_operator [OF ops(5)]
  have "decodeInstrument (encodeInstrument inst) =
    Inr \<lparr> version = Some v, noteOffset1 = Some n1, noteOffset2 = Some n2,
          velocityOffset = Some vo, secondVoiceDetune = Some sd, percussionKey = Some pk,
          is4op = Some f4, isPseudo4op = Some fp, isBlank = Some fb, rhythmMode = Some rm,
          feedback1 = Some fb1, connection1 = Some c1, feedback2 = Some fb2, connection2 = Some c2,
          operators = Some [Some a, Some b, Some c, Some d],
          delayOnMs = Some don, delayOffMs = Some doff \<rparr>"
    unfolding encodeInstrument_layout
    by (subst decodeInstrument_layout)
       (simp_all only: length_bytes_of length_encodeOperator slots flags
          v(1) n1(1) n2(1) vo(1) sd(1) pk(1) rm(1) fb1(1) c1(1) fb2(1) c2(1) don(1) doff(1)
          or0_Some scalars)
  also have "\<dots> = Inr inst"
    by (simp add: v n1 n2 vo sd pk fl rm fb1 c1 fb2 c2 don doff ops)
  finally show ?thesis .
qed

lemma flags_value:
  fixes a p b :: bool
  assumes "0 \<le> r" "r \<le> 7"
  shows "js_or (let flags = 0;
         flags = (if a then js_or flags 0x01 else flags);
         flags = (if p then js_or flags 0x02 else flags);
         flags = (if b then js_or flags 0x04 else flags) in flags) (js_shl (js_and r 0x07) 3)
      = of_bool a + 2 * of_bool p + 4 * of_bool b + 8 * r"
proof -
  have "r \<in> {0, 1, 2, 3, 4, 5, 6, 7}" using assms by auto
  then show ?thesis
    by (auto simp add: js_and_def js_or_def js_shl_def Let_def)
qed

lemma fb_conn_value:
  assumes "0 \<le> f" "f \<le> 7" "0 \<le> c" "c \<le> 1"
  shows "js_or (js_shl (js_and f 0x07) 1) (js_and c 0x01) = 2 * f + c"
proof -
  have "f \<in> {0, 1, 2, 3, 4, 5, 6, 7}" "c \<in> {0, 1}" using assms by auto
  then show ?thesis
    by (auto simp add: js_and_def js_or_def js_shl_def)
qed

lemma length_encodeInstrument: "length (encodeInstrument inst) = 40"
  by (simp add: encodeInstrument_layout)

lemma encodeInstrument_slices:
  "slice (encodeInstrument inst) 0 14 =
     bytes_of_u32 (word_of_int (or0 (version inst))) @
     bytes_of_u16 (word_of_int (or0 (noteOffset1 inst))) @
     bytes_of_u16 (word_of_int (or0 (noteOffset2 inst))) @
     [word_of_int (or0 (velocityOffset inst)), word_of_int (or0 (secondVoiceDetune inst)),
      word_of_int (or0 (percussionKey inst)), word_of_int (instrument_flags inst),
      word_of_int (js_or (js_shl (js_and (or0 (feedback1 inst)) 0x07) 1) (js_and (or0 (connection1 inst)) 0x01)),
      word_of_int (js_or (js_shl (js_and (or0 (feedback2 inst)) 0x07) 1) (js_and (or0 (connection2 inst)) 0x01))]"
  "slice (encodeInstrument inst) 14 19 = encodeOperator (operator_slot inst 0)"
  "slice (encodeInstrument inst) 19 24 = encodeOperator (operator_slot inst 1)"
  "slice (encodeInstrument inst) 24 29 = encodeOperator (operator_slot inst 2)"
  "slice (encodeInstrument inst) 29 34 = encodeOperator (operator_slot inst 3)"
  "slice (encodeInstrument inst) 34 38 =
     bytes_of_u16 (word_of_int (or0 (delayOnMs inst))) @
     bytes_of_u16 (word_of_int (or0 (delayOffMs inst)))"
  "slice (encodeInstrument inst) 38 40 = [0, 0]"
  by (simp_all add: encodeInstrument_layout slice_def)

text \<open>
  C2. For every instrument whose properties are all present and in range (four in-range
  operators included), decoding the encoding gives the instrument back. The encoding has
  40 bytes: the scalar header at offsets 0 to 13 (version as four bytes, the note
  offsets as two bytes each, then velocity offset, detune, percussion key, flags and the
  two feedback/connection bytes), the four 5-byte operators at offsets 14 to 33, the
  two delays at offsets 34 and 36, and two zero bytes; every multi-byte field has its
  least significant byte first.
\<close>

theorem instrument_codec_round_trip:
  assumes "instrument_in_range inst"
  shows "decodeInstrument (encodeInstrument inst) = Inr inst \<and>
    length (encodeInstrument inst) = 40 \<and>
    slice (encodeInstrument inst) 0 14 =
      [word_of_int (or0 (version inst)), word_of_int (or0 (version inst) div 2 ^ 8),
       word_of_int (or0 (version inst) div 2 ^ 16), word_of_int (or0 (version inst) div 2 ^ 24),
       word_of_int (or0 (noteOffset1 inst)), word_of_int (or0 (noteOffset1 inst) div 2 ^ 8),
       word_of_int (or0 (noteOffset2 inst)), word_of_int (or0 (noteOffset2 inst) div 2 ^ 8),
       word_of_int (or0 (velocityOffset inst)), word_of_int (or0 (secondVoiceDetune inst)),
       word_of_int (or0 (percussionKey inst)),
       word_of_int (of_bool (is_set (is4op inst)) + 2 * of_bool (is_set (isPseudo4op inst)) +
                    4 * of_bool (is_set (isBlank inst)) + 8 * or0 (rhythmMode inst)),
       word_of_int (2 * or0 (feedback1 inst) + or0 (connection1 inst)),
       word_of_int (2 * or0 (feedback2 inst) + or0 (connection2 inst))] \<and>
    slice (encodeInstrument inst) 14 19 = encodeOperator (operator_slot inst 0) \<and>
    slice (encodeInstrument inst) 19 24 = encodeOperator (operator_slot inst 1) \<and>
    slice (encodeInstrument inst) 24 29 = encodeOperator (operator_slot inst 2) \<and>
    slice (encodeInstrument inst) 29 34 = encodeOperator (operator_slot inst 3) \<and>
    slice (encodeInstrument inst) 34 38 =
      [word_of_int (or0 (delayOnMs inst)), word_of_int (or0 (delayOnMs inst) div 2 ^ 8),
       word_of_int (or0 (delayOffMs inst)), word_of_int (or0 (delayOffMs inst) div 2 ^ 8)] \<and>
    slice (encodeInstrument inst) 38 40 = [0, 0]"
proof -
  from assms obtain rm where rm: "rhythmMode inst = Some rm" "0 \<le> rm" "rm \<le> 7"
    unfolding instrument_in_range_def by (elim conjE in_rangeE)
  from assms obtain fb1 where fb1: "feedback1 inst = Some fb1" "0 \<le> fb1" "fb1 \<le> 7"
    unfolding instrument_in_range_def by (elim conjE in_rangeE)
  from assms obtain c1 where c1: "connection1 inst = Some c1" "0 \<le> c1" "c1 \<le> 1"
    unfolding instrument_in_range_def by (elim conjE in_rangeE)
  from assms obtain fb2 where fb2: "feedback2 inst = Some fb2" "0 \<le> fb2" "fb2 \<le> 7"
    unfolding instrument_in_range_def by (elim conjE in_rangeE)
  from assms obtain c2 where c2: "connection2 inst = Some c2" "0 \<le> c2" "c2 \<le> 1"
    unfolding instrument_in_range_def by (elim conjE in_rangeE)
  have flags: "instrument_flags inst =
      of_bool (is_set (is4op inst)) + 2 * of_bool (is_set (isPseudo4op inst)) +
      4 * of_bool (is_set (isBlank inst)) + 8 * or0 (rhythmMode inst)"
    using flags_value [OF rm(2,3), of "is_set (is4op inst)" "is_set (isPseudo4op inst)"
        "is_set (isBlank inst)"]
    by (simp add: instrument_flags_def rm(1) Let_def)
  have fbc: "js_or (js_shl (js_and (or0 (feedback1 inst)) 0x07) 1) (js_and (or0 (connection1 inst)) 0x01)
        = 2 * or0 (feedback1 inst) + or0 (connection1 inst)"
      "js_or (js_shl (js_and (or0 (feedback2 inst)) 0x07) 1) (js_and (or0 (connection2 inst)) 0x01)
        = 2 * or0 (feedback2 inst) + or0 (connection2 inst)"
    unfolding fb1(1) c1(1) fb2(1) c2(1) or0_Some
    by (rule fb_conn_value [OF fb1(2,3) c1(2,3)], rule fb_conn_value [OF fb2(2,3) c2(2,3)])
  have header: "slice (encodeInstrument inst) 0 14 =
      [word_of_int (or0 (version inst)), word_of_int (or0 (version inst) div 2 ^ 8),
       word_of_int (or0 (version inst) div 2 ^ 16), word_of_int (or0 (version inst) div 2 ^ 24),
       word_of_int (or0 (noteOffset1 inst)), word_of_int (or0 (noteOffset1 inst) div 2 ^ 8),
       word_of_int (or0 (noteOffset2 inst)), word_of_int (or0 (noteOffset2 inst) div 2 ^ 8),
       word_of_int (or0 (velocityOffset inst)), word_of_int (or0 (secondVoiceDetune inst)),
       word_of_int (or0 (percussionKey inst)),
       word_of_int (of_bool (is_set (is4op inst)) + 2 * of_bool (is_set (isPseudo4op inst)) +
                    4 * of_bool (is_set (isBlank inst)) + 8 * or0 (rhythmMode inst)),
       word_of_int (2 * or0 (feedback1 inst) + or0 (connection1 inst)),
       word_of_int (2 * or0 (feedback2 inst) + or0 (connection2 inst))]"
    unfolding encodeInstrument_slices(1) le_bytes32 le_bytes16 flags fbc by simp
  have delays: "slice (encodeInstrument inst) 34 38 =
      [word_of_int (or0 (delayOnMs inst)), word_of_int (or0 (delayOnMs inst) div 2 ^ 8),
       word_of_int (or0 (delayOffMs inst)), word_of_int (or0 (delayOffMs inst) div 2 ^ 8)]"
    unfolding encodeInstrument_slices(6) le_bytes16 by simp
  show ?thesis
    using decode_encode_instrument [OF assms] length_encodeInstrument [of inst] header delays
      encodeInstrument_slices(2,3,4,5,7) [of inst]
    by (intro conjI)
qed

theorem instrument_codec_round_trip_witness:
  "instrument_in_range defaultInstrument \<and>
   decodeInstrument (encodeInstrument defaultInstrument) = Inr defaultInstrument \<and>
   length (encodeInstrument defaultInstrument) = 40"
proof -
  have h: "instrument_in_range defaultInstrument"
    by (simp add: instrument_in_range_def defaultInstrument_def in_range_def
        operators_in_range_def operator_in_range_def defaultOperator_def)
  show ?thesis
    using instrument_codec_round_trip [OF h] h by simp
qed

lemma slot_missing_default:
  assumes "slot_missing inst i"
  shows "operator_slot inst i = defaultOperator"
  using assms
  by (auto simp add: operator_slot_def slot_missing_def split: option.splits if_splits)

lemma place_operator_scalars:
  "version (place_operator inst i op) = version inst"
  "noteOffset1 (place_operator inst i op) = noteOffset1 inst"
  "noteOffset2 (place_operator inst i op) = noteOffset2 inst"
  "velocityOffset (place_operator inst i op) = velocityOffset inst"
  "secondVoiceDetune (place_operator inst i op) = secondVoiceDetune inst"
  "percussionKey (place_operator inst i op) = percussionKey inst"
  "instrument_flags (place_operator inst i op) = instrument_flags inst"
  "feedback1 (place_operator inst i op) = feedback1 inst"
  "connection1 (place_operator inst i op) = connection1 inst"
  "feedback2 (place_operator inst i op) = feedback2 inst"
  "connection2 (place_operator inst i op) = connection2 inst"
  "delayOnMs (place_operator inst i op) = delayOnMs inst"
  "delayOffMs (place_operator inst i op) = delayOffMs inst"
  by (simp_all add: place_operator_def instrument_flags_def)

lemma slice_append:
  assumes "a \<le> b" "b \<le> c"
  shows "slice xs a c = slice xs a b @ slice xs b c"
proof -
  have "take (c - a) (drop a xs) = take ((b - a) + (c - b)) (drop a xs)"
    using assms by simp
  also have "\<dots> = take (b - a) (drop a xs) @ take (c - b) (drop (b - a) (drop a xs))"
    by (rule take_add)
  also have "drop (b - a) (drop a xs) = drop b xs"
    using assms by simp
  finally show ?thesis by (simp add: slice_def)
qed

lemma operator_slot_present:
  assumes "operators inst = Some ops" "j < length ops" "ops ! j = Some op"
  shows "operator_slot inst j = op"
  using assms by (simp add: operator_slot_def)

lemma operator_slice:
  assumes "j \<le> 3"
  shows "slice (encodeInstrument inst) (OPERATOR_OFFSET + j * SIZEOF_ADL_OPERATOR)
      (OPERATOR_OFFSET + (j + 1) * SIZEOF_ADL_OPERATOR) = encodeOperator (operator_slot inst j)"
proof -
  from assms consider "j = 0" | "j = 1" | "j = 2" | "j = 3"
    by fastforce
  then show ?thesis
    by cases (simp_all add: OPERATOR_OFFSET_def SIZEOF_ADL_OPERATOR_def encodeInstrument_slices)
qed

lemma scalar_slices_without_operators:
  "slice (encodeInstrument (inst \<lparr> operators := ops' \<rparr>)) 0 OPERATOR_OFFSET =
     slice (encodeInstrument inst) 0 OPERATOR_OFFSET"
  "slice (encodeInstrument (inst \<lparr> operators := ops' \<rparr>)) 34 40 =
     slice (encodeInstrument inst) 34 40"
  by (simp_all add: encodeInstrument_layout slice_def OPERATOR_OFFSET_def instrument_flags_def)

text \<open>
  C9. When slot \<open>i\<close> (\<open>0 \<le> i \<le> 3\<close>) of the operators array is missing,
  \<^verbatim>\<open>encodeInstrument\<close> gives the same 40 bytes as for the instrument with
  \<^verbatim>\<open>defaultOperator()\<close> placed in slot \<open>i\<close>. The five bytes of slot \<open>i\<close> are the
  encoding of the default operator; the five bytes of every other slot that holds an
  operator are the encoding of that operator; the scalar bytes before and after the
  operator block are those of the scalar fields, whatever the operators array is. The
  default operator is silent: total level 63, sustain 0, release 15.
\<close>

theorem missing_operator_encodes_as_default:
  assumes "i \<le> 3" and "slot_missing inst i"
  shows "encodeInstrument inst = encodeInstrument (place_operator inst i defaultOperator) \<and>
    length (encodeInstrument inst) = 40 \<and>
    slice (encodeInstrument inst) (OPERATOR_OFFSET + i * SIZEOF_ADL_OPERATOR)
      (OPERATOR_OFFSET + (i + 1) * SIZEOF_ADL_OPERATOR) = encodeOperator defaultOperator \<and>
    (\<forall>j ops op. j \<le> 3 \<longrightarrow> operators inst = Some ops \<longrightarrow> j < length ops \<longrightarrow> ops ! j = Some op \<longrightarrow>
       slice (encodeInstrument inst) (OPERATOR_OFFSET + j * SIZEOF_ADL_OPERATOR)
         (OPERATOR_OFFSET + (j + 1) * SIZEOF_ADL_OPERATOR) = encodeOperator op) \<and>
    (\<forall>ops'. slice (encodeInstrument (inst \<lparr> operators := ops' \<rparr>)) 0 OPERATOR_OFFSET =
              slice (encodeInstrument inst) 0 OPERATOR_OFFSET \<and>
            slice (encodeInstrument (inst \<lparr> operators := ops' \<rparr>)) 34 40 =
              slice (encodeInstrument inst) 34 40) \<and>
    encodeOperator defaultOperator = [0x21, 0x3F, 0xF0, 0x0F, 0x00] \<and>
    totalLevel defaultOperator = 63 \<and> sustain defaultOperator = 0 \<and>
    release defaultOperator = 15"
proof -
  have same: "encodeInstrument inst = encodeInstrument (place_operator inst i defaultOperator)"
    unfolding encodeInstrument_layout place_operator_scalars operator_slot_place [OF assms(2)] ..
  have slot: "slice (encodeInstrument inst) (OPERATOR_OFFSET + i * SIZEOF_ADL_OPERATOR)
      (OPERATOR_OFFSET + (i + 1) * SIZEOF_ADL_OPERATOR) = encodeOperator defaultOperator"
    using operator_slice [OF assms(1), of inst] by (simp add: slot_missing_default [OF assms(2)])
  have others: "\<forall>j ops op. j \<le> 3 \<longrightarrow> operators inst = Some ops \<longrightarrow> j < length ops \<longrightarrow>
       ops ! j = Some op \<longrightarrow>
       slice (encodeInstrument inst) (OPERATOR_OFFSET + j * SIZEOF_ADL_OPERATOR)
         (OPERATOR_OFFSET + (j + 1) * SIZEOF_ADL_OPERATOR) = encodeOperator op"
    by (intro allI impI) (simp only: operator_slice operator_slot_present)
  have scalars: "\<forall>ops'. slice (encodeInstrument (inst \<lparr> operators := ops' \<rparr>)) 0 OPERATOR_OFFSET =
              slice (encodeInstrument inst) 0 OPERATOR_OFFSET \<and>
            slice (encodeInstrument (inst \<lparr> operators := ops' \<rparr>)) 34 40 =
              slice (encodeInstrument inst) 34 40"
    by (intro allI conjI) (rule scalar_slices_without_operators)+
  have bytes: "encodeOperator defaultOperator = [0x21, 0x3F, 0xF0, 0x0F, 0x00]"
    by (simp add: encodeOperator_bits defaultOperator_def)
  have silent: "totalLevel defaultOperator = 63 \<and> sustain defaultOperator = 0 \<and>
    release defaultOperator = 15"
    by (simp add: defaultOperator_def)
  show ?thesis
    by (intro conjI same length_encodeInstrument slot others scalars bytes
        silent [THEN conjunct1] silent [THEN conjunct2, THEN conjunct1]
        silent [THEN conjunct2, THEN conjunct2])
qed

theorem missing_operator_encodes_as_default_witness:
  "(2 :: nat) \<le> 3 \<and>
   slot_missing (defaultInstrument \<lparr> operators :=
      Some [Some (defaultOperator \<lparr> totalLevel := 10 \<rparr>),
            Some (defaultOperator \<lparr> waveform := 3 \<rparr>), None,
            Some (defaultOperator \<lparr> freqMult := 2 \<rparr>)] \<rparr>) 2 \<and>
   slice (encodeInstrument (defaultInstrument \<lparr> operators :=
      Some [Some (defaultOperator \<lparr> totalLevel := 10 \<rparr>),
            Some (defaultOperator \<lparr> waveform := 3 \<rparr>), None,
            Some (defaultOperator \<lparr> freqMult := 2 \<rparr>)] \<rparr>)) 14 34 =
     [0x21, 0x0A, 0xF0, 0x0F, 0x00,  0x21, 0x3F, 0xF0, 0x0F, 0x03,
      0x21, 0x3F, 0xF0, 0x0F, 0x00,  0x22, 0x3F, 0xF0, 0x0F, 0x00] \<and>
   encodeInstrument (defaultInstrument \<lparr> operators :=
      Some [Some (defaultOperator \<lparr> totalLevel := 10 \<rparr>),
            Some (defaultOperator \<lparr> waveform := 3 \<rparr>), None,
            Some (defaultOperator \<lparr> freqMult := 2 \<rparr>)] \<rparr>) =
     encodeInstrument (defaultInstrument \<lparr> operators :=
      Some [Some (defaultOperator \<lparr> totalLevel := 10 \<rparr>),
            Some (defaultOperator \<lparr> waveform := 3 \<rparr>), Some defaultOperator,
            Some (defaultOperator \<lparr> freqMult := 2 \<rparr>)] \<rparr>)"
proof -
  let ?ops = "[Some (defaultOperator \<lparr> totalLevel := 10 \<rparr>),
               Some (defaultOperator \<lparr> waveform := 3 \<rparr>), None,
               Some (defaultOperator \<lparr> freqMult := 2 \<rparr>)]"
  let ?inst = "defaultInstrument \<lparr> operators := Some ?ops \<rparr>"
  have h1: "(2 :: nat) \<le> 3" by simp
  have h2: "slot_missing ?inst 2"
    by (simp add: slot_missing_def)
  note t = missing_operator_encodes_as_default [OF h1 h2]
  have placed: "place_operator ?inst 2 defaultOperator =
      defaultInstrument \<lparr> operators :=
        Some [Some (defaultOperator \<lparr> totalLevel := 10 \<rparr>),
              Some (defaultOperator \<lparr> waveform := 3 \<rparr>), Some defaultOperator,
              Some (defaultOperator \<lparr> freqMult := 2 \<rparr>)] \<rparr>"
    by (simp add: place_operator_def)
  have ops: "operators ?inst = Some ?ops" by simp
  note same = t [THEN conjunct1]
  note len = t [THEN conjunct2, THEN conjunct1]
  note slot = t [THEN conjunct2, THEN conjunct2, THEN conjunct1]
  note others = t [THEN conjunct2, THEN conjunct2, THEN conjunct2, THEN conjunct1, rule_format]
  note bytes = t [THEN conjunct2, THEN conjunct2, THEN conjunct2, THEN conjunct2,
      THEN conjunct2, THEN conjunct1]
  have s2: "slice (encodeInstrument ?inst) 24 29 = [0x21, 0x3F, 0xF0, 0x0F, 0x00]"
    using slot bytes by (simp add: OPERATOR_OFFSET_def SIZEOF_ADL_OPERATOR_def)
  have s0: "slice (encodeInstrument ?inst) 14 19 = [0x21, 0x0A, 0xF0, 0x0F, 0x00]"
    using others [of 0 ?ops "defaultOperator \<lparr> totalLevel := 10 \<rparr>"]
    by (simp add: OPERATOR_OFFSET_def SIZEOF_ADL_OPERATOR_def encodeOperator_bits
        defaultOperator_def)
  have s1: "slice (encodeInstrument ?inst) 19 24 = [0x21, 0x3F, 0xF0, 0x0F, 0x03]"
    using others [of 1 ?ops "defaultOperator \<lparr> waveform := 3 \<rparr>"]
    by (simp add: OPERATOR_OFFSET_def SIZEOF_ADL_OPERATOR_def encodeOperator_bits
        defaultOperator_def)
  have s3: "slice (encodeInstrument ?inst) 29 34 = [0x22, 0x3F, 0xF0, 0x0F, 0x00]"
    using others [of 3 ?ops "defaultOperator \<lparr> freqMult := 2 \<rparr>"]
    by (simp add: OPERATOR_OFFSET_def SIZEOF_ADL_OPERATOR_def encodeOperator_bits
        defaultOperator_def)
  have cat: "slice (encodeInstrument ?inst) 14 34 =
      slice (encodeInstrument ?inst) 14 19 @ slice (encodeInstrument ?inst) 19 24 @
      slice (encodeInstrument ?inst) 24 29 @ slice (encodeInstrument ?inst) 29 34"
    by (simp add: slice_append [of 14 19 34] slice_append [of 19 24 34]
        slice_append [of 24 29 34])
  show ?thesis
    using h2 same cat s0 s1 s2 s3 by (simp add: placed)
qed

section \<open>The processor\<close>

subsection \<open>Messages before the ready notification\<close>

lemma handleMessage_not_ready:
  assumes "\<not> ready p"
  shows "handleMessage M m p = (if m = Ping then p \<lparr> port := port p @ [Pong False] \<rparr> else p)"
  using assms by (simp add: handleMessage_def postMessage_def)

lemma not_ready_fold:
  assumes "\<not> ready p"
  shows "foldl (\<lambda>p m. handleMessage M m p) p ms =
           p \<lparr> port := port p @ replicate (count_list ms Ping) (Pong False) \<rparr>"
  using assms
proof (induction ms arbitrary: p)
  case Nil
  then show ?case by simp
next
  case (Cons m ms)
  show ?case
  proof (cases "m = Ping")
    case True
    have nr: "\<not> ready (p \<lparr> port := port p @ [Pong False] \<rparr>)" using Cons.prems by simp
    show ?thesis
      using Cons.IH [OF nr] Cons.prems True
      by (simp add: handleMessage_not_ready replicate_app_Cons_same)
  next
    case False
    then show ?thesis
      using Cons.IH [OF Cons.prems] Cons.prems
      by (simp add: handleMessage_not_ready)
  qed
qed

text \<open>
  C10. While the ready flag of the processor is not set, \<^verbatim>\<open>handleMessage\<close> returns
  the processor as it is on every message but \<open>ping\<close>: engine, settings, playback
  mode and port are those of before. A \<open>ping\<close> is answered by a \<open>pong\<close> that carries
  the ready flag, in every state. So any sequence of messages sent before the ready
  notification leaves the processor as it was, but for one \<open>pong\<close> with the flag
  false on the port for each \<open>ping\<close>.
\<close>

theorem messages_before_ready_are_ignored:
  assumes "\<not> ready p"
  shows "(m \<noteq> Ping \<longrightarrow> handleMessage M m p = p) \<and>
         handleMessage M Ping q = q \<lparr> port := port q @ [Pong (ready q)] \<rparr> \<and>
         foldl (\<lambda>p m. handleMessage M m p) p ms =
           p \<lparr> port := port p @ replicate (count_list ms Ping) (Pong False) \<rparr>"
  using assms not_ready_fold [OF assms, of M ms]
  by (simp add: handleMessage_def postMessage_def)

theorem messages_before_ready_are_ignored_witness:
  "\<not> ready (demo_processor \<lparr> ready := False \<rparr>) \<and> Play \<noteq> Ping \<and>
   handleMessage demo_module Play (demo_processor \<lparr> ready := False \<rparr>) =
     demo_processor \<lparr> ready := False \<rparr> \<and>
   handleMessage demo_module Ping demo_processor =
     demo_processor \<lparr> port := [Pong True] \<rparr> \<and>
   foldl (\<lambda>p m. handleMessage demo_module m p) (demo_processor \<lparr> ready := False \<rparr>)
       [Play, Ping, Reset, Ping] =
     demo_processor \<lparr> ready := False, port := [Pong False, Pong False] \<rparr>"
proof -
  have r: "ready demo_processor" and e: "port demo_processor = []"
    by (simp_all add: demo_processor_def)
  have h: "\<not> ready (demo_processor \<lparr> ready := False \<rparr>)"
    by simp
  show ?thesis
    using messages_before_ready_are_ignored
      [OF h, of Play demo_module demo_processor "[Play, Ping, Reset, Ping]"]
    by (auto simp add: r e numeral_2_eq_2)
qed

subsection \<open>The playback mode\<close>

lemma proc_invoke_Some:
  assumes "adl p = Some m"
  shows "proc_invoke M c p =
    (fst (exports M c (wasm m)),
     p \<lparr> adl := Some \<lparr> wasm = snd (exports M c (wasm m)),
                         calls = calls m @ [(c, fst (exports M c (wasm m)))] \<rparr> \<rparr>)"
  using assms by (simp add: proc_invoke_def invoke_def case_prod_unfold Let_def)

lemma proc_invoke_double_Some:
  assumes "adl p = Some m"
  shows "proc_invoke_double M c p =
    (fst (exports_double M c (wasm m)),
     p \<lparr> adl := Some \<lparr> wasm = snd (exports_double M c (wasm m)),
                         calls = calls m @ [(c, 0)] \<rparr> \<rparr>)"
  using assms by (simp add: proc_invoke_double_def invoke_double_def case_prod_unfold Let_def)

lemma playMode_proc_invoke [simp]:
  "playMode (snd (proc_invoke M c p)) = playMode p"
  by (simp add: proc_invoke_def case_prod_unfold Let_def split: option.splits)

lemma playMode_proc_invoke_double [simp]:
  "playMode (snd (proc_invoke_double M c p)) = playMode p"
  by (simp add: proc_invoke_double_def case_prod_unfold Let_def split: option.splits)

lemma playMode_proc_do [simp]: "playMode (proc_do M c p) = playMode p"
  by (simp add: proc_do_def)

lemma playMode_postMessage [simp]: "playMode (postMessage r p) = playMode p"
  by (simp add: postMessage_def)

lemma playMode_with_machine [simp]: "playMode (with_machine f p) = playMode p"
  by (simp add: with_machine_def split: option.splits)

lemma playMode_applySettings [simp]: "playMode (applySettings M s p) = playMode p"
  by (simp add: applySettings_def Let_def split: option.splits)

lemma playMode_loadBank [simp]: "playMode (loadBank M d p) = playMode p"
  by (simp add: loadBank_def Let_def case_prod_unfold split: option.splits sum.splits)

lemma playMode_loadMidiData [simp]: "playMode (loadMidiData M d p) = playMode p"
  by (simp add: loadMidiData_def Let_def case_prod_unfold split: option.splits sum.splits)

lemma playMode_getEmbeddedBankList [simp]:
  "playMode (snd (getEmbeddedBankList M p)) = playMode p"
  by (simp add: getEmbeddedBankList_def Let_def case_prod_unfold)

lemma playMode_proc_getInstrument [simp]:
  "playMode (snd (proc_getInstrument M b n p)) = playMode p"
  by (simp add: proc_getInstrument_def Let_def case_prod_unfold split: option.splits sum.splits)

lemma playMode_proc_setInstrument [simp]:
  "playMode (snd (proc_setInstrument M b n i p)) = playMode p"
  by (simp add: proc_setInstrument_def Let_def case_prod_unfold split: option.splits sum.splits)

lemma playMode_dispatch:
  "playMode (dispatch M m p) =
     (if m = Play then File else if m = Stop \<or> m = Reset then Realtime else playMode p)"
  by (cases m) (simp_all add: Let_def case_prod_unfold)

lemma playMode_handleMessage:
  assumes "ready p"
  shows "playMode (handleMessage M m p) =
     (if m = Play \<and> adl p \<noteq> None then File
      else if m = Stop \<or> (m = Reset \<and> adl p \<noteq> None) then Realtime else playMode p)"
proof (cases "adl p = None \<and> \<not> survives_null_adl m")
  case True
  then show ?thesis
    using assms by (cases m) (simp_all add: handleMessage_def null_adl_case_def Let_def)
next
  case False
  with assms have "handleMessage M m p = dispatch M m p"
    by (auto simp add: handleMessage_def)
  with False show ?thesis
    by (cases m) (simp_all add: playMode_dispatch del: dispatch.simps)
qed

lemma proc_do_Some:
  assumes "adl p = Some m"
  shows "proc_do M c p =
     p \<lparr> adl := Some \<lparr> wasm = snd (exports M c (wasm m)),
                         calls = calls m @ [(c, fst (exports M c (wasm m)))] \<rparr> \<rparr>"
  using assms by (simp add: proc_do_def proc_invoke_Some)

lemma play_transition:
  assumes "ready p" "adl p = Some m"
  shows "playMode (handleMessage M Play p) = File"
    and "map fst (history (handleMessage M Play p)) =
           map fst (calls m) @ Playback (adl_atEnd (midi p)) #
             (if engine_at_end M (midi p) (wasm m)
              then [Playback (adl_positionRewind (midi p))] else [])"
  using assms
  by (simp_all add: handleMessage_def Let_def proc_invoke_Some proc_do_Some history_def
      engine_at_end_def)

lemma stop_transition:
  assumes "ready p" "adl p = Some m"
  shows "playMode (handleMessage M Stop p) = Realtime"
    and "map fst (history (handleMessage M Stop p)) =
           map fst (calls m) @
             [Playback (adl_positionRewind (midi p)), Lifecycle (adl_panic (midi p))]"
  using assms
  by (simp_all add: handleMessage_def Let_def proc_do_Some history_def)

lemma reset_transition:
  assumes "ready p" "adl p = Some m"
  shows "playMode (handleMessage M Reset p) = Realtime"
    and "map fst (history (handleMessage M Reset p)) =
           map fst (calls m) @ [Lifecycle (adl_reset (midi p))]"
  using assms
  by (simp_all add: handleMessage_def Let_def proc_do_Some history_def)

lemma count_postMessage:
  "count_list (port (postMessage r p)) x = count_list (port p) x + (if r = x then 1 else 0)"
  by (simp add: postMessage_def)

lemma process_file:
  fixes M :: "'e module" and p :: "'e processor" and rest :: "f32 list list list"
  assumes "ready p" "adl p = Some m" "midi p \<noteq> 0" "output \<noteq> []" "playMode p = File"
  defines "w1 \<equiv> snd (exports M (Playback (adl_play (midi p) (length (output ! 0) * 2) (bufferPtr p))) (wasm m))"
  defines "p' \<equiv> snd (process M (output # rest) p)"
  shows "engine_at_end M (midi p) w1 \<Longrightarrow>
           playMode p' = Realtime \<and>
           count_list (port p') PlaybackEnded = count_list (port p) PlaybackEnded + 1 \<and>
           map fst (history p') = map fst (calls m) @
             [Playback (adl_play (midi p) (length (output ! 0) * 2) (bufferPtr p)),
              Playback (adl_atEnd (midi p)), Lifecycle (adl_panic (midi p))]"
    and "\<not> engine_at_end M (midi p) w1 \<Longrightarrow>
           playMode p' = File \<and>
           count_list (port p') PlaybackEnded = count_list (port p) PlaybackEnded \<and>
           map fst (history p') = map fst (calls m) @
             [Playback (adl_play (midi p) (length (output ! 0) * 2) (bufferPtr p)),
              Playback (adl_atEnd (midi p))]"
  using assms(1-5) unfolding w1_def p'_def
  by (simp_all add: process_def Let_def proc_invoke_Some proc_do_Some history_def
      engine_at_end_def postMessage_def split: sum.splits)

lemma process_realtime:
  fixes M :: "'e module" and p :: "'e processor" and rest :: "f32 list list list"
  assumes "ready p" "adl p = Some m" "midi p \<noteq> 0" "output \<noteq> []" "playMode p = Realtime"
  defines "p' \<equiv> snd (process M (output # rest) p)"
  shows "playMode p' = Realtime"
    and "count_list (port p') PlaybackEnded = count_list (port p) PlaybackEnded"
    and "map fst (history p') = map fst (calls m) @
             [Playback (adl_generate (midi p) (length (output ! 0) * 2) (bufferPtr p))]"
  using assms(1-5) unfolding p'_def
  by (simp_all add: process_def Let_def proc_invoke_Some proc_do_Some history_def
      postMessage_def split: sum.splits)

lemma process_skips:
  assumes "\<not> ready p \<or> midi p = 0 \<or> adl p = None \<or> outputs = [] \<or> hd outputs = []"
  shows "process M outputs p = (outputs, p)"
  using assms by (auto simp add: process_def split: list.splits)

lemma playMode_initWasm: "playMode (initWasm M created p) = playMode p"
  by (simp add: initWasm_def Let_def case_prod_unfold split: sum.splits)

lemma playMode_constructor: "playMode (AdlMidiProcessor options) = Realtime"
  by (simp add: AdlMidiProcessor_def)

text \<open>
  C3. The playback mode of the processor is \<open>realtime\<close> or \<open>file\<close>, and \<open>realtime\<close>
  when the processor is constructed. On a processor that has completed its
  initialization (the ready flag is set and the engine is loaded):
  a \<open>play\<close> message asks the engine whether it is at the end, rewinds it exactly when
  it is, and sets the mode to \<open>file\<close>;
  a \<open>stop\<close> message sets the mode to \<open>realtime\<close> and calls rewind and panic, whatever
  the mode was;
  a \<open>reset\<close> message calls the full reset and sets the mode to \<open>realtime\<close>;
  a render call in \<open>file\<close> mode calls \<^verbatim>\<open>adl_play\<close> and, when the engine then reports
  the end of the stream, calls panic, sets the mode to \<open>realtime\<close> and posts one
  \<open>playbackEnded\<close>; otherwise, and in \<open>realtime\<close> mode, a render call keeps the mode
  and posts no \<open>playbackEnded\<close>;
  no other message changes the mode, and neither does \<^verbatim>\<open>initWasm\<close>.
  Before the ready flag is set, every message and every render call leaves the mode
  as it is: every message but \<open>ping\<close> and every render call leave the whole processor
  as it is, and a \<open>ping\<close> only posts a \<open>pong\<close>. This is where the code differs from a
  machine in which \<open>play\<close> moves every state to \<open>file\<close>.
\<close>

theorem playback_mode_state_machine:
  fixes M :: "'e module" and p q :: "'e processor" and channels :: "f32 list list"
    and rest :: "f32 list list list"
  assumes "ready p" and "adl p = Some m"
  defines "played \<equiv> Playback (adl_play (midi p) (length (channels ! 0) * 2) (bufferPtr p))"
  defines "p' \<equiv> snd (process M (channels # rest) p)"
  shows "(playMode (AdlMidiProcessor options :: 'e processor) = Realtime) \<and>
         (playMode (initWasm M created q) = playMode q) \<and>
         (playMode (handleMessage M Play p) = File) \<and>
         (map fst (history (handleMessage M Play p)) =
           map fst (calls m) @ Playback (adl_atEnd (midi p)) #
             (if engine_at_end M (midi p) (wasm m)
              then [Playback (adl_positionRewind (midi p))] else [])) \<and>
         (playMode (handleMessage M Stop p) = Realtime) \<and>
         (map fst (history (handleMessage M Stop p)) =
           map fst (calls m) @
             [Playback (adl_positionRewind (midi p)), Lifecycle (adl_panic (midi p))]) \<and>
         (playMode (handleMessage M Reset p) = Realtime) \<and>
         (map fst (history (handleMessage M Reset p)) =
           map fst (calls m) @ [Lifecycle (adl_reset (midi p))]) \<and>
         (msg \<noteq> Play \<and> msg \<noteq> Stop \<and> msg \<noteq> Reset \<longrightarrow>
           playMode (handleMessage M msg p) = playMode p) \<and>
         (midi p \<noteq> 0 \<and> channels \<noteq> [] \<and> playMode p = File \<and>
         engine_at_end M (midi p) (snd (exports M played (wasm m))) \<longrightarrow>
           playMode p' = Realtime \<and>
           count_list (port p') PlaybackEnded = count_list (port p) PlaybackEnded + 1 \<and>
           map fst (history p') = map fst (calls m) @
             [played, Playback (adl_atEnd (midi p)), Lifecycle (adl_panic (midi p))]) \<and>
         (midi p \<noteq> 0 \<and> channels \<noteq> [] \<and> playMode p = File \<and>
         \<not> engine_at_end M (midi p) (snd (exports M played (wasm m))) \<longrightarrow>
           playMode p' = File \<and>
           count_list (port p') PlaybackEnded = count_list (port p) PlaybackEnded \<and>
           map fst (history p') = map fst (calls m) @ [played, Playback (adl_atEnd (midi p))]) \<and>
         (midi p \<noteq> 0 \<and> channels \<noteq> [] \<and> playMode p = Realtime \<longrightarrow>
           playMode p' = Realtime \<and>
           count_list (port p') PlaybackEnded = count_list (port p) PlaybackEnded) \<and>
         (midi p = 0 \<or> outputs = [] \<or> hd outputs = [] \<longrightarrow> process M outputs p = (outputs, p)) \<and>
         (\<not> ready q \<longrightarrow>
           (msg \<noteq> Ping \<longrightarrow> handleMessage M msg q = q) \<and>
           handleMessage M Ping q = q \<lparr> port := port q @ [Pong False] \<rparr> \<and>
           playMode (handleMessage M msg q) = playMode q \<and>
           process M outputs q = (outputs, q))"
proof (intro conjI)
  show "playMode (AdlMidiProcessor options :: 'e processor) = Realtime"
    by (rule playMode_constructor)
  show "playMode (initWasm M created q) = playMode q"
    by (rule playMode_initWasm)
  show "playMode (handleMessage M Play p) = File"
    by (rule play_transition(1) [OF assms(1,2)])
  show "map fst (history (handleMessage M Play p)) =
           map fst (calls m) @ Playback (adl_atEnd (midi p)) #
             (if engine_at_end M (midi p) (wasm m)
              then [Playback (adl_positionRewind (midi p))] else [])"
    by (rule play_transition(2) [OF assms(1,2)])
  show "playMode (handleMessage M Stop p) = Realtime"
    by (rule stop_transition(1) [OF assms(1,2)])
  show "map fst (history (handleMessage M Stop p)) =
           map fst (calls m) @
             [Playback (adl_positionRewind (midi p)), Lifecycle (adl_panic (midi p))]"
    by (rule stop_transition(2) [OF assms(1,2)])
  show "playMode (handleMessage M Reset p) = Realtime"
    by (rule reset_transition(1) [OF assms(1,2)])
  show "map fst (history (handleMessage M Reset p)) =
           map fst (calls m) @ [Lifecycle (adl_reset (midi p))]"
    by (rule reset_transition(2) [OF assms(1,2)])
  show "msg \<noteq> Play \<and> msg \<noteq> Stop \<and> msg \<noteq> Reset \<longrightarrow>
           playMode (handleMessage M msg p) = playMode p"
    by (simp add: playMode_handleMessage [OF assms(1)])
  show "midi p \<noteq> 0 \<and> channels \<noteq> [] \<and> playMode p = File \<and>
         engine_at_end M (midi p) (snd (exports M played (wasm m))) \<longrightarrow>
           playMode p' = Realtime \<and>
           count_list (port p') PlaybackEnded = count_list (port p) PlaybackEnded + 1 \<and>
           map fst (history p') = map fst (calls m) @
             [played, Playback (adl_atEnd (midi p)), Lifecycle (adl_panic (midi p))]"
    unfolding played_def p'_def
    using process_file(1) [OF assms(1,2), of channels M rest] by blast
  show "midi p \<noteq> 0 \<and> channels \<noteq> [] \<and> playMode p = File \<and>
         \<not> engine_at_end M (midi p) (snd (exports M played (wasm m))) \<longrightarrow>
           playMode p' = File \<and>
           count_list (port p') PlaybackEnded = count_list (port p) PlaybackEnded \<and>
           map fst (history p') = map fst (calls m) @ [played, Playback (adl_atEnd (midi p))]"
    unfolding played_def p'_def
    using process_file(2) [OF assms(1,2), of channels M rest] by blast
  show "midi p \<noteq> 0 \<and> channels \<noteq> [] \<and> playMode p = Realtime \<longrightarrow>
           playMode p' = Realtime \<and>
           count_list (port p') PlaybackEnded = count_list (port p) PlaybackEnded"
    unfolding p'_def
    using process_realtime(1,2) [OF assms(1,2), of channels M rest] by blast
  show "midi p = 0 \<or> outputs = [] \<or> hd outputs = [] \<longrightarrow> process M outputs p = (outputs, p)"
    using process_skips [of p outputs M] by blast
  show "\<not> ready q \<longrightarrow>
           (msg \<noteq> Ping \<longrightarrow> handleMessage M msg q = q) \<and>
           handleMessage M Ping q = q \<lparr> port := port q @ [Pong False] \<rparr> \<and>
           playMode (handleMessage M msg q) = playMode q \<and>
           process M outputs q = (outputs, q)"
    using process_skips [of q outputs M] by (simp add: handleMessage_def postMessage_def)
qed

theorem playback_mode_state_machine_witness:
  "ready (demo_processor \<lparr> playMode := File \<rparr>) \<and>
   adl (demo_processor \<lparr> playMode := File \<rparr>) = Some demo_machine \<and>
   playMode (handleMessage demo_module Play demo_processor) = File \<and>
   playMode (handleMessage demo_module Stop (demo_processor \<lparr> playMode := File \<rparr>)) = Realtime \<and>
   playMode (handleMessage demo_module (Seek 0) (demo_processor \<lparr> playMode := File \<rparr>)) = File \<and>
   playMode (snd (process demo_module [[[F32 0, F32 0], [F32 0, F32 0]]]
                    (demo_processor \<lparr> playMode := File \<rparr>))) = Realtime \<and>
   count_list (port (snd (process demo_module [[[F32 0, F32 0], [F32 0, F32 0]]]
                            (demo_processor \<lparr> playMode := File \<rparr>)))) PlaybackEnded = 1 \<and>
   \<not> ready (demo_processor \<lparr> ready := False \<rparr>) \<and>
   handleMessage demo_module Play (demo_processor \<lparr> ready := False \<rparr>) =
     demo_processor \<lparr> ready := False \<rparr> \<and>
   process demo_module [[[F32 0, F32 0], [F32 0, F32 0]]] (demo_processor \<lparr> ready := False \<rparr>) =
     ([[[F32 0, F32 0], [F32 0, F32 0]]], demo_processor \<lparr> ready := False \<rparr>)"
proof -
  let ?p = "demo_processor \<lparr> playMode := File \<rparr>"
  have h: "ready ?p" "adl ?p = Some demo_machine" "ready demo_processor"
    "adl demo_processor = Some demo_machine"
    by (simp_all add: demo_processor_def)
  have e: "midi ?p \<noteq> 0" "playMode ?p = File" "port ?p = []"
    "engine_at_end demo_module (midi ?p)
       (snd (exports demo_module
          (Playback (adl_play (midi ?p) (length ([[F32 0, F32 0], [F32 0, F32 0]] ! 0) * 2)
             (bufferPtr ?p))) (wasm demo_machine)))"
    by (simp_all add: demo_processor_def demo_module_def engine_at_end_def)
  note t = playback_mode_state_machine
        [where m = demo_machine and M = demo_module and msg = "Seek 0"
           and channels = "[[F32 0, F32 0], [F32 0, F32 0]]" and rest = "[]"
           and options = "\<lparr> opt_sampleRate = None, opt_settings = None \<rparr>"
           and created = "Inl TypeError" and q = demo_processor and outputs = "[]"]
  have ne: "[[F32 0, F32 0], [F32 0, F32 0]] \<noteq> ([] :: f32 list list)"
    by simp
  from t [of demo_processor, OF h(3,4)]
  have a: "playMode (handleMessage demo_module Play demo_processor) = File"
    by blast
  from t [of ?p, OF h(1,2)]
  have b: "playMode (handleMessage demo_module Stop ?p) = Realtime"
    and c: "playMode (handleMessage demo_module (Seek 0) ?p) = playMode ?p"
    by blast+
  from t [of ?p, OF h(1,2)] e ne
  have d: "playMode (snd (process demo_module [[[F32 0, F32 0], [F32 0, F32 0]]] ?p)) = Realtime"
    and f: "count_list (port (snd (process demo_module [[[F32 0, F32 0], [F32 0, F32 0]]] ?p)))
              PlaybackEnded = count_list (port ?p) PlaybackEnded + 1"
    by blast+
  have nr: "\<not> ready (demo_processor \<lparr> ready := False \<rparr>)" "Play \<noteq> Ping"
    by simp_all
  from playback_mode_state_machine
        [where m = demo_machine and M = demo_module and msg = Play and p = ?p
           and channels = "[[F32 0, F32 0], [F32 0, F32 0]]" and rest = "[]"
           and options = "\<lparr> opt_sampleRate = None, opt_settings = None \<rparr>"
           and created = "Inl TypeError" and q = "demo_processor \<lparr> ready := False \<rparr>"
           and outputs = "[[[F32 0, F32 0], [F32 0, F32 0]]]", OF h(1,2)] nr
  have g: "handleMessage demo_module Play (demo_processor \<lparr> ready := False \<rparr>) =
             demo_processor \<lparr> ready := False \<rparr>"
    and i: "process demo_module [[[F32 0, F32 0], [F32 0, F32 0]]]
              (demo_processor \<lparr> ready := False \<rparr>) =
            ([[[F32 0, F32 0], [F32 0, F32 0]]], demo_processor \<lparr> ready := False \<rparr>)"
    by blast+
  show ?thesis
    using h(1,2) a b c d f e(2,3) g i by simp
qed

text \<open>
  A \<open>play\<close> message sent to a processor that is not ready yet does not move it to
  \<open>file\<close>.
\<close>

theorem play_before_ready_keeps_realtime:
  "playMode (handleMessage demo_module Play
      (AdlMidiProcessor \<lparr> opt_sampleRate = None, opt_settings = None \<rparr>)) \<noteq> File"
  by (simp add: handleMessage_def AdlMidiProcessor_def)

subsection \<open>Writing an instrument\<close>

lemma proc_invoke_effect:
  assumes "adl p \<noteq> None" and "proc_invoke M c p = (r, p')"
  shows "history p' = history p @ [(c, r)]" "midi p' = midi p" "adl p' \<noteq> None"
  using assms
  by (auto simp add: proc_invoke_def invoke_def history_def Let_def case_prod_unfold
      split: option.splits)

lemma proc_do_effect:
  assumes "adl p \<noteq> None"
  obtains r where "history (proc_do M c p) = history p @ [(c, r)]"
    "midi (proc_do M c p) = midi p" "adl (proc_do M c p) \<noteq> None"
proof -
  obtain r p' where e: "proc_invoke M c p = (r, p')" by force
  then have "proc_do M c p = p'" by (simp add: proc_do_def)
  with proc_invoke_effect [OF assms e] that show ?thesis by simp
qed

lemma with_machine_write_bank_id:
  assumes "adl p \<noteq> None"
  shows "history (with_machine (write_bank_id a v b) p) = history p"
    "midi (with_machine (write_bank_id a v b) p) = midi p"
    "adl (with_machine (write_bank_id a v b) p) \<noteq> None"
  using assms
  by (auto simp add: with_machine_def history_def write_bank_id_def HEAPU8_store_def
      split: option.splits)

lemma HEAPU8_set_effect:
  assumes "adl p = Some m" "HEAPU8_set bs a m = Inr m'"
  shows "history (p \<lparr> adl := Some m' \<rparr>) = history p" "midi (p \<lparr> adl := Some m' \<rparr>) = midi p"
    "adl (p \<lparr> adl := Some m' \<rparr>) \<noteq> None"
  using assms by (auto simp add: HEAPU8_set_def history_def split: if_splits)

text \<open>What \<^verbatim>\<open>setInstrument\<close> of the processor does, case by case.\<close>

lemma proc_setInstrument_cases:
  fixes M :: "'e module" and p :: "'e processor"
    and bankId :: "bank_id option" and prog :: int and inst :: "instrument option"
  assumes live: "adl p \<noteq> None"
  defines "res \<equiv> fst (proc_setInstrument M bankId prog inst p)"
  defines "p' \<equiv> snd (proc_setInstrument M bankId prog inst p)"
  defines "h \<equiv> midi p"
  obtains
    (no_bank_id) ra where
      "history p' = history p @ [(malloc 4, ra)]" "\<not> success res" "result_error res \<noteq> None"
  | (bank_failed) ra rb r1 rf1 rf2 where "r1 \<noteq> 0"
      "history p' = history p @
         [(malloc 4, ra), (malloc SIZEOF_ADL_BANK, rb),
          (Bank (adl_getBank h (as_ptr ra) 1 (as_ptr rb)), r1),
          (free (as_ptr ra), rf1), (free (as_ptr rb), rf2)]"
      "res = failure ''Failed to get/create bank''"
  | (raised) ra rb rc where
      "history p' = history p @
         [(malloc 4, ra), (malloc SIZEOF_ADL_BANK, rb),
          (Bank (adl_getBank h (as_ptr ra) 1 (as_ptr rb)), 0),
          (malloc SIZEOF_ADL_INSTRUMENT, rc)]"
      "\<not> success res" "result_error res \<noteq> None"
  | (write_failed) ra rb rc r2 rf1 rf2 rf3 where "r2 \<noteq> 0"
      "history p' = history p @
         [(malloc 4, ra), (malloc SIZEOF_ADL_BANK, rb),
          (Bank (adl_getBank h (as_ptr ra) 1 (as_ptr rb)), 0),
          (malloc SIZEOF_ADL_INSTRUMENT, rc),
          (Bank (adl_setInstrument h (as_ptr rb) prog (as_ptr rc)), r2),
          (free (as_ptr ra), rf1), (free (as_ptr rb), rf2), (free (as_ptr rc), rf3)]"
      "res = failure ''Failed to set instrument''"
  | (written) ra rb rc rr rf1 rf2 rf3 where
      "history p' = history p @
         [(malloc 4, ra), (malloc SIZEOF_ADL_BANK, rb),
          (Bank (adl_getBank h (as_ptr ra) 1 (as_ptr rb)), 0),
          (malloc SIZEOF_ADL_INSTRUMENT, rc),
          (Bank (adl_setInstrument h (as_ptr rb) prog (as_ptr rc)), 0),
          (Lifecycle (adl_reset h), rr),
          (free (as_ptr ra), rf1), (free (as_ptr rb), rf2), (free (as_ptr rc), rf3)]"
      "success res" "result_error res = None"
proof -
  from live obtain m0 where m0: "adl p = Some m0" by auto
  obtain ra p1 where e1: "proc_invoke M (malloc 4) p = (ra, p1)" by force
  note s1 = proc_invoke_effect [OF live e1]
  show thesis
  proof (cases bankId)
    case None
    have "history p' = history p @ [(malloc 4, ra)]" "\<not> success res" "result_error res \<noteq> None"
      using m0 e1 s1 None
      by (simp_all add: p'_def res_def proc_setInstrument_def failure_def)
    then show thesis by (rule no_bank_id)
  next
    case (Some bid)
    define p2 where "p2 = with_machine
        (write_bank_id (as_ptr ra) (if is_truthy (percussive bid) then 1 else 0) bid) p1"
    note s2 = with_machine_write_bank_id [OF s1(3), of "as_ptr ra"
        "if is_truthy (percussive bid) then 1 else 0" bid, folded p2_def]
    obtain rb p3 where e3: "proc_invoke M (malloc SIZEOF_ADL_BANK) p2 = (rb, p3)" by force
    note s3 = proc_invoke_effect [OF s2(3) e3]
    obtain r1 p4 where
      e4: "proc_invoke M (Bank (adl_getBank (midi p3) (as_ptr ra) 1 (as_ptr rb))) p3 = (r1, p4)"
      by force
    note s4 = proc_invoke_effect [OF s3(3) e4]
    have hh: "midi p3 = h" "midi p4 = h"
      using s1 s2 s3 s4 by (simp_all add: h_def)
    show thesis
    proof (cases "r1 = 0")
      case False
      obtain rf1 where f1: "history (proc_do M (free (as_ptr ra)) p4) = history p4 @ [(free (as_ptr ra), rf1)]"
          "adl (proc_do M (free (as_ptr ra)) p4) \<noteq> None"
        using proc_do_effect [OF s4(3)] by metis
      obtain rf2 where f2: "history (proc_do M (free (as_ptr rb)) (proc_do M (free (as_ptr ra)) p4)) =
          history (proc_do M (free (as_ptr ra)) p4) @ [(free (as_ptr rb), rf2)]"
        using proc_do_effect [OF f1(2)] by metis
      have "history p' = history p @
         [(malloc 4, ra), (malloc SIZEOF_ADL_BANK, rb),
          (Bank (adl_getBank h (as_ptr ra) 1 (as_ptr rb)), r1),
          (free (as_ptr ra), rf1), (free (as_ptr rb), rf2)]"
        "res = failure ''Failed to get/create bank''"
        using m0 e1 e3 e4 Some False s1 s2 s3 s4 f1 f2 hh
        by (simp_all add: p'_def res_def proc_setInstrument_def Let_def p2_def [symmetric])
      with False show thesis by (rule bank_failed)
    next
      case True
      obtain rc p5 where e5: "proc_invoke M (malloc SIZEOF_ADL_INSTRUMENT) p4 = (rc, p5)" by force
      note s5 = proc_invoke_effect [OF s4(3) e5]
      from s5(3) obtain m5 where m5: "adl p5 = Some m5" by auto
      have hist5: "history p5 = history p @
         [(malloc 4, ra), (malloc SIZEOF_ADL_BANK, rb),
          (Bank (adl_getBank h (as_ptr ra) 1 (as_ptr rb)), 0),
          (malloc SIZEOF_ADL_INSTRUMENT, rc)]"
        using s1 s2 s3 s4 s5 hh True by simp
      show thesis
      proof (cases "case inst of None \<Rightarrow> None
                    | Some i \<Rightarrow> (case HEAPU8_set (encodeInstrument i) (as_ptr rc) m5 of
                                   Inl e \<Rightarrow> None | Inr m' \<Rightarrow> Some m')")
        case None
        have "history p' = history p5" "\<not> success res" "result_error res \<noteq> None"
          using m0 e1 e3 e4 e5 Some True None m5
          by (auto simp add: p'_def res_def proc_setInstrument_def Let_def p2_def [symmetric]
              failure_def split: option.splits sum.splits)
        with hist5 show thesis by (simp add: raised)
      next
        case (Some m')
        then obtain i where i: "inst = Some i" "HEAPU8_set (encodeInstrument i) (as_ptr rc) m5 = Inr m'"
          by (auto split: option.splits sum.splits)
        define p6 where "p6 = p5 \<lparr> adl := Some m' \<rparr>"
        note s6 = HEAPU8_set_effect [OF m5 i(2), folded p6_def]
        obtain r2 p7 where
          e7: "proc_invoke M (Bank (adl_setInstrument (midi p6) (as_ptr rb) prog (as_ptr rc))) p6 = (r2, p7)"
          by force
        note s7 = proc_invoke_effect [OF s6(3) e7]
        have h6: "midi p6 = h" "midi p7 = h" using s5 s6 s7 hh by simp_all
        define p8 where "p8 = (if r2 = 0 then proc_do M (Lifecycle (adl_reset h)) p7 else p7)"
        have live8: "adl p8 \<noteq> None"
          using s7(3) proc_do_effect [OF s7(3)] by (auto simp add: p8_def)
        obtain rf1 where f1: "history (proc_do M (free (as_ptr ra)) p8) = history p8 @ [(free (as_ptr ra), rf1)]"
            "adl (proc_do M (free (as_ptr ra)) p8) \<noteq> None"
          using proc_do_effect [OF live8] by metis
        obtain rf2 where f2: "history (proc_do M (free (as_ptr rb)) (proc_do M (free (as_ptr ra)) p8)) =
            history (proc_do M (free (as_ptr ra)) p8) @ [(free (as_ptr rb), rf2)]"
            "adl (proc_do M (free (as_ptr rb)) (proc_do M (free (as_ptr ra)) p8)) \<noteq> None"
          using proc_do_effect [OF f1(2)] by metis
        obtain rf3 where f3: "history (proc_do M (free (as_ptr rc))
              (proc_do M (free (as_ptr rb)) (proc_do M (free (as_ptr ra)) p8))) =
            history (proc_do M (free (as_ptr rb)) (proc_do M (free (as_ptr ra)) p8)) @ [(free (as_ptr rc), rf3)]"
          using proc_do_effect [OF f2(2)] by metis
        have unfolded: "proc_setInstrument M bankId prog inst p =
            (if r2 = 0 then \<lparr> success = True, result_instrument = None, result_error = None \<rparr>
             else failure ''Failed to set instrument'',
             proc_do M (free (as_ptr rc))
              (proc_do M (free (as_ptr rb)) (proc_do M (free (as_ptr ra)) p8)))"
          using m0 e1 e3 e4 e5 e7 \<open>bankId = Some bid\<close> True m5 i h6
          by (simp add: proc_setInstrument_def Let_def p2_def [symmetric] p6_def [symmetric] p8_def)
        show thesis
        proof (cases "r2 = 0")
          case False
          have "history p8 = history p5 @ [(Bank (adl_setInstrument h (as_ptr rb) prog (as_ptr rc)), r2)]"
            using False s6 s7 h6 by (simp add: p8_def)
          with hist5 f1 f2 f3 unfolded False show thesis
            by (intro write_failed [of r2 ra rb rc rf1 rf2 rf3]) (simp_all add: p'_def res_def)
        next
          case True
          obtain rr where r: "history (proc_do M (Lifecycle (adl_reset h)) p7) =
              history p7 @ [(Lifecycle (adl_reset h), rr)]"
            using proc_do_effect [OF s7(3)] by metis
          have "history p8 = history p5 @
              [(Bank (adl_setInstrument h (as_ptr rb) prog (as_ptr rc)), 0), (Lifecycle (adl_reset h), rr)]"
            using True s6 s7 h6 r by (simp add: p8_def)
          with hist5 f1 f2 f3 unfolded True show thesis
            by (intro written [of ra rb rc rr rf1 rf2 rf3]) (simp_all add: p'_def res_def)
        qed
      qed
    qed
  qed
qed

subsection \<open>The same operation of AdlMidiCore\<close>

lemma core_invoke_effect:
  assumes "core_invoke M x c = (r, c')"
  shows "calls (module c') = calls (module c) @ [(x, r)]" "player c' = player c"
    "audioBuffer c' = audioBuffer c" "audioBufferPtr c' = audioBufferPtr c"
  using assms
  by (auto simp add: core_invoke_def invoke_def Let_def case_prod_unfold)

lemma core_do_effect:
  obtains r where "calls (module (snd (core_invoke M x c))) = calls (module c) @ [(x, r)]"
    "player (snd (core_invoke M x c)) = player c"
proof -
  obtain r c' where e: "core_invoke M x c = (r, c')" by force
  with core_invoke_effect [OF e] that show ?thesis by simp
qed

lemma core_write_bank_id:
  "calls (module (c \<lparr> module := write_bank_id a v b (module c) \<rparr>)) = calls (module c)"
  "player (c \<lparr> module := write_bank_id a v b (module c) \<rparr>) = player c"
  by (simp_all add: write_bank_id_def HEAPU8_store_def)

lemma core_HEAPU8_set:
  assumes "HEAPU8_set bs a (module c) = Inr m'"
  shows "calls (module (c \<lparr> module := m' \<rparr>)) = calls (module c)"
    "player (c \<lparr> module := m' \<rparr>) = player c"
  using assms by (auto simp add: HEAPU8_set_def split: if_splits)

lemma core_setInstrument_cases:
  fixes M :: "'e module" and c :: "'e core"
    and bankId :: "bank_id option" and prog :: int and inst :: "instrument option"
  assumes init: "player c \<noteq> 0"
  defines "out \<equiv> fst (core_setInstrument M bankId prog inst c)"
  defines "c' \<equiv> snd (core_setInstrument M bankId prog inst c)"
  defines "h \<equiv> player c"
  obtains
    (no_bank_id) ra where
      "calls (module c') = calls (module c) @ [(malloc SIZEOF_ADL_BANK_ID, ra)]" "out = Inl TypeError"
  | (bank_failed) ra rb r1 rf1 rf2 where "r1 \<noteq> 0"
      "calls (module c') = calls (module c) @
         [(malloc SIZEOF_ADL_BANK_ID, ra), (malloc SIZEOF_ADL_BANK, rb),
          (Bank (adl_getBank h (as_ptr ra) 1 (as_ptr rb)), r1),
          (free (as_ptr ra), rf1), (free (as_ptr rb), rf2)]"
      "out = Inr False"
  | (no_instrument) ra rb where
      "calls (module c') = calls (module c) @
         [(malloc SIZEOF_ADL_BANK_ID, ra), (malloc SIZEOF_ADL_BANK, rb),
          (Bank (adl_getBank h (as_ptr ra) 1 (as_ptr rb)), 0)]"
      "out = Inl TypeError"
  | (raised) ra rb rc e where
      "calls (module c') = calls (module c) @
         [(malloc SIZEOF_ADL_BANK_ID, ra), (malloc SIZEOF_ADL_BANK, rb),
          (Bank (adl_getBank h (as_ptr ra) 1 (as_ptr rb)), 0),
          (malloc SIZEOF_ADL_INSTRUMENT, rc)]"
      "out = Inl e"
  | (written) ra rb rc r2 rf1 rf2 rf3 where
      "calls (module c') = calls (module c) @
         [(malloc SIZEOF_ADL_BANK_ID, ra), (malloc SIZEOF_ADL_BANK, rb),
          (Bank (adl_getBank h (as_ptr ra) 1 (as_ptr rb)), 0),
          (malloc SIZEOF_ADL_INSTRUMENT, rc),
          (Bank (adl_setInstrument h (as_ptr rb) prog (as_ptr rc)), r2),
          (free (as_ptr rc), rf3), (free (as_ptr ra), rf1), (free (as_ptr rb), rf2)]"
      "out = Inr (r2 = 0)"
proof -
  have ep: "ensurePlayer c = None" using init by (simp add: ensurePlayer_def)
  obtain ra c1 where e1: "core_invoke M (malloc SIZEOF_ADL_BANK_ID) c = (ra, c1)" by force
  note s1 = core_invoke_effect(1,2) [OF e1]
  show thesis
  proof (cases bankId)
    case None
    have "calls (module c') = calls (module c) @ [(malloc SIZEOF_ADL_BANK_ID, ra)]" "out = Inl TypeError"
      using ep e1 s1 None by (simp_all add: c'_def out_def core_setInstrument_def)
    then show thesis by (rule no_bank_id)
  next
    case (Some bid)
    define c2 where "c2 = c1 \<lparr> module := write_bank_id (as_ptr ra) (or0 (percussive bid)) bid (module c1) \<rparr>"
    note s2 = core_write_bank_id [where c = c1 and a = "as_ptr ra" and v = "or0 (percussive bid)"
        and b = bid, folded c2_def]
    obtain rb c3 where e3: "core_invoke M (malloc SIZEOF_ADL_BANK) c2 = (rb, c3)" by force
    note s3 = core_invoke_effect(1,2) [OF e3]
    obtain r1 c4 where
      e4: "core_invoke M (Bank (adl_getBank (player c3) (as_ptr ra) 1 (as_ptr rb))) c3 = (r1, c4)"
      by force
    note s4 = core_invoke_effect(1,2) [OF e4]
    have hh: "player c3 = h" "player c4 = h"
      using s1 s2 s3 s4 by (simp_all add: h_def)
    have hist4: "calls (module c4) = calls (module c) @
         [(malloc SIZEOF_ADL_BANK_ID, ra), (malloc SIZEOF_ADL_BANK, rb),
          (Bank (adl_getBank h (as_ptr ra) 1 (as_ptr rb)), r1)]"
      using s1 s2 s3 s4 hh by simp
    show thesis
    proof (cases "r1 = 0")
      case False
      obtain rf1 where f1: "calls (module (snd (core_invoke M (free (as_ptr ra)) c4))) =
          calls (module c4) @ [(free (as_ptr ra), rf1)]"
        by (rule core_do_effect)
      obtain rf2 where f2: "calls (module (snd (core_invoke M (free (as_ptr rb))
            (snd (core_invoke M (free (as_ptr ra)) c4))))) =
          calls (module (snd (core_invoke M (free (as_ptr ra)) c4))) @ [(free (as_ptr rb), rf2)]"
        by (rule core_do_effect)
      have "calls (module c') = calls (module c4) @ [(free (as_ptr ra), rf1), (free (as_ptr rb), rf2)]"
        "out = Inr False"
        using ep e1 e3 e4 Some False f1 f2
        by (simp_all add: c'_def out_def core_setInstrument_def Let_def c2_def [symmetric])
      with hist4 False show thesis
        by (intro bank_failed [of r1 ra rb rf1 rf2]) simp_all
    next
      case True
      show thesis
      proof (cases inst)
        case None
        have "calls (module c') = calls (module c4)" "out = Inl TypeError"
          using ep e1 e3 e4 Some True None
          by (simp_all add: c'_def out_def core_setInstrument_def Let_def c2_def [symmetric])
        with hist4 True show thesis
          by (intro no_instrument [of ra rb]) simp_all
      next
        case (Some i)
        obtain rc c5 where e5: "core_invoke M (malloc SIZEOF_ADL_INSTRUMENT) c4 = (rc, c5)" by force
        note s5 = core_invoke_effect(1,2) [OF e5]
        show thesis
        proof (cases "HEAPU8_set (encodeInstrument i) (as_ptr rc) (module c5)")
          case (Inl e)
          have "calls (module c') = calls (module c5)" "out = Inl e"
            using ep e1 e3 e4 e5 \<open>bankId = Some bid\<close> True Some Inl
            by (simp_all add: c'_def out_def core_setInstrument_def Let_def c2_def [symmetric])
          with hist4 s5 True show thesis
            by (intro raised [of ra rb rc e]) simp_all
        next
          case (Inr m')
          define c6 where "c6 = c5 \<lparr> module := m' \<rparr>"
          note s6 = core_HEAPU8_set [OF Inr, folded c6_def]
          obtain r2 c7 where
            e7: "core_invoke M (Bank (adl_setInstrument (player c6) (as_ptr rb) prog (as_ptr rc))) c6 = (r2, c7)"
            by force
          note s7 = core_invoke_effect(1,2) [OF e7]
          have h6: "player c6 = h" using s5 s6 hh by simp
          obtain rf3 where f3: "calls (module (snd (core_invoke M (free (as_ptr rc)) c7))) =
              calls (module c7) @ [(free (as_ptr rc), rf3)]"
            by (rule core_do_effect)
          obtain rf1 where f1: "calls (module (snd (core_invoke M (free (as_ptr ra))
                (snd (core_invoke M (free (as_ptr rc)) c7))))) =
              calls (module (snd (core_invoke M (free (as_ptr rc)) c7))) @ [(free (as_ptr ra), rf1)]"
            by (rule core_do_effect)
          obtain rf2 where f2: "calls (module (snd (core_invoke M (free (as_ptr rb))
                (snd (core_invoke M (free (as_ptr ra)) (snd (core_invoke M (free (as_ptr rc)) c7))))))) =
              calls (module (snd (core_invoke M (free (as_ptr ra))
                (snd (core_invoke M (free (as_ptr rc)) c7))))) @ [(free (as_ptr rb), rf2)]"
            by (rule core_do_effect)
          have "calls (module c') = calls (module c7) @
              [(free (as_ptr rc), rf3), (free (as_ptr ra), rf1), (free (as_ptr rb), rf2)]"
            "out = Inr (r2 = 0)"
            using ep e1 e3 e4 e5 e7 \<open>bankId = Some bid\<close> True Some Inr f1 f2 f3
            by (simp_all add: c'_def out_def core_setInstrument_def Let_def c2_def [symmetric]
                c6_def [symmetric])
          with hist4 s5 s6 s7 h6 True show thesis
            by (intro written [of ra rb rc r2 rf3 rf1 rf2]) simp_all
        qed
      qed
    qed
  qed
qed

subsection \<open>When the engine is reset\<close>

lemma since_append [simp]: "since h (h @ xs) = xs"
  by (simp add: since_def)

lemma statuses_simps [simp]:
  "statuses P [] = []"
  "statuses P (x # xs) = (if P (fst x) then snd x # statuses P xs else statuses P xs)"
  by (simp_all add: statuses_def)

lemma resetFull_effect:
  assumes "player c \<noteq> 0"
  shows "fst (resetFull M c) = Inr ()"
    and "map fst (since (calls (module c)) (calls (module (snd (resetFull M c))))) =
           [Lifecycle (adl_reset (player c))]"
  using assms
  by (simp_all add: resetFull_def ensurePlayer_def core_invoke_def invoke_def since_def
      case_prod_unfold Let_def)

lemma player_core_invoke [simp]: "player (snd (core_invoke M x c)) = player c"
  by (simp add: core_invoke_def case_prod_unfold Let_def)

lemma player_core_setInstrument:
  "player (snd (core_setInstrument M bankId prog inst c)) = player c"
  by (simp add: core_setInstrument_def Let_def case_prod_unfold split: option.splits sum.splits)

lemma core_setInstrument_uninitialized:
  assumes "player c = 0"
  shows "fst (core_setInstrument M bankId prog inst c) \<noteq> Inr True"
  using assms by (simp add: core_setInstrument_def ensurePlayer_def)

text \<open>
  C7. In every state, \<^verbatim>\<open>setInstrument\<close> of the processor succeeds exactly when the write
  \<^verbatim>\<open>adl_setInstrument\<close> returned 0, and then it has called \<^verbatim>\<open>adl_reset\<close> once, after
  the write; when the bank resolution or the write returns a status other than 0 it
  returns a failure with an error text and has called no reset (after a failed bank
  resolution it has not called the write either). \<^verbatim>\<open>setInstrument\<close> of AdlMidiCore
  returns true exactly when the write returned 0 and false when the bank resolution
  or the write failed, but it never calls \<^verbatim>\<open>adl_reset\<close>. There the reset is the
  separate method \<^verbatim>\<open>resetFull\<close>: on an initialized session, and so after a
  \<^verbatim>\<open>setInstrument\<close> that returned true, it returns normally and its only call is one
  \<^verbatim>\<open>adl_reset\<close> on the handle of the player.
\<close>

theorem setInstrument_resets_after_successful_write:
  fixes M :: "'e module" and p :: "'e processor" and c :: "'e core"
    and bankId :: "bank_id option" and prog :: int and inst :: "instrument option"
  defines "res \<equiv> fst (proc_setInstrument M bankId prog inst p)"
  defines "new \<equiv> since (history p) (history (snd (proc_setInstrument M bankId prog inst p)))"
  defines "out \<equiv> fst (core_setInstrument M bankId prog inst c)"
  defines "c' \<equiv> snd (core_setInstrument M bankId prog inst c)"
  defines "new_core \<equiv> since (calls (module c)) (calls (module c'))"
  shows "((success res \<longleftrightarrow> statuses is_setInstrument new = [0]) \<and>
          (success res \<longrightarrow>
             filter is_reset (map fst new) = [Lifecycle (adl_reset (midi p))] \<and>
             filter is_reset (map fst (takeWhile (\<lambda>x. \<not> is_setInstrument (fst x)) new)) = []) \<and>
          (\<not> success res \<longrightarrow> result_error res \<noteq> None \<and> filter is_reset (map fst new) = []) \<and>
          ((\<exists>r \<in> set (statuses is_getBank new). r \<noteq> 0) \<longrightarrow>
             \<not> success res \<and> statuses is_setInstrument new = []) \<and>
          ((\<exists>r \<in> set (statuses is_setInstrument new). r \<noteq> 0) \<longrightarrow> \<not> success res)) \<and>
         (filter is_reset (map fst new_core) = [] \<and>
          (out = Inr True \<longleftrightarrow> statuses is_setInstrument new_core = [0]) \<and>
          ((\<exists>r \<in> set (statuses is_getBank new_core). r \<noteq> 0) \<longrightarrow>
             out = Inr False \<and> statuses is_setInstrument new_core = []) \<and>
          ((\<exists>r \<in> set (statuses is_setInstrument new_core). r \<noteq> 0) \<longrightarrow> out = Inr False)) \<and>
         ((player c \<noteq> 0 \<longrightarrow>
             fst (resetFull M c) = Inr () \<and>
             map fst (since (calls (module c)) (calls (module (snd (resetFull M c))))) =
               [Lifecycle (adl_reset (player c))]) \<and>
          (out = Inr True \<longrightarrow>
             fst (resetFull M c') = Inr () \<and>
             map fst (since (calls (module c')) (calls (module (snd (resetFull M c'))))) =
               [Lifecycle (adl_reset (player c))]))"
proof -
  have processor: "(success res \<longleftrightarrow> statuses is_setInstrument new = [0]) \<and>
          (success res \<longrightarrow>
             filter is_reset (map fst new) = [Lifecycle (adl_reset (midi p))] \<and>
             filter is_reset (map fst (takeWhile (\<lambda>x. \<not> is_setInstrument (fst x)) new)) = []) \<and>
          (\<not> success res \<longrightarrow> result_error res \<noteq> None \<and> filter is_reset (map fst new) = []) \<and>
          ((\<exists>r \<in> set (statuses is_getBank new). r \<noteq> 0) \<longrightarrow>
             \<not> success res \<and> statuses is_setInstrument new = []) \<and>
          ((\<exists>r \<in> set (statuses is_setInstrument new). r \<noteq> 0) \<longrightarrow> \<not> success res)"
  proof (cases "adl p = None")
    case True
    then show ?thesis
      unfolding res_def new_def
      by (simp add: proc_setInstrument_def failure_def since_def)
  next
    case False
    show ?thesis
      unfolding res_def new_def
      by (cases rule: proc_setInstrument_cases [OF False, of M bankId prog inst])
         (simp_all add: failure_def)
  qed
  have core: "filter is_reset (map fst new_core) = [] \<and>
          (out = Inr True \<longleftrightarrow> statuses is_setInstrument new_core = [0]) \<and>
          ((\<exists>r \<in> set (statuses is_getBank new_core). r \<noteq> 0) \<longrightarrow>
             out = Inr False \<and> statuses is_setInstrument new_core = []) \<and>
          ((\<exists>r \<in> set (statuses is_setInstrument new_core). r \<noteq> 0) \<longrightarrow> out = Inr False)"
  proof (cases "player c = 0")
    case True
    then show ?thesis
      unfolding out_def new_core_def c'_def
      by (simp add: core_setInstrument_def ensurePlayer_def since_def)
  next
    case False
    show ?thesis
      unfolding out_def new_core_def c'_def
      by (cases rule: core_setInstrument_cases [OF False, of M bankId prog inst])
         (simp_all add: SIZEOF_ADL_BANK_ID_def)
  qed
  have init: "player c' \<noteq> 0" "player c' = player c" if "out = Inr True"
    using that core_setInstrument_uninitialized [of c M bankId prog inst]
    by (auto simp add: out_def c'_def player_core_setInstrument)
  have reset: "(player c \<noteq> 0 \<longrightarrow>
             fst (resetFull M c) = Inr () \<and>
             map fst (since (calls (module c)) (calls (module (snd (resetFull M c))))) =
               [Lifecycle (adl_reset (player c))]) \<and>
          (out = Inr True \<longrightarrow>
             fst (resetFull M c') = Inr () \<and>
             map fst (since (calls (module c')) (calls (module (snd (resetFull M c'))))) =
               [Lifecycle (adl_reset (player c))])"
    using resetFull_effect [of c M] resetFull_effect [of c' M] init by simp
  show ?thesis
    by (rule conjI [OF processor conjI [OF core reset]])
qed

lemma demo_machine_simps:
  "length (HEAPU8 (wasm demo_machine)) = 64" "calls demo_machine = []"
  by (simp_all add: demo_machine_def)

lemma demo_setInstrument_processor:
  "proc_setInstrument (answering is_setInstrument r demo_module) (Some demo_bank) 0
       (Some defaultInstrument) demo_processor =
     (if r = 0 then \<lparr> success = True, result_instrument = None, result_error = None \<rparr>
      else failure ''Failed to set instrument'',
      demo_processor \<lparr> adl := Some
        \<lparr> wasm = \<lparr> HEAPU8 = bytes_set (encodeInstrument defaultInstrument) 16
                               ((HEAPU8 (wasm demo_machine)) [16 := 0, 17 := 0, 18 := 0]),
                    engine = False \<rparr>,
          calls = [(malloc 4, 16), (malloc SIZEOF_ADL_BANK, 16),
                   (Bank (adl_getBank 1 16 1 16), 0), (malloc SIZEOF_ADL_INSTRUMENT, 16),
                   (Bank (adl_setInstrument 1 16 0 16), r)] @
                  (if r = 0 then [(Lifecycle (adl_reset 1), 0)] else []) @
                  [(free 16, 0), (free 16, 0), (free 16, 0)] \<rparr> \<rparr>)"
  by (simp add: proc_setInstrument_def proc_invoke_def proc_do_def invoke_def with_machine_def
      write_bank_id_def HEAPU8_store_def HEAPU8_set_def answering_def demo_module_def
      demo_processor_def demo_machine_def demo_bank_def as_ptr_def is_truthy_def or0_def
      length_encodeInstrument SIZEOF_ADL_INSTRUMENT_def SIZEOF_ADL_BANK_def Let_def)

theorem setInstrument_resets_after_successful_write_witness:
  "success (fst (proc_setInstrument (answering is_setInstrument 0 demo_module) (Some demo_bank) 0
                   (Some defaultInstrument) demo_processor)) \<and>
   filter is_reset (map fst (since (history demo_processor)
      (history (snd (proc_setInstrument (answering is_setInstrument 0 demo_module)
                       (Some demo_bank) 0 (Some defaultInstrument) demo_processor))))) =
     [Lifecycle (adl_reset 1)] \<and>
   \<not> success (fst (proc_setInstrument (answering is_setInstrument 5 demo_module) (Some demo_bank) 0
                     (Some defaultInstrument) demo_processor)) \<and>
   filter is_reset (map fst (since (history demo_processor)
      (history (snd (proc_setInstrument (answering is_setInstrument 5 demo_module)
                       (Some demo_bank) 0 (Some defaultInstrument) demo_processor))))) = [] \<and>
   player demo_core \<noteq> 0 \<and>
   fst (resetFull demo_module demo_core) = Inr () \<and>
   map fst (since (calls (module demo_core))
      (calls (module (snd (resetFull demo_module demo_core))))) = [Lifecycle (adl_reset 1)]"
proof -
  have h: "midi demo_processor = 1"
    by (simp add: demo_processor_def)
  have k: "player demo_core \<noteq> 0" "player demo_core = 1"
    by (simp_all add: demo_core_def)
  have written: "statuses is_setInstrument (since (history demo_processor)
      (history (snd (proc_setInstrument (answering is_setInstrument 0 demo_module)
                       (Some demo_bank) 0 (Some defaultInstrument) demo_processor)))) = [0]"
    by (simp add: demo_setInstrument_processor history_def since_def)
       (simp add: demo_processor_def demo_machine_def)
  have refused: "\<exists>r \<in> set (statuses is_setInstrument (since (history demo_processor)
      (history (snd (proc_setInstrument (answering is_setInstrument 5 demo_module)
                       (Some demo_bank) 0 (Some defaultInstrument) demo_processor))))). r \<noteq> 0"
    by (simp add: demo_setInstrument_processor history_def since_def)
       (simp add: demo_processor_def demo_machine_def)
  note t = setInstrument_resets_after_successful_write
      [where p = demo_processor and c = demo_core and bankId = "Some demo_bank" and prog = 0
         and inst = "Some defaultInstrument"]
  from t [of "answering is_setInstrument 0 demo_module"] written
  have a: "success (fst (proc_setInstrument (answering is_setInstrument 0 demo_module)
                   (Some demo_bank) 0 (Some defaultInstrument) demo_processor))"
    and b: "filter is_reset (map fst (since (history demo_processor)
      (history (snd (proc_setInstrument (answering is_setInstrument 0 demo_module)
                       (Some demo_bank) 0 (Some defaultInstrument) demo_processor))))) =
     [Lifecycle (adl_reset (midi demo_processor))]"
    by blast+
  from t [of "answering is_setInstrument 5 demo_module"] refused
  have c: "\<not> success (fst (proc_setInstrument (answering is_setInstrument 5 demo_module)
                   (Some demo_bank) 0 (Some defaultInstrument) demo_processor))"
    by blast
  with t [of "answering is_setInstrument 5 demo_module"]
  have d: "filter is_reset (map fst (since (history demo_processor)
      (history (snd (proc_setInstrument (answering is_setInstrument 5 demo_module)
                       (Some demo_bank) 0 (Some defaultInstrument) demo_processor))))) = []"
    by blast
  from t [of demo_module] k(1)
  have e: "fst (resetFull demo_module demo_core) = Inr () \<and>
     map fst (since (calls (module demo_core))
        (calls (module (snd (resetFull demo_module demo_core))))) =
       [Lifecycle (adl_reset (player demo_core))]"
    by blast
  show ?thesis
    using h k a b c d e by simp
qed

lemma demo_setInstrument_core:
  "core_setInstrument demo_module (Some demo_bank) 0 (Some defaultInstrument) demo_core =
     (Inr True,
      demo_core \<lparr> module :=
        \<lparr> wasm = (wasm demo_machine)
                   \<lparr> HEAPU8 := bytes_set (encodeInstrument defaultInstrument) 16
                                 ((HEAPU8 (wasm demo_machine)) [16 := 0, 17 := 0, 18 := 0]) \<rparr>,
          calls = [(malloc SIZEOF_ADL_BANK_ID, 16), (malloc SIZEOF_ADL_BANK, 16),
                   (Bank (adl_getBank 1 16 1 16), 0), (malloc SIZEOF_ADL_INSTRUMENT, 16),
                   (Bank (adl_setInstrument 1 16 0 16), 0),
                   (free 16, 0), (free 16, 0), (free 16, 0)] \<rparr> \<rparr>)"
  by (simp add: core_setInstrument_def core_invoke_def invoke_def ensurePlayer_def
      write_bank_id_def HEAPU8_store_def HEAPU8_set_def demo_module_def
      demo_core_def demo_machine_simps demo_bank_def as_ptr_def or0_def
      length_encodeInstrument SIZEOF_ADL_INSTRUMENT_def SIZEOF_ADL_BANK_def Let_def)

text \<open>
  On an engine that accepts the write, \<^verbatim>\<open>setInstrument\<close> of AdlMidiCore returns true and
  has called no reset.
\<close>

theorem core_setInstrument_succeeds_without_reset:
  "fst (core_setInstrument demo_module (Some demo_bank) 0 (Some defaultInstrument) demo_core) =
     Inr True \<and>
   filter is_reset (map fst (calls (module (snd
     (core_setInstrument demo_module (Some demo_bank) 0 (Some defaultInstrument) demo_core))))) = []"
  by (simp add: demo_setInstrument_core)

subsection \<open>Reading an instrument\<close>

lemma proc_getInstrument_cases:
  fixes M :: "'e module" and p :: "'e processor"
    and bankId :: "bank_id option" and prog :: int
  assumes live: "adl p \<noteq> None"
  defines "res \<equiv> fst (proc_getInstrument M bankId prog p)"
  defines "p' \<equiv> snd (proc_getInstrument M bankId prog p)"
  defines "h \<equiv> midi p"
  obtains
    (no_bank_id) ra where
      "history p' = history p @ [(malloc 4, ra)]" "\<not> success res" "result_instrument res = None"
  | (bank_failed) ra rb r1 rf1 rf2 where "r1 \<noteq> 0"
      "history p' = history p @
         [(malloc 4, ra), (malloc SIZEOF_ADL_BANK, rb),
          (Bank (adl_getBank h (as_ptr ra) 1 (as_ptr rb)), r1),
          (free (as_ptr ra), rf1), (free (as_ptr rb), rf2)]"
      "res = failure ''Failed to get bank''"
  | (read_failed) ra rb rc r2 rf1 rf2 rf3 where "r2 \<noteq> 0"
      "history p' = history p @
         [(malloc 4, ra), (malloc SIZEOF_ADL_BANK, rb),
          (Bank (adl_getBank h (as_ptr ra) 1 (as_ptr rb)), 0),
          (malloc SIZEOF_ADL_INSTRUMENT, rc),
          (Bank (adl_getInstrument h (as_ptr rb) prog (as_ptr rc)), r2),
          (free (as_ptr ra), rf1), (free (as_ptr rb), rf2), (free (as_ptr rc), rf3)]"
      "res = failure ''Failed to get instrument''"
  | (raised) ra rb rc where
      "history p' = history p @
         [(malloc 4, ra), (malloc SIZEOF_ADL_BANK, rb),
          (Bank (adl_getBank h (as_ptr ra) 1 (as_ptr rb)), 0),
          (malloc SIZEOF_ADL_INSTRUMENT, rc),
          (Bank (adl_getInstrument h (as_ptr rb) prog (as_ptr rc)), 0)]"
      "\<not> success res" "result_instrument res = None"
  | (decoded) ra rb rc rf1 rf2 rf3 i bytes where
      "history p' = history p @
         [(malloc 4, ra), (malloc SIZEOF_ADL_BANK, rb),
          (Bank (adl_getBank h (as_ptr ra) 1 (as_ptr rb)), 0),
          (malloc SIZEOF_ADL_INSTRUMENT, rc),
          (Bank (adl_getInstrument h (as_ptr rb) prog (as_ptr rc)), 0),
          (free (as_ptr ra), rf1), (free (as_ptr rb), rf2), (free (as_ptr rc), rf3)]"
      "res = \<lparr> success = True, result_instrument = Some i, result_error = None \<rparr>"
      "decodeInstrument bytes = Inr i"
proof -
  from live obtain m0 where m0: "adl p = Some m0" by auto
  obtain ra p1 where e1: "proc_invoke M (malloc 4) p = (ra, p1)" by force
  note s1 = proc_invoke_effect [OF live e1]
  show thesis
  proof (cases bankId)
    case None
    have "history p' = history p @ [(malloc 4, ra)]" "\<not> success res" "result_instrument res = None"
      using m0 e1 s1 None
      by (simp_all add: p'_def res_def proc_getInstrument_def failure_def)
    then show thesis by (rule no_bank_id)
  next
    case (Some bid)
    define p2 where "p2 = with_machine
        (write_bank_id (as_ptr ra) (if is_truthy (percussive bid) then 1 else 0) bid) p1"
    note s2 = with_machine_write_bank_id [OF s1(3), of "as_ptr ra"
        "if is_truthy (percussive bid) then 1 else 0" bid, folded p2_def]
    obtain rb p3 where e3: "proc_invoke M (malloc SIZEOF_ADL_BANK) p2 = (rb, p3)" by force
    note s3 = proc_invoke_effect [OF s2(3) e3]
    obtain r1 p4 where
      e4: "proc_invoke M (Bank (adl_getBank (midi p3) (as_ptr ra) 1 (as_ptr rb))) p3 = (r1, p4)"
      by force
    note s4 = proc_invoke_effect [OF s3(3) e4]
    have hh: "midi p3 = h" "midi p4 = h"
      using s1 s2 s3 s4 by (simp_all add: h_def)
    show thesis
    proof (cases "r1 = 0")
      case False
      obtain rf1 where f1: "history (proc_do M (free (as_ptr ra)) p4) = history p4 @ [(free (as_ptr ra), rf1)]"
          "adl (proc_do M (free (as_ptr ra)) p4) \<noteq> None"
        using proc_do_effect [OF s4(3)] by metis
      obtain rf2 where f2: "history (proc_do M (free (as_ptr rb)) (proc_do M (free (as_ptr ra)) p4)) =
          history (proc_do M (free (as_ptr ra)) p4) @ [(free (as_ptr rb), rf2)]"
        using proc_do_effect [OF f1(2)] by metis
      have "history p' = history p @
         [(malloc 4, ra), (malloc SIZEOF_ADL_BANK, rb),
          (Bank (adl_getBank h (as_ptr ra) 1 (as_ptr rb)), r1),
          (free (as_ptr ra), rf1), (free (as_ptr rb), rf2)]"
        "res = failure ''Failed to get bank''"
        using m0 e1 e3 e4 Some False s1 s2 s3 s4 f1 f2 hh
        by (simp_all add: p'_def res_def proc_getInstrument_def Let_def p2_def [symmetric])
      with False show thesis by (rule bank_failed)
    next
      case True
      obtain rc p5 where e5: "proc_invoke M (malloc SIZEOF_ADL_INSTRUMENT) p4 = (rc, p5)" by force
      note s5 = proc_invoke_effect [OF s4(3) e5]
      obtain r2 p6 where
        e6: "proc_invoke M (Bank (adl_getInstrument (midi p5) (as_ptr rb) prog (as_ptr rc))) p5 = (r2, p6)"
        by force
      note s6 = proc_invoke_effect [OF s5(3) e6]
      have h5: "midi p5 = h" "midi p6 = h" using s5 s6 hh by simp_all
      from s6(3) obtain m6 where m6: "adl p6 = Some m6" by auto
      have hist6: "history p6 = history p @
         [(malloc 4, ra), (malloc SIZEOF_ADL_BANK, rb),
          (Bank (adl_getBank h (as_ptr ra) 1 (as_ptr rb)), 0),
          (malloc SIZEOF_ADL_INSTRUMENT, rc),
          (Bank (adl_getInstrument h (as_ptr rb) prog (as_ptr rc)), r2)]"
        using s1 s2 s3 s4 s5 s6 hh h5 True by simp
      obtain rf1 where f1: "history (proc_do M (free (as_ptr ra)) p6) = history p6 @ [(free (as_ptr ra), rf1)]"
          "adl (proc_do M (free (as_ptr ra)) p6) \<noteq> None"
        using proc_do_effect [OF s6(3)] by metis
      obtain rf2 where f2: "history (proc_do M (free (as_ptr rb)) (proc_do M (free (as_ptr ra)) p6)) =
          history (proc_do M (free (as_ptr ra)) p6) @ [(free (as_ptr rb), rf2)]"
          "adl (proc_do M (free (as_ptr rb)) (proc_do M (free (as_ptr ra)) p6)) \<noteq> None"
        using proc_do_effect [OF f1(2)] by metis
      obtain rf3 where f3: "history (proc_do M (free (as_ptr rc))
            (proc_do M (free (as_ptr rb)) (proc_do M (free (as_ptr ra)) p6))) =
          history (proc_do M (free (as_ptr rb)) (proc_do M (free (as_ptr ra)) p6)) @ [(free (as_ptr rc), rf3)]"
        using proc_do_effect [OF f2(2)] by metis
      define bytes where "bytes = HEAPU8_slice m6 (as_ptr rc) (as_ptr rc + SIZEOF_ADL_INSTRUMENT)"
      show thesis
      proof (cases "r2 = 0")
        case False
        have "history p' = history p6 @
            [(free (as_ptr ra), rf1), (free (as_ptr rb), rf2), (free (as_ptr rc), rf3)]"
          "res = failure ''Failed to get instrument''"
          using m0 e1 e3 e4 e5 e6 Some \<open>r1 = 0\<close> False f1 f2 f3 h5
          by (simp_all add: p'_def res_def proc_getInstrument_def Let_def p2_def [symmetric])
        with hist6 False show thesis
          by (intro read_failed [of r2 ra rb rc rf1 rf2 rf3]) simp_all
      next
        case True
        show thesis
        proof (cases "decodeInstrument bytes")
          case (Inl e)
          have "history p' = history p6" "\<not> success res" "result_instrument res = None"
            using m0 e1 e3 e4 e5 e6 Some \<open>r1 = 0\<close> True h5 m6 Inl
            by (simp_all add: p'_def res_def proc_getInstrument_def Let_def p2_def [symmetric]
                bytes_def [symmetric] failure_def)
          with hist6 True show thesis
            by (intro raised [of ra rb rc]) simp_all
        next
          case (Inr i)
          have "history p' = history p6 @
              [(free (as_ptr ra), rf1), (free (as_ptr rb), rf2), (free (as_ptr rc), rf3)]"
            "res = \<lparr> success = True, result_instrument = Some i, result_error = None \<rparr>"
            using m0 e1 e3 e4 e5 e6 Some \<open>r1 = 0\<close> True f1 f2 f3 h5 m6 Inr
            by (simp_all add: p'_def res_def proc_getInstrument_def Let_def p2_def [symmetric]
                bytes_def [symmetric])
          with hist6 True Inr show thesis
            by (intro decoded [of ra rb rc rf1 rf2 rf3 i bytes]) simp_all
        qed
      qed
    qed
  qed
qed


lemma core_getInstrument_cases:
  fixes M :: "'e module" and c :: "'e core"
    and bankId :: "bank_id option" and prog :: int
  assumes init: "player c \<noteq> 0"
  defines "out \<equiv> fst (core_getInstrument M bankId prog c)"
  defines "c' \<equiv> snd (core_getInstrument M bankId prog c)"
  defines "h \<equiv> player c"
  obtains
    (no_bank_id) ra where
      "calls (module c') = calls (module c) @ [(malloc SIZEOF_ADL_BANK_ID, ra)]" "out = Inl TypeError"
  | (bank_failed) ra rb r1 rf1 rf2 where "r1 \<noteq> 0"
      "calls (module c') = calls (module c) @
         [(malloc SIZEOF_ADL_BANK_ID, ra), (malloc SIZEOF_ADL_BANK, rb),
          (Bank (adl_getBank h (as_ptr ra) 1 (as_ptr rb)), r1),
          (free (as_ptr ra), rf1), (free (as_ptr rb), rf2)]"
      "out = Inr None"
  | (read_failed) ra rb rc r2 rf1 rf2 rf3 where "r2 \<noteq> 0"
      "calls (module c') = calls (module c) @
         [(malloc SIZEOF_ADL_BANK_ID, ra), (malloc SIZEOF_ADL_BANK, rb),
          (Bank (adl_getBank h (as_ptr ra) 1 (as_ptr rb)), 0),
          (malloc SIZEOF_ADL_INSTRUMENT, rc),
          (Bank (adl_getInstrument h (as_ptr rb) prog (as_ptr rc)), r2),
          (free (as_ptr rc), rf3), (free (as_ptr ra), rf1), (free (as_ptr rb), rf2)]"
      "out = Inr None"
  | (raised) ra rb rc e where
      "calls (module c') = calls (module c) @
         [(malloc SIZEOF_ADL_BANK_ID, ra), (malloc SIZEOF_ADL_BANK, rb),
          (Bank (adl_getBank h (as_ptr ra) 1 (as_ptr rb)), 0),
          (malloc SIZEOF_ADL_INSTRUMENT, rc),
          (Bank (adl_getInstrument h (as_ptr rb) prog (as_ptr rc)), 0)]"
      "out = Inl e"
  | (decoded) ra rb rc rf1 rf2 rf3 i bytes where
      "calls (module c') = calls (module c) @
         [(malloc SIZEOF_ADL_BANK_ID, ra), (malloc SIZEOF_ADL_BANK, rb),
          (Bank (adl_getBank h (as_ptr ra) 1 (as_ptr rb)), 0),
          (malloc SIZEOF_ADL_INSTRUMENT, rc),
          (Bank (adl_getInstrument h (as_ptr rb) prog (as_ptr rc)), 0),
          (free (as_ptr rc), rf3), (free (as_ptr ra), rf1), (free (as_ptr rb), rf2)]"
      "out = Inr (Some i)" "decodeInstrument bytes = Inr i"
proof -
  have ep: "ensurePlayer c = None" using init by (simp add: ensurePlayer_def)
  obtain ra c1 where e1: "core_invoke M (malloc SIZEOF_ADL_BANK_ID) c = (ra, c1)" by force
  note s1 = core_invoke_effect(1,2) [OF e1]
  show thesis
  proof (cases bankId)
    case None
    have "calls (module c') = calls (module c) @ [(malloc SIZEOF_ADL_BANK_ID, ra)]" "out = Inl TypeError"
      using ep e1 s1 None by (simp_all add: c'_def out_def core_getInstrument_def)
    then show thesis by (rule no_bank_id)
  next
    case (Some bid)
    define c2 where "c2 = c1 \<lparr> module := write_bank_id (as_ptr ra) (or0 (percussive bid)) bid (module c1) \<rparr>"
    note s2 = core_write_bank_id [where c = c1 and a = "as_ptr ra" and v = "or0 (percussive bid)"
        and b = bid, folded c2_def]
    obtain rb c3 where e3: "core_invoke M (malloc SIZEOF_ADL_BANK) c2 = (rb, c3)" by force
    note s3 = core_invoke_effect(1,2) [OF e3]
    obtain r1 c4 where
      e4: "core_invoke M (Bank (adl_getBank (player c3) (as_ptr ra) 1 (as_ptr rb))) c3 = (r1, c4)"
      by force
    note s4 = core_invoke_effect(1,2) [OF e4]
    have hh: "player c3 = h" "player c4 = h"
      using s1 s2 s3 s4 by (simp_all add: h_def)
    have hist4: "calls (module c4) = calls (module c) @
         [(malloc SIZEOF_ADL_BANK_ID, ra), (malloc SIZEOF_ADL_BANK, rb),
          (Bank (adl_getBank h (as_ptr ra) 1 (as_ptr rb)), r1)]"
      using s1 s2 s3 s4 hh by simp
    show thesis
    proof (cases "r1 = 0")
      case False
      obtain rf1 where f1: "calls (module (snd (core_invoke M (free (as_ptr ra)) c4))) =
          calls (module c4) @ [(free (as_ptr ra), rf1)]"
        by (rule core_do_effect)
      obtain rf2 where f2: "calls (module (snd (core_invoke M (free (as_ptr rb))
            (snd (core_invoke M (free (as_ptr ra)) c4))))) =
          calls (module (snd (core_invoke M (free (as_ptr ra)) c4))) @ [(free (as_ptr rb), rf2)]"
        by (rule core_do_effect)
      have "calls (module c') = calls (module c4) @ [(free (as_ptr ra), rf1), (free (as_ptr rb), rf2)]"
        "out = Inr None"
        using ep e1 e3 e4 Some False f1 f2
        by (simp_all add: c'_def out_def core_getInstrument_def Let_def c2_def [symmetric])
      with hist4 False show thesis
        by (intro bank_failed [of r1 ra rb rf1 rf2]) simp_all
    next
      case True
      obtain rc c5 where e5: "core_invoke M (malloc SIZEOF_ADL_INSTRUMENT) c4 = (rc, c5)" by force
      note s5 = core_invoke_effect(1,2) [OF e5]
      obtain r2 c6 where
        e6: "core_invoke M (Bank (adl_getInstrument (player c5) (as_ptr rb) prog (as_ptr rc))) c5 = (r2, c6)"
        by force
      note s6 = core_invoke_effect(1,2) [OF e6]
      have h5: "player c5 = h" using s5 hh by simp
      have hist6: "calls (module c6) = calls (module c) @
         [(malloc SIZEOF_ADL_BANK_ID, ra), (malloc SIZEOF_ADL_BANK, rb),
          (Bank (adl_getBank h (as_ptr ra) 1 (as_ptr rb)), 0),
          (malloc SIZEOF_ADL_INSTRUMENT, rc),
          (Bank (adl_getInstrument h (as_ptr rb) prog (as_ptr rc)), r2)]"
        using hist4 s5 s6 h5 True by simp
      obtain rf3 where f3: "calls (module (snd (core_invoke M (free (as_ptr rc)) c6))) =
          calls (module c6) @ [(free (as_ptr rc), rf3)]"
        by (rule core_do_effect)
      obtain rf1 where f1: "calls (module (snd (core_invoke M (free (as_ptr ra))
            (snd (core_invoke M (free (as_ptr rc)) c6))))) =
          calls (module (snd (core_invoke M (free (as_ptr rc)) c6))) @ [(free (as_ptr ra), rf1)]"
        by (rule core_do_effect)
      obtain rf2 where f2: "calls (module (snd (core_invoke M (free (as_ptr rb))
            (snd (core_invoke M (free (as_ptr ra)) (snd (core_invoke M (free (as_ptr rc)) c6))))))) =
          calls (module (snd (core_invoke M (free (as_ptr ra))
            (snd (core_invoke M (free (as_ptr rc)) c6))))) @ [(free (as_ptr rb), rf2)]"
        by (rule core_do_effect)
      define bytes where "bytes = HEAPU8_slice (module c6) (as_ptr rc) (as_ptr rc + SIZEOF_ADL_INSTRUMENT)"
      show thesis
      proof (cases "r2 = 0")
        case False
        have "calls (module c') = calls (module c6) @
            [(free (as_ptr rc), rf3), (free (as_ptr ra), rf1), (free (as_ptr rb), rf2)]"
          "out = Inr None"
          using ep e1 e3 e4 e5 e6 Some \<open>r1 = 0\<close> False f1 f2 f3
          by (simp_all add: c'_def out_def core_getInstrument_def Let_def c2_def [symmetric])
        with hist6 False show thesis
          by (intro read_failed [of r2 ra rb rc rf3 rf1 rf2]) simp_all
      next
        case True
        show thesis
        proof (cases "decodeInstrument bytes")
          case (Inl e)
          have "calls (module c') = calls (module c6)" "out = Inl e"
            using ep e1 e3 e4 e5 e6 Some \<open>r1 = 0\<close> True Inl
            by (simp_all add: c'_def out_def core_getInstrument_def Let_def c2_def [symmetric]
                bytes_def [symmetric])
          with hist6 True show thesis
            by (intro raised [of ra rb rc e]) simp_all
        next
          case (Inr i)
          have "calls (module c') = calls (module c6) @
              [(free (as_ptr rc), rf3), (free (as_ptr ra), rf1), (free (as_ptr rb), rf2)]"
            "out = Inr (Some i)"
            using ep e1 e3 e4 e5 e6 Some \<open>r1 = 0\<close> True Inr f1 f2 f3
            by (simp_all add: c'_def out_def core_getInstrument_def Let_def c2_def [symmetric]
                bytes_def [symmetric])
          with hist6 True Inr show thesis
            by (intro decoded [of ra rb rc rf3 rf1 rf2 i bytes]) simp_all
        qed
      qed
    qed
  qed
qed

subsection \<open>When an instrument is returned\<close>

text \<open>
  C8. When the bank resolution \<^verbatim>\<open>adl_getBank\<close> or the read \<^verbatim>\<open>adl_getInstrument\<close> returns
  a status other than 0, \<^verbatim>\<open>getInstrument\<close> of the processor returns a result with
  \<open>success\<close> false and no instrument, and \<^verbatim>\<open>getInstrument\<close> of AdlMidiCore returns null.
  An instrument is returned only when each of the two calls was made once and returned
  0, and it is then the full decoding of a byte block.
\<close>

theorem getInstrument_not_found_on_failure:
  fixes M :: "'e module" and p :: "'e processor" and c :: "'e core"
    and bankId :: "bank_id option" and prog :: int
  defines "res \<equiv> fst (proc_getInstrument M bankId prog p)"
  defines "new \<equiv> since (history p) (history (snd (proc_getInstrument M bankId prog p)))"
  defines "out \<equiv> fst (core_getInstrument M bankId prog c)"
  defines "new_core \<equiv>
    since (calls (module c)) (calls (module (snd (core_getInstrument M bankId prog c))))"
  shows "(((\<exists>r \<in> set (statuses is_getBank new). r \<noteq> 0) \<or>
           (\<exists>r \<in> set (statuses is_getInstrument new). r \<noteq> 0) \<longrightarrow>
             \<not> success res \<and> result_instrument res = None) \<and>
          (success res \<or> result_instrument res \<noteq> None \<longrightarrow>
             statuses is_getBank new = [0] \<and> statuses is_getInstrument new = [0] \<and>
             success res \<and>
             (\<exists>bytes i. result_instrument res = Some i \<and> decodeInstrument bytes = Inr i))) \<and>
         (((\<exists>r \<in> set (statuses is_getBank new_core). r \<noteq> 0) \<or>
           (\<exists>r \<in> set (statuses is_getInstrument new_core). r \<noteq> 0) \<longrightarrow>
             out = Inr None) \<and>
          (\<forall>i. out = Inr (Some i) \<longrightarrow>
             statuses is_getBank new_core = [0] \<and> statuses is_getInstrument new_core = [0] \<and>
             (\<exists>bytes. decodeInstrument bytes = Inr i)))"
proof (rule conjI)
  show "((\<exists>r \<in> set (statuses is_getBank new). r \<noteq> 0) \<or>
           (\<exists>r \<in> set (statuses is_getInstrument new). r \<noteq> 0) \<longrightarrow>
             \<not> success res \<and> result_instrument res = None) \<and>
          (success res \<or> result_instrument res \<noteq> None \<longrightarrow>
             statuses is_getBank new = [0] \<and> statuses is_getInstrument new = [0] \<and>
             success res \<and>
             (\<exists>bytes i. result_instrument res = Some i \<and> decodeInstrument bytes = Inr i))"
  proof (cases "adl p = None")
    case True
    then show ?thesis
      unfolding res_def new_def
      by (simp add: proc_getInstrument_def failure_def since_def)
  next
    case False
    show ?thesis
      unfolding res_def new_def
      by (cases rule: proc_getInstrument_cases [OF False, of M bankId prog])
         (auto simp add: failure_def)
  qed
  show "((\<exists>r \<in> set (statuses is_getBank new_core). r \<noteq> 0) \<or>
           (\<exists>r \<in> set (statuses is_getInstrument new_core). r \<noteq> 0) \<longrightarrow>
             out = Inr None) \<and>
          (\<forall>i. out = Inr (Some i) \<longrightarrow>
             statuses is_getBank new_core = [0] \<and> statuses is_getInstrument new_core = [0] \<and>
             (\<exists>bytes. decodeInstrument bytes = Inr i))"
  proof (cases "player c = 0")
    case True
    then show ?thesis
      unfolding out_def new_core_def
      by (simp add: core_getInstrument_def ensurePlayer_def since_def)
  next
    case False
    show ?thesis
      unfolding out_def new_core_def
      by (cases rule: core_getInstrument_cases [OF False, of M bankId prog])
         (auto simp add: SIZEOF_ADL_BANK_ID_def)
  qed
qed

lemma demo_getInstrument_processor:
  "proc_getInstrument (answering is_getBank (- 1) demo_module) (Some demo_bank) 0 demo_processor =
     (failure ''Failed to get bank'',
      demo_processor \<lparr> adl := Some
        \<lparr> wasm = (wasm demo_machine)
                   \<lparr> HEAPU8 := (HEAPU8 (wasm demo_machine)) [16 := 0, 17 := 0, 18 := 0] \<rparr>,
          calls = [(malloc 4, 16), (malloc SIZEOF_ADL_BANK, 16),
                   (Bank (adl_getBank 1 16 1 16), - 1), (free 16, 0), (free 16, 0)] \<rparr> \<rparr>)"
  by (simp add: proc_getInstrument_def proc_invoke_def proc_do_def invoke_def with_machine_def
      write_bank_id_def HEAPU8_store_def answering_def demo_module_def
      demo_processor_def demo_machine_simps demo_bank_def as_ptr_def is_truthy_def or0_def
      SIZEOF_ADL_BANK_def Let_def)

lemma demo_getInstrument_core:
  "core_getInstrument (answering is_getInstrument 7 demo_module) (Some demo_bank) 0 demo_core =
     (Inr None,
      demo_core \<lparr> module :=
        \<lparr> wasm = (wasm demo_machine)
                   \<lparr> HEAPU8 := (HEAPU8 (wasm demo_machine)) [16 := 0, 17 := 0, 18 := 0] \<rparr>,
          calls = [(malloc SIZEOF_ADL_BANK_ID, 16), (malloc SIZEOF_ADL_BANK, 16),
                   (Bank (adl_getBank 1 16 1 16), 0), (malloc SIZEOF_ADL_INSTRUMENT, 16),
                   (Bank (adl_getInstrument 1 16 0 16), 7),
                   (free 16, 0), (free 16, 0), (free 16, 0)] \<rparr> \<rparr>)"
  by (simp add: core_getInstrument_def core_invoke_def invoke_def ensurePlayer_def
      write_bank_id_def HEAPU8_store_def answering_def demo_module_def
      demo_core_def demo_machine_simps demo_bank_def as_ptr_def or0_def
      SIZEOF_ADL_INSTRUMENT_def SIZEOF_ADL_BANK_def Let_def)

theorem getInstrument_not_found_on_failure_witness:
  "\<not> success (fst (proc_getInstrument (answering is_getBank (- 1) demo_module)
                    (Some demo_bank) 0 demo_processor)) \<and>
   result_instrument (fst (proc_getInstrument (answering is_getBank (- 1) demo_module)
                    (Some demo_bank) 0 demo_processor)) = None \<and>
   fst (core_getInstrument (answering is_getInstrument 7 demo_module)
          (Some demo_bank) 0 demo_core) = Inr None"
proof -
  have bank: "\<exists>r \<in> set (statuses is_getBank (since (history demo_processor)
      (history (snd (proc_getInstrument (answering is_getBank (- 1) demo_module)
                       (Some demo_bank) 0 demo_processor))))). r \<noteq> 0"
    by (simp add: demo_getInstrument_processor history_def since_def)
       (simp add: demo_processor_def demo_machine_simps)
  have read: "\<exists>r \<in> set (statuses is_getInstrument (since (calls (module demo_core))
      (calls (module (snd (core_getInstrument (answering is_getInstrument 7 demo_module)
                       (Some demo_bank) 0 demo_core)))))). r \<noteq> 0"
    by (simp add: demo_getInstrument_core since_def SIZEOF_ADL_BANK_ID_def)
       (simp add: demo_core_def demo_machine_simps)
  from getInstrument_not_found_on_failure
      [where M = "answering is_getBank (- 1) demo_module" and p = demo_processor
         and bankId = "Some demo_bank" and prog = 0 and c = demo_core] bank
  have a: "\<not> success (fst (proc_getInstrument (answering is_getBank (- 1) demo_module)
                    (Some demo_bank) 0 demo_processor)) \<and>
     result_instrument (fst (proc_getInstrument (answering is_getBank (- 1) demo_module)
                    (Some demo_bank) 0 demo_processor)) = None"
    by blast
  from getInstrument_not_found_on_failure
      [where M = "answering is_getInstrument 7 demo_module" and p = demo_processor
         and bankId = "Some demo_bank" and prog = 0 and c = demo_core] read
  have b: "fst (core_getInstrument (answering is_getInstrument 7 demo_module)
          (Some demo_bank) 0 demo_core) = Inr None"
    by blast
  show ?thesis
    using a b by simp
qed

section \<open>AdlMidiCore\<close>

subsection \<open>Rendering\<close>














section \<open>The control side\<close>

subsection \<open>One-shot handlers\<close>

lemma registry_ok_new: "registry_ok new_AdlMidi"
  by (simp add: registry_ok_def live_def entries_def new_AdlMidi_def)

lemma live_onceMessage:
  "live (onceMessage t h st) t' w \<longleftrightarrow>
     live st t' w \<or> (t' = t \<and> w = \<lparr> rid = next_closure st, wtype = t, whandler = h \<rparr>)"
  by (auto simp add: live_def entries_def onceMessage_def Let_def split: option.splits if_splits)

lemma onceMessage_fields [simp]:
  "next_closure (onceMessage t h st) = next_closure st + 1"
  "invoked (onceMessage t h st) = invoked st"
  by (simp_all add: onceMessage_def Let_def split: option.splits)

lemma registry_okD:
  assumes "registry_ok st"
  shows "live st t w \<Longrightarrow> rid w < next_closure st"
    and "live st t w \<Longrightarrow> wtype w = t"
    and "live st t w \<Longrightarrow> rid w \<notin> fst ` set (invoked st)"
    and "live st t w \<Longrightarrow> live st t' w' \<Longrightarrow> rid w = rid w' \<Longrightarrow> t = t'"
    and "r \<in> fst ` set (invoked st) \<Longrightarrow> r < next_closure st"
    and "distinct (map fst (invoked st))"
proof -
  from assms have a: "\<forall>t w. live st t w \<longrightarrow>
        rid w < next_closure st \<and> wtype w = t \<and> rid w \<notin> fst ` set (invoked st)"
    and b: "\<forall>t t' w w'. live st t w \<longrightarrow> live st t' w' \<longrightarrow> rid w = rid w' \<longrightarrow> t = t'"
    and c: "\<forall>r \<in> fst ` set (invoked st). r < next_closure st"
    and d: "distinct (map fst (invoked st))"
    unfolding registry_ok_def by simp_all
  from a show "live st t w \<Longrightarrow> rid w < next_closure st" by simp
  from a show "live st t w \<Longrightarrow> wtype w = t" by simp
  from a show "live st t w \<Longrightarrow> rid w \<notin> fst ` set (invoked st)" by simp
  from b show "live st t w \<Longrightarrow> live st t' w' \<Longrightarrow> rid w = rid w' \<Longrightarrow> t = t'" by simp
  from c show "r \<in> fst ` set (invoked st) \<Longrightarrow> r < next_closure st" by auto
  from d show "distinct (map fst (invoked st))" .
qed

lemma registry_okI:
  assumes "\<And>t w. live st t w \<Longrightarrow> rid w < next_closure st"
    and "\<And>t w. live st t w \<Longrightarrow> wtype w = t"
    and "\<And>t w. live st t w \<Longrightarrow> rid w \<notin> fst ` set (invoked st)"
    and "\<And>t t' w w'. live st t w \<Longrightarrow> live st t' w' \<Longrightarrow> rid w = rid w' \<Longrightarrow> t = t'"
    and "\<And>r. r \<in> fst ` set (invoked st) \<Longrightarrow> r < next_closure st"
    and "distinct (map fst (invoked st))"
  shows "registry_ok st"
  unfolding registry_ok_def
proof (intro conjI allI impI ballI)
  fix t w assume "live st t w"
  then show "rid w < next_closure st" "wtype w = t" "rid w \<notin> fst ` set (invoked st)"
    by (rule assms)+
next
  fix t t' w w' assume "live st t w" "live st t' w'" "rid w = rid w'"
  then show "t = t'" by (rule assms(4))
next
  fix r assume "r \<in> fst ` set (invoked st)"
  then show "r < next_closure st" by (rule assms(5))
next
  show "distinct (map fst (invoked st))" by (rule assms(6))
qed

lemma registry_ok_onceMessage:
  assumes ok: "registry_ok st"
  shows "registry_ok (onceMessage t h st)"
proof (rule registry_okI)
  fix t' w assume l: "live (onceMessage t h st) t' w"
  then consider "live st t' w" | "t' = t" "w = \<lparr> rid = next_closure st, wtype = t, whandler = h \<rparr>"
    by (auto simp add: live_onceMessage)
  note cases1 = this
  show "rid w < next_closure (onceMessage t h st)"
    using cases1 registry_okD(1) [OF ok] by cases (fastforce, simp)
  show "wtype w = t'"
    using cases1 registry_okD(2) [OF ok] by cases (fastforce, simp)
  show "rid w \<notin> fst ` set (invoked (onceMessage t h st))"
  proof (cases rule: cases1)
    case 1
    then show ?thesis using registry_okD(3) [OF ok] by simp
  next
    case 2
    then show ?thesis using registry_okD(5) [OF ok, of "next_closure st"] by auto
  qed
next
  fix t1 t2 w1 w2
  assume l1: "live (onceMessage t h st) t1 w1" and l2: "live (onceMessage t h st) t2 w2"
    and eq: "rid w1 = rid w2"
  from l1 consider (old1) "live st t1 w1" | (new1) "t1 = t" "rid w1 = next_closure st"
    by (auto simp add: live_onceMessage)
  then show "t1 = t2"
  proof cases
    case old1
    from l2 consider (old2) "live st t2 w2" | (new2) "t2 = t" "rid w2 = next_closure st"
      by (auto simp add: live_onceMessage)
    then show ?thesis
    proof cases
      case old2
      with old1 eq show ?thesis using registry_okD(4) [OF ok] by blast
    next
      case new2
      with old1 eq registry_okD(1) [OF ok old1] show ?thesis by simp
    qed
  next
    case new1
    from l2 consider (old2) "live st t2 w2" | (new2) "t2 = t" "rid w2 = next_closure st"
      by (auto simp add: live_onceMessage)
    then show ?thesis
    proof cases
      case old2
      with new1 eq registry_okD(1) [OF ok old2] show ?thesis by simp
    next
      case new2
      with new1 show ?thesis by simp
    qed
  qed
next
  fix r assume "r \<in> fst ` set (invoked (onceMessage t h st))"
  then show "r < next_closure (onceMessage t h st)"
    using registry_okD(5) [OF ok, of r] by simp
next
  show "distinct (map fst (invoked (onceMessage t h st)))"
    using registry_okD(6) [OF ok] by simp
qed

lemma registry_ok_other_fields [simp]:
  "registry_ok (st \<lparr> timers := ts \<rparr>) = registry_ok st"
  "registry_ok (st \<lparr> is_ready := b \<rparr>) = registry_ok st"
  "registry_ok (st \<lparr> promises := ps \<rparr>) = registry_ok st"
  "registry_ok (st \<lparr> posted := ms \<rparr>) = registry_ok st"
  by (simp_all add: registry_ok_def live_def entries_def)

lemma registry_ok_command:
  assumes "registry_ok st"
  shows "registry_ok (run_commands [c] st)"
  using assms
  by (cases c)
     (simp_all add: clearTimeout_def settle_def send_def registry_ok_onceMessage
        split: option.splits)

lemma run_commands_Cons: "run_commands (c # cs) st = run_commands cs (run_commands [c] st)"
  by (cases c) simp_all

lemma registry_ok_run_commands:
  assumes "registry_ok st"
  shows "registry_ok (run_commands cs st)"
  using assms
proof (induction cs arbitrary: st)
  case Nil
  then show ?case by simp
next
  case (Cons c cs)
  from Cons.IH [OF registry_ok_command [OF Cons.prems, of c]]
  show ?case by (simp add: run_commands_Cons [of c cs st])
qed

lemma in_delete_entry:
  "Some w' \<in> set (delete_entry r es) \<longleftrightarrow> Some w' \<in> set es \<and> rid w' \<noteq> r"
  by (induction es) (auto simp add: delete_entry_def split: option.splits)

lemma call_wrapped_unregistered:
  "call_wrapped beh w m st = run_commands (beh (whandler w) m) (unregistered w m st)"
  by (simp add: call_wrapped_def unregistered_def Let_def split: option.splits)

lemma live_unregistered:
  "live (unregistered w m st) t w' \<longleftrightarrow> live st t w' \<and> \<not> (t = wtype w \<and> rid w' = rid w)"
  by (auto simp add: live_def entries_def unregistered_def in_delete_entry split: option.splits if_splits)

lemma unregistered_fields [simp]:
  "next_closure (unregistered w m st) = next_closure st"
  "invoked (unregistered w m st) = invoked st @ [(rid w, m)]"
  by (simp_all add: unregistered_def split: option.splits)

lemma registry_ok_unregistered:
  assumes ok: "registry_ok st" and l: "live st t w"
  shows "registry_ok (unregistered w m st)"
    and "\<And>t' w'. live (unregistered w m st) t' w' \<Longrightarrow> rid w' \<noteq> rid w"
proof -
  have wt: "wtype w = t" using registry_okD(2) [OF ok l] .
  show gone: "rid w' \<noteq> rid w" if "live (unregistered w m st) t' w'" for t' w'
  proof
    assume eq: "rid w' = rid w"
    from that have l': "live st t' w'" and ne: "\<not> (t' = wtype w \<and> rid w' = rid w)"
      by (simp_all add: live_unregistered)
    from registry_okD(4) [OF ok l' l eq] wt have "t' = wtype w" by simp
    with ne eq show False by simp
  qed
  show "registry_ok (unregistered w m st)"
  proof (rule registry_okI)
    fix t' w' assume l': "live (unregistered w m st) t' w'"
    then have old: "live st t' w'" by (simp add: live_unregistered)
    show "rid w' < next_closure (unregistered w m st)"
      using registry_okD(1) [OF ok old] by simp
    show "wtype w' = t'"
      using registry_okD(2) [OF ok old] .
    show "rid w' \<notin> fst ` set (invoked (unregistered w m st))"
      using registry_okD(3) [OF ok old] gone [OF l'] by auto
  next
    fix t1 t2 w1 w2
    assume "live (unregistered w m st) t1 w1" "live (unregistered w m st) t2 w2" "rid w1 = rid w2"
    then show "t1 = t2"
      using registry_okD(4) [OF ok, of t1 w1 t2 w2] by (simp add: live_unregistered)
  next
    fix r assume "r \<in> fst ` set (invoked (unregistered w m st))"
    then show "r < next_closure (unregistered w m st)"
      using registry_okD(5) [OF ok, of r] registry_okD(1) [OF ok l] by auto
  next
    show "distinct (map fst (invoked (unregistered w m st)))"
      using registry_okD(6) [OF ok] registry_okD(3) [OF ok l] by simp
  qed
qed

lemma registry_ok_call_wrapped:
  assumes "registry_ok st" and "live st t w"
  shows "registry_ok (call_wrapped beh w m st)"
  unfolding call_wrapped_unregistered
  by (rule registry_ok_run_commands) (rule registry_ok_unregistered(1) [OF assms])

lemma live_entry:
  assumes "i < length (entries st t)" "entries st t ! i = Some w"
  shows "live st t w"
  using assms by (auto simp add: live_def dest: nth_mem)

lemma registry_ok_forEach:
  assumes "registry_ok st" and "forEach beh fuel i m st = Some st'"
  shows "registry_ok st'"
  using assms
proof (induction beh fuel i m st rule: forEach.induct)
  case (1 beh fuel i m st)
  show ?case
  proof (cases "length (entries st (mtype m)) \<le> i")
    case True
    with "1.prems" show ?thesis by (simp add: forEach.simps [of beh fuel i m st])
  next
    case False
    show ?thesis
    proof (cases "entries st (mtype m) ! i")
      case None
      with False "1.prems" "1.IH"(1) show ?thesis
        by (simp add: forEach.simps [of beh fuel i m st])
    next
      case (Some w)
      with False have l: "live st (mtype m) w" by (intro live_entry [of i]) simp_all
      show ?thesis
      proof (cases fuel)
        case 0
        with False Some "1.prems" show ?thesis
          by (simp add: forEach.simps [of beh fuel i m st])
      next
        case (Suc fuel')
        with False Some "1.prems"(2)
        have "forEach beh fuel' (i + 1) m (call_wrapped beh w m st) = Some st'"
          by (simp add: forEach.simps [of beh fuel i m st])
        with "1.IH"(2) [OF False Some Suc registry_ok_call_wrapped [OF "1.prems"(1) l]]
        show ?thesis by simp
      qed
    qed
  qed
qed

lemma registry_ok_handleMessage:
  assumes "registry_ok st" and "AdlMidi_handleMessage beh fuel m st = Some st'"
  shows "registry_ok st'"
proof (cases "messageHandlers st (mtype m)")
  case None
  with assms show ?thesis by (simp add: AdlMidi_handleMessage_def)
next
  case (Some handlers)
  with assms(2) have "forEach beh fuel 0 m st = Some st'"
    by (simp add: AdlMidi_handleMessage_def)
  then show ?thesis by (rule registry_ok_forEach [OF assms(1)])
qed

lemma registry_ok_timer_fires:
  assumes "registry_ok st"
  shows "registry_ok (timer_fires t st)"
proof (cases "timers st t")
  case None
  with assms show ?thesis by (simp add: timer_fires_def)
next
  case (Some dc)
  obtain delay callback where "dc = (delay, callback)" by (cases dc)
  with Some have "timer_fires t st = run_commands callback (clearTimeout t st)"
    by (simp add: timer_fires_def)
  moreover have "registry_ok (clearTimeout t st)"
    using assms by (simp add: clearTimeout_def)
  ultimately show ?thesis by (simp add: registry_ok_run_commands)
qed

lemma registry_ok_step:
  assumes "registry_ok st" and "step beh fuel e st = Some st'"
  shows "registry_ok st'"
proof (cases e)
  case (Deliver m)
  with assms(2) have "AdlMidi_handleMessage beh fuel m st = Some st'" by simp
  then show ?thesis by (rule registry_ok_handleMessage [OF assms(1)])
next
  case (TimerFires t)
  with assms(2) have "st' = timer_fires t st" by simp
  then show ?thesis by (simp add: registry_ok_timer_fires [OF assms(1)])
qed

lemma registry_ok_act:
  assumes "registry_ok st" and "act beh fuel a st = Some st'"
  shows "registry_ok st'"
proof (cases a)
  case (Method cs)
  with assms(2) have "st' = run_commands cs st" by simp
  then show ?thesis by (simp add: registry_ok_run_commands [OF assms(1)])
next
  case (Event e)
  with assms(2) have "step beh fuel e st = Some st'" by simp
  then show ?thesis by (rule registry_ok_step [OF assms(1)])
qed

lemma registry_ok_run_actions:
  assumes "registry_ok st" and "run_actions beh fuel as st = Some st'"
  shows "registry_ok st'"
  using assms
proof (induction as arbitrary: st)
  case Nil
  then show ?case by simp
next
  case (Cons a as)
  from Cons.prems(2) obtain st1 where a: "act beh fuel a st = Some st1"
    and r: "run_actions beh fuel as st1 = Some st'"
    by (simp split: option.splits)
  from Cons.IH [OF registry_ok_act [OF Cons.prems(1) a] r] show ?case .
qed

lemma set_registered: "w \<in> set (registered st t) \<longleftrightarrow> live st t w"
proof -
  have "w \<in> set (List.map_filter (\<lambda>e. e) es) \<longleftrightarrow> Some w \<in> set es" for es :: "'a wrapped option list"
    by (induction es) (auto simp add: map_filter_simps split: option.splits)
  then show ?thesis by (simp add: registered_def live_def)
qed

lemma registered_empty:
  "registered st t = [] \<longleftrightarrow> (\<forall>e \<in> set (entries st t). e = None)"
proof -
  have "registered st t = [] \<longleftrightarrow> set (registered st t) = {}"
    by simp
  also have "\<dots> \<longleftrightarrow> (\<forall>w. w \<notin> set (registered st t))"
    by auto
  also have "\<dots> \<longleftrightarrow> (\<forall>w. \<not> live st t w)"
    by (simp add: set_registered)
  also have "\<dots> \<longleftrightarrow> (\<forall>e \<in> set (entries st t). e = None)"
    unfolding live_def by (metis not_Some_eq)
  finally show ?thesis .
qed

text \<open>A loop over a set whose closures are all gone calls nothing, whatever the fuel.\<close>

lemma forEach_nothing_registered:
  assumes "\<forall>e \<in> set (entries st (mtype m)). e = None"
  shows "forEach beh fuel i m st = Some st"
  using assms
proof (induction "length (entries st (mtype m)) - i" arbitrary: i)
  case 0
  then show ?case by (simp add: forEach.simps [of beh fuel i m st])
next
  case (Suc n)
  then have i: "i < length (entries st (mtype m))" by simp
  with Suc.prems have none: "entries st (mtype m) ! i = None" by simp
  have "n = length (entries st (mtype m)) - (i + 1)" using Suc.hyps(2) by simp
  from Suc.hyps(1) [OF this Suc.prems] i none show ?case
    by (simp add: forEach.simps [of beh fuel i m st])
qed

lemma handleMessage_nothing_registered:
  assumes "registered st (mtype m) = []"
  shows "AdlMidi_handleMessage beh fuel m st = Some st"
  using assms forEach_nothing_registered [of st m beh fuel 0]
  by (simp add: AdlMidi_handleMessage_def registered_empty split: option.splits)

text \<open>A loop that returns has called every closure that its set held when it started.\<close>

lemma invoked_run_commands [simp]: "invoked (run_commands cs st) = invoked st"
proof (induction cs arbitrary: st)
  case Nil
  then show ?case by simp
next
  case (Cons c cs)
  have "invoked (run_commands [c] st) = invoked st"
    by (cases c) (simp_all add: clearTimeout_def settle_def send_def split: option.splits)
  with Cons.IH [of "run_commands [c] st"] show ?case
    by (simp add: run_commands_Cons [of c cs st])
qed

lemma entries_onceMessage:
  "entries (onceMessage t' h st) t =
     entries st t @ (if t = t' then [Some \<lparr> rid = next_closure st, wtype = t', whandler = h \<rparr>]
                     else [])"
  by (simp add: entries_def onceMessage_def Let_def split: option.splits)

lemma entries_run_commands: "\<exists>extra. entries (run_commands cs st) t = entries st t @ extra"
proof (induction cs arbitrary: st)
  case Nil
  then show ?case by simp
next
  case (Cons c cs)
  have "\<exists>extra. entries (run_commands [c] st) t = entries st t @ extra"
    by (cases c)
       (simp_all add: entries_onceMessage,
        simp_all add: entries_def clearTimeout_def settle_def send_def split: option.splits)
  then obtain x where x: "entries (run_commands [c] st) t = entries st t @ x" by blast
  from Cons.IH [of "run_commands [c] st"] obtain y where
    "entries (run_commands cs (run_commands [c] st)) t = entries (run_commands [c] st) t @ y"
    by blast
  with x show ?case
    by (simp add: run_commands_Cons [of c cs st])
qed

lemma entries_unregistered:
  "entries (unregistered w m st) t =
     (if t = wtype w then delete_entry (rid w) (entries st t) else entries st t)"
  by (simp add: entries_def unregistered_def delete_entry_def split: option.splits)

lemma invoked_forEach:
  assumes "forEach beh fuel i m st = Some st'"
  shows "set (invoked st) \<subseteq> set (invoked st')"
  using assms
proof (induction beh fuel i m st rule: forEach.induct)
  case (1 beh fuel i m st)
  show ?case
  proof (cases "length (entries st (mtype m)) \<le> i")
    case True
    with "1.prems" show ?thesis by (simp add: forEach.simps [of beh fuel i m st])
  next
    case False
    show ?thesis
    proof (cases "entries st (mtype m) ! i")
      case None
      with False "1.prems" "1.IH"(1) show ?thesis
        by (simp add: forEach.simps [of beh fuel i m st])
    next
      case (Some u)
      show ?thesis
      proof (cases fuel)
        case 0
        with False Some "1.prems" show ?thesis
          by (simp add: forEach.simps [of beh fuel i m st])
      next
        case (Suc fuel')
        with False Some "1.prems"
        have "forEach beh fuel' (i + 1) m (call_wrapped beh u m st) = Some st'"
          by (simp add: forEach.simps [of beh fuel i m st])
        from "1.IH"(2) [OF False Some Suc this] show ?thesis
          by (simp add: call_wrapped_unregistered)
      qed
    qed
  qed
qed

lemma forEach_calls_all:
  assumes "registry_ok st" and "forEach beh fuel i m st = Some st'"
    and "i \<le> k" and "k < length (entries st (mtype m))"
    and "entries st (mtype m) ! k = Some w"
  shows "rid w \<in> fst ` set (invoked st')"
  using assms
proof (induction beh fuel i m st rule: forEach.induct)
  case (1 beh fuel i m st)
  from "1.prems"(3,4) have more: "\<not> length (entries st (mtype m)) \<le> i" by simp
  show ?case
  proof (cases "entries st (mtype m) ! i")
    case None
    with "1.prems"(3,5) have "i + 1 \<le> k" by (cases "k = i") simp_all
    moreover from more None "1.prems"(2) have "forEach beh fuel (i + 1) m st = Some st'"
      by (simp add: forEach.simps [of beh fuel i m st])
    ultimately show ?thesis
      using "1.IH"(1) [OF more None "1.prems"(1) _ _ "1.prems"(4,5)] by simp
  next
    case (Some u)
    with more have lu: "live st (mtype m) u" by (intro live_entry [of i]) simp_all
    then have tu: "wtype u = mtype m" using registry_okD(2) [OF "1.prems"(1)] by simp
    show ?thesis
    proof (cases fuel)
      case 0
      with more Some "1.prems"(2) show ?thesis
        by (simp add: forEach.simps [of beh fuel i m st])
    next
      case (Suc fuel')
      let ?st1 = "call_wrapped beh u m st"
      from Suc more Some "1.prems"(2)
      have run: "forEach beh fuel' (i + 1) m ?st1 = Some st'"
        by (simp add: forEach.simps [of beh fuel i m st])
      have logged: "rid u \<in> fst ` set (invoked st')"
        using invoked_forEach [OF run] by (force simp add: call_wrapped_unregistered)
      show ?thesis
      proof (cases "rid w = rid u")
        case True
        with logged show ?thesis by simp
      next
        case False
        with Some "1.prems"(3,5) have next_k: "i + 1 \<le> k" by (cases "k = i") auto
        obtain extra where "entries ?st1 (mtype m) =
            delete_entry (rid u) (entries st (mtype m)) @ extra"
          using entries_run_commands [of "beh (whandler u) m" "unregistered u m st" "mtype m"]
          by (auto simp add: call_wrapped_unregistered entries_unregistered tu)
        with "1.prems"(4,5) False
        have k1: "k < length (entries ?st1 (mtype m))" "entries ?st1 (mtype m) ! k = Some w"
          by (simp_all add: delete_entry_def nth_append)
        from "1.IH"(2) [OF more Some Suc registry_ok_call_wrapped [OF "1.prems"(1) lu]
            run next_k k1]
        show ?thesis .
      qed
    qed
  qed
qed

lemma handleMessage_calls_registered:
  assumes "registry_ok st" and "w \<in> set (registered st (mtype m))"
    and "AdlMidi_handleMessage beh fuel m st = Some st'"
  shows "rid w \<in> fst ` set (invoked st')"
proof -
  from assms(2) have "Some w \<in> set (entries st (mtype m))"
    by (simp add: set_registered live_def)
  then obtain k where k: "k < length (entries st (mtype m))" "entries st (mtype m) ! k = Some w"
    by (auto simp add: in_set_conv_nth)
  then have "messageHandlers st (mtype m) \<noteq> None"
    by (cases "messageHandlers st (mtype m)") (simp_all add: entries_def)
  with assms(3) have "forEach beh fuel 0 m st = Some st'"
    by (auto simp add: AdlMidi_handleMessage_def)
  from forEach_calls_all [OF assms(1) this _ k] show ?thesis by simp
qed

text \<open>
  C4. Start from a new \<^verbatim>\<open>AdlMidi\<close>, with or without its node, and let anything happen: methods that register one-shot
  handlers and send, messages that arrive, timers that fire, with handlers that may
  themselves register handlers and send. In every state reached, no closure made by
  \<^verbatim>\<open>#onceMessage\<close> has been called twice, and no registered closure has been called yet.
  The call of a registered closure runs the body of the handler from the state in which
  the closure is already removed from the registry and the call is logged, so nothing the
  body does, and no later message, can reach it again. A message for whose type no
  closure is registered leaves \<^verbatim>\<open>#handleMessage\<close> with the state unchanged: it returns,
  with any fuel, and nothing is called, sent or settled. When \<^verbatim>\<open>#handleMessage\<close> returns
  from a message, every closure that was registered for its type has been called and is
  no longer registered.
\<close>

theorem one_shot_handlers_run_at_most_once:
  assumes "run_actions beh fuel as (new_AdlMidi \<lparr> node := n \<rparr>) = Some st"
  shows "distinct (map fst (invoked st)) \<and>
         (\<forall>w \<in> set (registered st t).
            rid w \<notin> fst ` set (invoked st) \<and>
            call_wrapped beh w m st = run_commands (beh (whandler w) m) (unregistered w m st) \<and>
            (\<forall>t'. w \<notin> set (registered (unregistered w m st) t')) \<and>
            invoked (unregistered w m st) = invoked st @ [(rid w, m)]) \<and>
         (registered st (mtype m) = [] \<longrightarrow> AdlMidi_handleMessage beh fuel' m st = Some st) \<and>
         (\<forall>w \<in> set (registered st (mtype m)). \<forall>st'.
            AdlMidi_handleMessage beh fuel' m st = Some st' \<longrightarrow>
              rid w \<in> fst ` set (invoked st') \<and> (\<forall>t'. w \<notin> set (registered st' t')))"
proof (intro conjI ballI allI impI)
  have "registry_ok (new_AdlMidi \<lparr> node := n \<rparr> :: 'a client)"
    using registry_ok_new by (simp add: registry_ok_def live_def entries_def)
  then have ok: "registry_ok st"
    using assms by (rule registry_ok_run_actions)
  show "distinct (map fst (invoked st))"
    using registry_okD(6) [OF ok] .
  show "AdlMidi_handleMessage beh fuel' m st = Some st" if "registered st (mtype m) = []"
    using that by (rule handleMessage_nothing_registered)
  {
    fix w st' t'
    assume w: "w \<in> set (registered st (mtype m))"
      and run: "AdlMidi_handleMessage beh fuel' m st = Some st'"
    show called: "rid w \<in> fst ` set (invoked st')"
      using handleMessage_calls_registered [OF ok w run] .
    have "registry_ok st'"
      using registry_ok_handleMessage [OF ok run] .
    from registry_okD(3) [OF this, of t' w] called
    show "w \<notin> set (registered st' t')"
      by (auto simp add: set_registered)
  }
  fix w assume "w \<in> set (registered st t)"
  then have l: "live st t w" by (simp add: set_registered)
  show "rid w \<notin> fst ` set (invoked st)"
    using registry_okD(3) [OF ok l] .
  show "call_wrapped beh w m st = run_commands (beh (whandler w) m) (unregistered w m st)"
    by (rule call_wrapped_unregistered)
  show "invoked (unregistered w m st) = invoked st @ [(rid w, m)]"
    by simp
  show "w \<notin> set (registered (unregistered w m st) t')" for t'
    using registry_ok_unregistered(2) [OF ok l, of m t' w] by (auto simp add: set_registered)
qed

lemma demo_registration:
  "run_actions chain 2 [Method [OnceMessage ''pong'' True, Send Ping]]
       (new_AdlMidi \<lparr> node := True \<rparr>) =
     Some (new_AdlMidi
       \<lparr> messageHandlers := (\<lambda>t. None)
            (''pong'' \<mapsto> [Some \<lparr> rid = 0, wtype = ''pong'', whandler = True \<rparr>]),
         node := True, next_closure := 1, posted := [Ping] \<rparr>)"
  by (simp add: onceMessage_def send_def new_AdlMidi_def Let_def)

lemma demo_delivery:
  "run_actions chain 2
       [Method [OnceMessage ''pong'' True, Send Ping],
        Event (Deliver \<lparr> mtype = ''pong'', message = None \<rparr>),
        Event (Deliver \<lparr> mtype = ''pong'', message = None \<rparr>)]
       (new_AdlMidi \<lparr> node := True \<rparr>) =
     Some (new_AdlMidi
       \<lparr> messageHandlers := (\<lambda>t. None) (''pong'' \<mapsto> [None, None]),
         node := True, next_closure := 2, posted := [Ping, Ping],
         invoked := [(0, \<lparr> mtype = ''pong'', message = None \<rparr>),
                     (1, \<lparr> mtype = ''pong'', message = None \<rparr>)] \<rparr>)"
  by (simp add: onceMessage_def send_def new_AdlMidi_def AdlMidi_handleMessage_def
      forEach.simps entries_def call_wrapped_def delete_entry_def Let_def)

lemma demo_dispatch:
  "AdlMidi_handleMessage chain 2 \<lparr> mtype = ''pong'', message = None \<rparr>
     (new_AdlMidi
       \<lparr> messageHandlers := (\<lambda>t. None)
            (''pong'' \<mapsto> [Some \<lparr> rid = 0, wtype = ''pong'', whandler = True \<rparr>]),
         node := True, next_closure := 1, posted := [Ping] \<rparr>) =
     Some (new_AdlMidi
       \<lparr> messageHandlers := (\<lambda>t. None) (''pong'' \<mapsto> [None, None]),
         node := True, next_closure := 2, posted := [Ping, Ping],
         invoked := [(0, \<lparr> mtype = ''pong'', message = None \<rparr>),
                     (1, \<lparr> mtype = ''pong'', message = None \<rparr>)] \<rparr>)"
  by (simp add: onceMessage_def send_def new_AdlMidi_def AdlMidi_handleMessage_def
      forEach.simps entries_def call_wrapped_def delete_entry_def Let_def)

theorem one_shot_handlers_run_at_most_once_witness:
  "run_actions chain 2
       [Method [OnceMessage ''pong'' True, Send Ping],
        Event (Deliver \<lparr> mtype = ''pong'', message = None \<rparr>),
        Event (Deliver \<lparr> mtype = ''pong'', message = None \<rparr>)]
       (new_AdlMidi \<lparr> node := True \<rparr>) =
     Some (new_AdlMidi
       \<lparr> messageHandlers := (\<lambda>t. None) (''pong'' \<mapsto> [None, None]),
         node := True, next_closure := 2, posted := [Ping, Ping],
         invoked := [(0, \<lparr> mtype = ''pong'', message = None \<rparr>),
                     (1, \<lparr> mtype = ''pong'', message = None \<rparr>)] \<rparr>) \<and>
   distinct [0 :: nat, 1] \<and>
   AdlMidi_handleMessage chain 0 \<lparr> mtype = ''pong'', message = None \<rparr>
     (new_AdlMidi
       \<lparr> messageHandlers := (\<lambda>t. None) (''pong'' \<mapsto> [None, None]),
         node := True, next_closure := 2, posted := [Ping, Ping],
         invoked := [(0, \<lparr> mtype = ''pong'', message = None \<rparr>),
                     (1, \<lparr> mtype = ''pong'', message = None \<rparr>)] \<rparr>) =
     Some (new_AdlMidi
       \<lparr> messageHandlers := (\<lambda>t. None) (''pong'' \<mapsto> [None, None]),
         node := True, next_closure := 2, posted := [Ping, Ping],
         invoked := [(0, \<lparr> mtype = ''pong'', message = None \<rparr>),
                     (1, \<lparr> mtype = ''pong'', message = None \<rparr>)] \<rparr>) \<and>
   \<lparr> rid = 0, wtype = ''pong'', whandler = True \<rparr> \<in> set (registered
     (new_AdlMidi
       \<lparr> messageHandlers := (\<lambda>t. None)
            (''pong'' \<mapsto> [Some \<lparr> rid = 0, wtype = ''pong'', whandler = True \<rparr>]),
         node := True, next_closure := 1, posted := [Ping] \<rparr>) ''pong'') \<and>
   \<lparr> rid = 0, wtype = ''pong'', whandler = True \<rparr> \<notin> set (registered
     (unregistered \<lparr> rid = 0, wtype = ''pong'', whandler = True \<rparr>
        \<lparr> mtype = ''pong'', message = None \<rparr>
        (new_AdlMidi
          \<lparr> messageHandlers := (\<lambda>t. None)
               (''pong'' \<mapsto> [Some \<lparr> rid = 0, wtype = ''pong'', whandler = True \<rparr>]),
            node := True, next_closure := 1, posted := [Ping] \<rparr>)) ''pong'') \<and>
   rid \<lparr> rid = 0, wtype = ''pong'', whandler = True \<rparr> \<in> fst ` set (invoked
     (new_AdlMidi
       \<lparr> messageHandlers := (\<lambda>t. None) (''pong'' \<mapsto> [None, None]),
         node := True, next_closure := 2, posted := [Ping, Ping],
         invoked := [(0, \<lparr> mtype = ''pong'', message = None \<rparr>),
                     (1, \<lparr> mtype = ''pong'', message = None \<rparr>)] \<rparr> :: bool client))"
proof -
  let ?m = "\<lparr> mtype = ''pong'', message = None \<rparr>"
  let ?w = "\<lparr> rid = 0, wtype = ''pong'', whandler = True \<rparr>"
  let ?S1 = "new_AdlMidi
       \<lparr> messageHandlers := (\<lambda>t. None) (''pong'' \<mapsto> [Some ?w]),
         node := True, next_closure := 1, posted := [Ping] \<rparr> :: bool client"
  let ?S = "new_AdlMidi
       \<lparr> messageHandlers := (\<lambda>t. None) (''pong'' \<mapsto> [None, None]),
         node := True, next_closure := 2, posted := [Ping, Ping],
         invoked := [(0, ?m), (1, ?m)] \<rparr> :: bool client"
  have none: "registered ?S (mtype ?m) = []"
    by (simp add: registered_def entries_def map_filter_simps)
  have one: "?w \<in> set (registered ?S1 ''pong'')"
    by (simp add: registered_def entries_def map_filter_simps)
  note t = one_shot_handlers_run_at_most_once [OF demo_delivery, where m = ?m and fuel' = 0]
  from t none have dropped: "AdlMidi_handleMessage chain 0 ?m ?S = Some ?S"
    by blast
  from t have "distinct (map fst (invoked ?S))"
    by blast
  then have once: "distinct [0 :: nat, 1]"
    by simp
  note t1 = one_shot_handlers_run_at_most_once
      [OF demo_registration, where m = ?m and t = "''pong''", THEN conjunct2, THEN conjunct1,
        THEN bspec, OF one]
  from t1 have gone: "?w \<notin> set (registered (unregistered ?w ?m ?S1) ''pong'')"
    by blast
  have one': "?w \<in> set (registered ?S1 (mtype ?m))"
    using one by simp
  note t2 = one_shot_handlers_run_at_most_once
      [OF demo_registration, where m = ?m and fuel' = 2, THEN conjunct2, THEN conjunct2,
        THEN conjunct2, THEN bspec, OF one', THEN spec, THEN mp, OF demo_dispatch,
        THEN conjunct1]
  show ?thesis
    using demo_delivery dropped once one gone t2 by simp
qed

subsection \<open>The initialization handshake\<close>

lemma handshake_start:
  fixes n :: bool
  defines "start \<equiv> init_handshake (new_AdlMidi \<lparr> node := n \<rparr>)"
  shows "fst start = (0, 0)"
    and "messageHandlers (snd start) ''ready'' = Some [Some ready_closure]"
    and "messageHandlers (snd start) ''error'' = Some [Some error_closure]"
    and "timers (snd start) 0 = Some (10000, [Reject 0 timeout_message])"
    and "promises (snd start) 0 = None"
    and "\<not> is_ready (snd start)"
    and "handshake_ok (snd start)"
  unfolding start_def
  by (simp_all add: init_handshake_def setTimeout_def onceMessage_def new_AdlMidi_def
      handshake_ok_def ready_closure_def error_closure_def timeout_message_def Let_def)

text \<open>The effect of the three closures of the handshake.\<close>

lemma handshake_okD:
  assumes "handshake_ok st"
  shows "t \<noteq> ''ready'' \<Longrightarrow> t \<noteq> ''error'' \<Longrightarrow> messageHandlers st t = None"
    and "messageHandlers st ''ready'' = Some [Some ready_closure] \<or>
         messageHandlers st ''ready'' = Some [None]"
    and "messageHandlers st ''error'' = Some [Some error_closure] \<or>
         messageHandlers st ''error'' = Some [None]"
    and "k \<noteq> 0 \<Longrightarrow> timers st k = None"
    and "timers st 0 = None \<or> timers st 0 = Some (10000, [Reject 0 timeout_message])"
    and "promises st 0 = None \<longleftrightarrow> timers st 0 \<noteq> None"
    and "promises st 0 = None \<Longrightarrow> messageHandlers st ''ready'' = Some [Some ready_closure]"
    and "promises st 0 = None \<Longrightarrow> messageHandlers st ''error'' = Some [Some error_closure]"
    and "is_ready st \<longleftrightarrow> messageHandlers st ''ready'' = Some [None]"
  using assms unfolding handshake_ok_def by simp_all

lemma deliver_ready_live:
  assumes "messageHandlers st ''ready'' = Some [Some ready_closure]" and "mtype m = ''ready''"
  shows "AdlMidi_handleMessage behaviour (Suc f) m st =
    Some (settle 0 Resolved
      (clearTimeout 0
         (st \<lparr> messageHandlers := (messageHandlers st) (''ready'' \<mapsto> [None]),
               invoked := invoked st @ [(0, m)] \<rparr>)
       \<lparr> is_ready := True \<rparr>))"
  using assms
  by (simp add: AdlMidi_handleMessage_def forEach.simps [of behaviour] entries_def
      call_wrapped_def delete_entry_def ready_closure_def clearTimeout_def settle_def Let_def
      split: option.splits)

lemma deliver_error_live:
  assumes "messageHandlers st ''error'' = Some [Some error_closure]" and "mtype m = ''error''"
  shows "AdlMidi_handleMessage behaviour (Suc f) m st =
    Some (settle 0 (Rejected (case message m of None \<Rightarrow> [] | Some s \<Rightarrow> s))
      (clearTimeout 0
         (st \<lparr> messageHandlers := (messageHandlers st) (''error'' \<mapsto> [None]),
               invoked := invoked st @ [(1, m)] \<rparr>)))"
  using assms
  by (simp add: AdlMidi_handleMessage_def forEach.simps [of behaviour] entries_def
      call_wrapped_def delete_entry_def error_closure_def clearTimeout_def settle_def Let_def
      split: option.splits)

lemma deliver_consumed:
  assumes "messageHandlers st (mtype m) = Some [None] \<or> messageHandlers st (mtype m) = None"
  shows "AdlMidi_handleMessage beh fuel m st = Some st"
  using assms
  by (auto simp add: AdlMidi_handleMessage_def forEach.simps [of beh] entries_def)

lemma handshake_step:
  assumes ok: "handshake_ok st" and fuel: "0 < fuel"
  obtains st' where "step behaviour fuel e st = Some st'" "handshake_ok st'"
    "promises st' 0 = (case promises st 0 of None \<Rightarrow> decides e | Some out \<Rightarrow> Some out)"
    "is_ready st' \<longleftrightarrow> is_ready st \<or> (\<exists>m. e = Deliver m \<and> mtype m = ''ready'')"
proof -
  note d = handshake_okD [OF ok]
  from fuel obtain f where f: "fuel = Suc f" by (cases fuel) auto
  have settled: "promises st 0 \<noteq> None \<Longrightarrow>
      (case promises st 0 of None \<Rightarrow> x | Some out \<Rightarrow> Some out) = promises st 0" for x
    by (cases "promises st 0") simp_all
  show thesis
  proof (cases e)
    case (Deliver m)
    consider (ready) "mtype m = ''ready''" | (error) "mtype m = ''error''"
      | (other) "mtype m \<noteq> ''ready''" "mtype m \<noteq> ''error''"
      by blast
    then show thesis
    proof cases
      case ready
      from d(2) show thesis
      proof
        assume live: "messageHandlers st ''ready'' = Some [Some ready_closure]"
        let ?st' = "settle 0 Resolved
          (clearTimeout 0
             (st \<lparr> messageHandlers := (messageHandlers st) (''ready'' \<mapsto> [None]),
                   invoked := invoked st @ [(0, m)] \<rparr>)
           \<lparr> is_ready := True \<rparr>)"
        have "step behaviour fuel e st = Some ?st'"
          using deliver_ready_live [OF live ready] Deliver f by simp
        moreover have "handshake_ok ?st'"
          using ok d(3)
          by (auto simp add: handshake_ok_def settle_def clearTimeout_def split: option.splits)
        moreover have "promises ?st' 0 =
            (case promises st 0 of None \<Rightarrow> decides e | Some out \<Rightarrow> Some out)"
          using Deliver ready
          by (simp add: settle_def clearTimeout_def split: option.splits)
        moreover have "is_ready ?st'"
          by (simp add: settle_def clearTimeout_def split: option.splits)
        ultimately show thesis
          using that [of ?st'] Deliver ready by blast
      next
        assume gone: "messageHandlers st ''ready'' = Some [None]"
        then have "promises st 0 \<noteq> None" using d(7) by auto
        moreover have "step behaviour fuel e st = Some st"
          using deliver_consumed [of st m] gone ready Deliver by simp
        moreover have "is_ready st" using d(9) gone by simp
        ultimately show thesis
          using that [of st] ok settled by simp
      qed
    next
      case error
      from d(3) show thesis
      proof
        assume live: "messageHandlers st ''error'' = Some [Some error_closure]"
        let ?st' = "settle 0 (Rejected (case message m of None \<Rightarrow> [] | Some s \<Rightarrow> s))
          (clearTimeout 0
             (st \<lparr> messageHandlers := (messageHandlers st) (''error'' \<mapsto> [None]),
                   invoked := invoked st @ [(1, m)] \<rparr>))"
        have "step behaviour fuel e st = Some ?st'"
          using deliver_error_live [OF live error] Deliver f by simp
        moreover have "handshake_ok ?st'"
          using ok d(2)
          by (auto simp add: handshake_ok_def settle_def clearTimeout_def split: option.splits)
        moreover have "promises ?st' 0 =
            (case promises st 0 of None \<Rightarrow> decides e | Some out \<Rightarrow> Some out)"
          using Deliver error
          by (simp add: settle_def clearTimeout_def split: option.splits)
        moreover have "is_ready ?st' = is_ready st"
          by (simp add: settle_def clearTimeout_def split: option.splits)
        ultimately show thesis
          using that [of ?st'] Deliver error by simp
      next
        assume gone: "messageHandlers st ''error'' = Some [None]"
        then have "promises st 0 \<noteq> None" using d(8) by auto
        moreover have "step behaviour fuel e st = Some st"
          using deliver_consumed [of st m] gone error Deliver by simp
        ultimately show thesis
          using that [of st] ok settled Deliver error by simp
      qed
    next
      case other
      have "step behaviour fuel e st = Some st"
        using deliver_consumed [of st m] d(1) [OF other] Deliver by simp
      moreover have "decides e = None" using other Deliver by simp
      ultimately show thesis
        using that [of st] ok other Deliver by (simp split: option.splits)
    qed
  next
    case (TimerFires k)
    show thesis
    proof (cases "timers st k")
      case None
      then have same: "step behaviour fuel e st = Some st"
        using TimerFires by (simp add: timer_fires_def)
      have "promises st 0 \<noteq> None" if "k = 0"
        using that None d(6) by simp
      then have "promises st 0 =
          (case promises st 0 of None \<Rightarrow> decides e | Some out \<Rightarrow> Some out)"
        using TimerFires by (cases "k = 0") (simp_all add: settled split: option.splits)
      with same show thesis
        using that [of st] ok TimerFires by simp
    next
      case (Some dc)
      then have k: "k = 0" using d(4) [of k] by auto
      with Some d(5) have armed: "timers st 0 = Some (10000, [Reject 0 timeout_message])"
        by simp
      then have pending: "promises st 0 = None" using d(6) by simp
      let ?st' = "settle 0 (Rejected timeout_message) (clearTimeout 0 st)"
      have "step behaviour fuel e st = Some ?st'"
        using TimerFires k armed by (simp add: timer_fires_def)
      moreover have "handshake_ok ?st'"
        using ok pending
        by (auto simp add: handshake_ok_def settle_def clearTimeout_def split: option.splits)
      moreover have "promises ?st' 0 =
          (case promises st 0 of None \<Rightarrow> decides e | Some out \<Rightarrow> Some out)"
        using TimerFires k pending by (simp add: settle_def clearTimeout_def)
      moreover have "is_ready ?st' = is_ready st"
        by (simp add: settle_def clearTimeout_def split: option.splits)
      ultimately show thesis
        using that [of ?st'] TimerFires by simp
    qed
  qed
qed

lemma handshake_run:
  assumes "handshake_ok st" and "0 < fuel"
  shows "\<exists>st'. run_events behaviour fuel es st = Some st' \<and> handshake_ok st' \<and>
    promises st' 0 = (case promises st 0 of None \<Rightarrow> first_outcome es | Some out \<Rightarrow> Some out) \<and>
    (is_ready st' \<longleftrightarrow> is_ready st \<or> (\<exists>m. Deliver m \<in> set es \<and> mtype m = ''ready''))"
  using assms
proof (induction es arbitrary: st)
  case Nil
  then show ?case by (simp split: option.splits)
next
  case (Cons e es)
  obtain st1 where s1: "step behaviour fuel e st = Some st1" "handshake_ok st1"
      "promises st1 0 = (case promises st 0 of None \<Rightarrow> decides e | Some out \<Rightarrow> Some out)"
      "is_ready st1 \<longleftrightarrow> is_ready st \<or> (\<exists>m. e = Deliver m \<and> mtype m = ''ready'')"
    by (rule handshake_step [OF Cons.prems, of e]) blast
  from Cons.IH [OF s1(2) Cons.prems(2)] obtain st' where
    s': "run_events behaviour fuel es st1 = Some st'" "handshake_ok st'"
      "promises st' 0 = (case promises st1 0 of None \<Rightarrow> first_outcome es | Some out \<Rightarrow> Some out)"
      "is_ready st' \<longleftrightarrow> is_ready st1 \<or> (\<exists>m. Deliver m \<in> set es \<and> mtype m = ''ready'')"
    by blast
  have "run_events behaviour fuel (e # es) st = Some st'"
    using s1(1) s'(1) by simp
  moreover have "promises st' 0 =
      (case promises st 0 of None \<Rightarrow> first_outcome (e # es) | Some out \<Rightarrow> Some out)"
    using s1(3) s'(3) by (simp split: option.splits)
  moreover have "is_ready st' \<longleftrightarrow>
      is_ready st \<or> (\<exists>m. Deliver m \<in> set (e # es) \<and> mtype m = ''ready'')"
    using s1(4) s'(4) by auto
  ultimately show ?case using s'(2) by blast
qed

text \<open>
  C6. The last statement of \<^verbatim>\<open>init\<close>, run on a new \<^verbatim>\<open>AdlMidi\<close>, starts a timer of 10000 ms
  whose callback rejects the promise with the timeout message, and registers one
  one-shot handler for \<open>ready\<close> and one for \<open>error\<close>; the promise is pending. Let then any
  messages arrive and any timers fire, in any order. The processing always returns, and
  the promise holds the outcome of the first event that decides one: resolved for a
  \<open>ready\<close> message, rejected with the message text for an \<open>error\<close> message, rejected
  with the timeout message for the timer; it is pending when there was none. Whatever
  comes later leaves that outcome as it is. The timer is armed exactly as long as no
  such event has happened: a \<open>ready\<close> or \<open>error\<close> message clears it. The ready flag is
  set exactly when a \<open>ready\<close> message has arrived, also when that was after the timeout.
\<close>

theorem init_handshake_first_event_decides:
  fixes n :: bool
  assumes "0 < fuel"
  defines "start \<equiv> init_handshake (new_AdlMidi \<lparr> node := n \<rparr>)"
  shows "fst start = (0, 0) \<and>
    registered (snd start) ''ready'' = [ready_closure] \<and>
    registered (snd start) ''error'' = [error_closure] \<and>
    behaviour (whandler ready_closure) m = [ClearTimeout 0, SetReady, Resolve 0] \<and>
    behaviour (whandler error_closure) m =
      [ClearTimeout 0, Reject 0 (case message m of None \<Rightarrow> [] | Some s \<Rightarrow> s)] \<and>
    timers (snd start) 0 = Some (10000, [Reject 0 timeout_message]) \<and>
    promises (snd start) 0 = None \<and>
    (\<exists>st. run_events behaviour fuel es (snd start) = Some st \<and>
       promises st 0 = first_outcome es \<and>
       (timers st 0 = None \<longleftrightarrow> first_outcome es \<noteq> None) \<and>
       (is_ready st \<longleftrightarrow> (\<exists>m. Deliver m \<in> set es \<and> mtype m = ''ready'')))"
proof -
  note s = handshake_start [of n, folded start_def]
  from handshake_run [OF s(7) assms(1), of es] obtain st where
    st: "run_events behaviour fuel es (snd start) = Some st" "handshake_ok st"
      "promises st 0 =
         (case promises (snd start) 0 of None \<Rightarrow> first_outcome es | Some out \<Rightarrow> Some out)"
      "is_ready st \<longleftrightarrow>
         is_ready (snd start) \<or> (\<exists>m. Deliver m \<in> set es \<and> mtype m = ''ready'')"
    by blast
  have outcome: "promises st 0 = first_outcome es"
    using st(3) s(5) by simp
  have timer: "timers st 0 = None \<longleftrightarrow> first_outcome es \<noteq> None"
    using handshake_okD(6) [OF st(2)] outcome by auto
  have flag: "is_ready st \<longleftrightarrow> (\<exists>m. Deliver m \<in> set es \<and> mtype m = ''ready'')"
    using st(4) s(6) by simp
  have run: "\<exists>st. run_events behaviour fuel es (snd start) = Some st \<and>
       promises st 0 = first_outcome es \<and>
       (timers st 0 = None \<longleftrightarrow> first_outcome es \<noteq> None) \<and>
       (is_ready st \<longleftrightarrow> (\<exists>m. Deliver m \<in> set es \<and> mtype m = ''ready''))"
    using st(1) outcome timer flag by (intro exI [of _ st]) simp
  have reg: "registered (snd start) ''ready'' = [ready_closure]"
    "registered (snd start) ''error'' = [error_closure]"
    using s(2,3) by (simp_all add: registered_def entries_def map_filter_simps)
  have beh: "behaviour (whandler ready_closure) m = [ClearTimeout 0, SetReady, Resolve 0]"
    "behaviour (whandler error_closure) m =
      [ClearTimeout 0, Reject 0 (case message m of None \<Rightarrow> [] | Some s \<Rightarrow> s)]"
    by (simp_all add: ready_closure_def error_closure_def)
  show ?thesis
    by (intro conjI s(1) reg beh s(4) s(5) run)
qed

theorem init_handshake_first_event_decides_witness:
  "0 < (1 :: nat) \<and>
   promises (the (run_events behaviour 1
      [Deliver \<lparr> mtype = ''pong'', message = None \<rparr>,
       Deliver \<lparr> mtype = ''ready'', message = None \<rparr>,
       TimerFires 0,
       Deliver \<lparr> mtype = ''error'', message = Some ''late'' \<rparr>]
      (snd (init_handshake (new_AdlMidi \<lparr> node := True \<rparr>))))) 0 = Some Resolved \<and>
   timers (the (run_events behaviour 1
      [Deliver \<lparr> mtype = ''pong'', message = None \<rparr>,
       Deliver \<lparr> mtype = ''ready'', message = None \<rparr>,
       TimerFires 0,
       Deliver \<lparr> mtype = ''error'', message = Some ''late'' \<rparr>]
      (snd (init_handshake (new_AdlMidi \<lparr> node := True \<rparr>))))) 0 = None \<and>
   promises (the (run_events behaviour 1
      [Deliver \<lparr> mtype = ''error'', message = Some ''no sound'' \<rparr>,
       Deliver \<lparr> mtype = ''ready'', message = None \<rparr>]
      (snd (init_handshake (new_AdlMidi \<lparr> node := True \<rparr>))))) 0 =
     Some (Rejected ''no sound'') \<and>
   promises (the (run_events behaviour 1
      [TimerFires 0, Deliver \<lparr> mtype = ''ready'', message = None \<rparr>]
      (snd (init_handshake (new_AdlMidi \<lparr> node := True \<rparr>))))) 0 =
     Some (Rejected ''Timeout waiting for WASM initialization'') \<and>
   is_ready (the (run_events behaviour 1
      [TimerFires 0, Deliver \<lparr> mtype = ''ready'', message = None \<rparr>]
      (snd (init_handshake (new_AdlMidi \<lparr> node := True \<rparr>)))))"
proof -
  let ?S = "snd (init_handshake (new_AdlMidi \<lparr> node := True \<rparr>))"
  let ?ready = "Deliver \<lparr> mtype = ''ready'', message = None \<rparr>"
  let ?es1 = "[Deliver \<lparr> mtype = ''pong'', message = None \<rparr>, ?ready, TimerFires 0,
               Deliver \<lparr> mtype = ''error'', message = Some ''late'' \<rparr>]"
  let ?es2 = "[Deliver \<lparr> mtype = ''error'', message = Some ''no sound'' \<rparr>, ?ready]"
  let ?es3 = "[TimerFires 0, ?ready]"
  have h: "0 < (1 :: nat)" by simp
  have f: "first_outcome ?es1 = Some Resolved"
    "first_outcome ?es2 = Some (Rejected ''no sound'')"
    "first_outcome ?es3 = Some (Rejected ''Timeout waiting for WASM initialization'')"
    by (simp_all add: timeout_message_def)
  have arrived: "\<exists>m. Deliver m \<in> set ?es3 \<and> mtype m = ''ready''"
    by (intro exI [of _ "\<lparr> mtype = ''ready'', message = None \<rparr>"]) simp
  note t1 = init_handshake_first_event_decides [OF h, where n = True and es = ?es1,
      THEN conjunct2, THEN conjunct2, THEN conjunct2, THEN conjunct2, THEN conjunct2,
      THEN conjunct2, THEN conjunct2]
  note t2 = init_handshake_first_event_decides [OF h, where n = True and es = ?es2,
      THEN conjunct2, THEN conjunct2, THEN conjunct2, THEN conjunct2, THEN conjunct2,
      THEN conjunct2, THEN conjunct2]
  note t3 = init_handshake_first_event_decides [OF h, where n = True and es = ?es3,
      THEN conjunct2, THEN conjunct2, THEN conjunct2, THEN conjunct2, THEN conjunct2,
      THEN conjunct2, THEN conjunct2]
  obtain st1 where r1: "run_events behaviour 1 ?es1 ?S = Some st1 \<and>
      promises st1 0 = first_outcome ?es1 \<and>
      (timers st1 0 = None \<longleftrightarrow> first_outcome ?es1 \<noteq> None) \<and>
      (is_ready st1 \<longleftrightarrow> (\<exists>m. Deliver m \<in> set ?es1 \<and> mtype m = ''ready''))"
    by (rule exE [OF t1])
  obtain st2 where r2: "run_events behaviour 1 ?es2 ?S = Some st2 \<and>
      promises st2 0 = first_outcome ?es2 \<and>
      (timers st2 0 = None \<longleftrightarrow> first_outcome ?es2 \<noteq> None) \<and>
      (is_ready st2 \<longleftrightarrow> (\<exists>m. Deliver m \<in> set ?es2 \<and> mtype m = ''ready''))"
    by (rule exE [OF t2])
  obtain st3 where r3: "run_events behaviour 1 ?es3 ?S = Some st3 \<and>
      promises st3 0 = first_outcome ?es3 \<and>
      (timers st3 0 = None \<longleftrightarrow> first_outcome ?es3 \<noteq> None) \<and>
      (is_ready st3 \<longleftrightarrow> (\<exists>m. Deliver m \<in> set ?es3 \<and> mtype m = ''ready''))"
    by (rule exE [OF t3])
  have a: "promises (the (run_events behaviour 1 ?es1 ?S)) 0 = Some Resolved"
    "timers (the (run_events behaviour 1 ?es1 ?S)) 0 = None"
    using r1 f(1) by simp_all
  have b: "promises (the (run_events behaviour 1 ?es2 ?S)) 0 = Some (Rejected ''no sound'')"
    using r2 f(2) by simp
  have c: "promises (the (run_events behaviour 1 ?es3 ?S)) 0 =
      Some (Rejected ''Timeout waiting for WASM initialization'')"
    "is_ready (the (run_events behaviour 1 ?es3 ?S))"
    using r3 f(3) arrived by simp_all
  show ?thesis
    by (intro conjI h a b c)
qed

end
